theory Spec2Isabelle
  imports Complex_Main "HOL-Library.Char_ord" "HOL-Library.List_Lexorder" "HOL-Library.Multiset"
begin

section \<open>Scalars of the Go runtime\<close>

text \<open>
  The repository is a Go study copy of the gota data-frame library: package \<open>series\<close>
  (the element kinds and the column type) and package \<open>dataframe\<close> (the table type).

  Go's \<open>int\<close> is modelled as \<open>int\<close>: no element arithmetic of the modelled functions
  overflows (payloads are only compared and copied; counters count list positions).
  Go's \<open>string\<close> is a byte sequence: \<open>string\<close> here, compared bytewise
  (the lexicographic order of \<open>HOL-Library.List_Lexorder\<close> over \<open>Char_ord\<close>).

  Go's \<open>float64\<close> is modelled by its value classes: the finite values (a real number,
  \<open>Fin 0\<close> being \<open>+0.0\<close>), the negative zero, the two infinities and NaN. The
  rounding of the 53-bit mantissa is not modelled: a finite result is the exact real
  result. The sign of a zero result, the infinities and the propagation of NaN follow
  IEEE 754.
\<close>

datatype float64 = Fin real | NegZero | PosInf | NegInf | NaN

fun IsNaN :: "float64 \<Rightarrow> bool" where
  "IsNaN NaN = True"
| "IsNaN _ = False"

fun IsInf :: "float64 \<Rightarrow> bool" where
  "IsInf PosInf = True"
| "IsInf NegInf = True"
| "IsInf _ = False"

text \<open>The sign bit, the magnitude of a finite value, and the position on the extended
  real line (\<open>-1\<close> for \<open>-Inf\<close>, \<open>0\<close> for a finite value, \<open>1\<close> for \<open>+Inf\<close>).\<close>

fun signbit :: "float64 \<Rightarrow> bool" where
  "signbit (Fin r) = (r < 0)"
| "signbit NegZero = True"
| "signbit NegInf = True"
| "signbit _ = False"

fun magnitude :: "float64 \<Rightarrow> real" where
  "magnitude (Fin r) = \<bar>r\<bar>"
| "magnitude _ = 0"

fun fclass :: "float64 \<Rightarrow> int" where
  "fclass PosInf = 1"
| "fclass NegInf = -1"
| "fclass _ = 0"

fun fvalue :: "float64 \<Rightarrow> real" where
  "fvalue (Fin r) = r"
| "fvalue _ = 0"

definition mk_fin :: "bool \<Rightarrow> real \<Rightarrow> float64" where
  "mk_fin neg m = (if m = 0 then (if neg then NegZero else Fin 0)
                   else Fin (if neg then - m else m))"

definition mk_inf :: "bool \<Rightarrow> float64" where
  "mk_inf neg = (if neg then NegInf else PosInf)"

definition is_zero :: "float64 \<Rightarrow> bool" where
  "is_zero x = (x = Fin 0 \<or> x = NegZero)"

text \<open>The comparison operators of Go on \<open>float64\<close>: every ordered comparison with a NaN
  is false, \<open>!=\<close> is the negation of \<open>==\<close>, and the two zeros are equal.\<close>

definition float_eq :: "float64 \<Rightarrow> float64 \<Rightarrow> bool" where
  "float_eq x y = (\<not> IsNaN x \<and> \<not> IsNaN y \<and> fclass x = fclass y \<and> fvalue x = fvalue y)"

definition float_lt :: "float64 \<Rightarrow> float64 \<Rightarrow> bool" where
  "float_lt x y = (\<not> IsNaN x \<and> \<not> IsNaN y \<and>
     (fclass x < fclass y \<or> (fclass x = fclass y \<and> fvalue x < fvalue y)))"

definition float_neq :: "float64 \<Rightarrow> float64 \<Rightarrow> bool" where
  "float_neq x y = (\<not> float_eq x y)"

definition float_le :: "float64 \<Rightarrow> float64 \<Rightarrow> bool" where
  "float_le x y = (float_lt x y \<or> float_eq x y)"

definition float_gt :: "float64 \<Rightarrow> float64 \<Rightarrow> bool" where
  "float_gt x y = float_lt y x"

definition float_ge :: "float64 \<Rightarrow> float64 \<Rightarrow> bool" where
  "float_ge x y = float_le y x"

text \<open>Arithmetic of \<open>float64\<close>.\<close>

fun fneg :: "float64 \<Rightarrow> float64" where
  "fneg (Fin r) = (if r = 0 then NegZero else Fin (- r))"
| "fneg NegZero = Fin 0"
| "fneg PosInf = NegInf"
| "fneg NegInf = PosInf"
| "fneg NaN = NaN"

fun fadd :: "float64 \<Rightarrow> float64 \<Rightarrow> float64" where
  "fadd NaN _ = NaN"
| "fadd _ NaN = NaN"
| "fadd PosInf NegInf = NaN"
| "fadd NegInf PosInf = NaN"
| "fadd PosInf _ = PosInf"
| "fadd _ PosInf = PosInf"
| "fadd NegInf _ = NegInf"
| "fadd _ NegInf = NegInf"
| "fadd NegZero NegZero = NegZero"
| "fadd NegZero (Fin b) = Fin b"
| "fadd (Fin a) NegZero = Fin a"
| "fadd (Fin a) (Fin b) = Fin (a + b)"

definition fsub :: "float64 \<Rightarrow> float64 \<Rightarrow> float64" where
  "fsub x y = fadd x (fneg y)"

definition fmul :: "float64 \<Rightarrow> float64 \<Rightarrow> float64" where
  "fmul x y =
     (if IsNaN x \<or> IsNaN y then NaN
      else if IsInf x \<or> IsInf y then
        (if is_zero x \<or> is_zero y then NaN else mk_inf (signbit x \<noteq> signbit y))
      else mk_fin (signbit x \<noteq> signbit y) (magnitude x * magnitude y))"

definition fdiv :: "float64 \<Rightarrow> float64 \<Rightarrow> float64" where
  "fdiv x y =
     (if IsNaN x \<or> IsNaN y then NaN
      else if IsInf x then (if IsInf y then NaN else mk_inf (signbit x \<noteq> signbit y))
      else if IsInf y then mk_fin (signbit x \<noteq> signbit y) 0
      else if is_zero y then (if is_zero x then NaN else mk_inf (signbit x \<noteq> signbit y))
      else mk_fin (signbit x \<noteq> signbit y) (magnitude x / magnitude y))"

fun fsqrt :: "float64 \<Rightarrow> float64" where
  "fsqrt (Fin r) = (if r < 0 then NaN else Fin (sqrt r))"
| "fsqrt NegZero = NegZero"
| "fsqrt PosInf = PosInf"
| "fsqrt NegInf = NaN"
| "fsqrt NaN = NaN"

text \<open>The conversions \<open>float64(i)\<close> and \<open>int(f)\<close> (truncation toward zero; the callers
  exclude NaN and the infinities before they convert).\<close>

definition float64_of_int :: "int \<Rightarrow> float64" where
  "float64_of_int i = Fin (of_int i)"

fun int_of_float64 :: "float64 \<Rightarrow> int" where
  "int_of_float64 (Fin r) = (if 0 \<le> r then \<lfloor>r\<rfloor> else \<lceil>r\<rceil>)"
| "int_of_float64 _ = 0"

subsection \<open>Text conversions of the standard library\<close>

text \<open>\<open>strconv.Itoa\<close>, \<open>fmt.Sprint\<close> of an int and the verb \<open>%d\<close>: the decimal digits,
  with a minus sign for a negative number.\<close>

definition digit_char :: "nat \<Rightarrow> char" where
  "digit_char d = char_of (48 + d)"

function itoa_nat :: "nat \<Rightarrow> string" where
  "itoa_nat n = (if n < 10 then [digit_char n] else itoa_nat (n div 10) @ [digit_char (n mod 10)])"
  by pat_completeness auto
termination
  by (relation "measure id") auto

declare itoa_nat.simps [simp del]

definition Itoa :: "int \<Rightarrow> string" where
  "Itoa i = (if i < 0 then CHR ''-'' # itoa_nat (nat (- i)) else itoa_nat (nat i))"

text \<open>\<open>strconv.Atoi\<close>: an optional sign and one or more decimal digits; an error (here
  \<open>None\<close>) on any other text and on a value outside the 64-bit range.\<close>

definition is_digit :: "char \<Rightarrow> bool" where
  "is_digit c = (CHR ''0'' \<le> c \<and> c \<le> CHR ''9'')"

definition digits_value :: "string \<Rightarrow> nat" where
  "digits_value ds = foldl (\<lambda>n c. n * 10 + (of_char c - 48)) 0 ds"

definition Atoi :: "string \<Rightarrow> int option" where
  "Atoi s =
     (let neg = (s \<noteq> [] \<and> hd s = CHR ''-'');
          ds = (if s \<noteq> [] \<and> (hd s = CHR ''-'' \<or> hd s = CHR ''+'') then tl s else s)
      in if ds = [] \<or> \<not> list_all is_digit ds then None
         else let v = (if neg then - int (digits_value ds) else int (digits_value ds))
              in if - (2 ^ 63) \<le> v \<and> v < 2 ^ 63 then Some v else None)"

text \<open>\<open>strings.ToLower\<close>, on the ASCII letters (the only ones that can produce the
  texts the callers match against).\<close>

definition ToLower :: "string \<Rightarrow> string" where
  "ToLower s = map (\<lambda>c. if CHR ''A'' \<le> c \<and> c \<le> CHR ''Z'' then char_of (of_char c + (32::nat)) else c) s"

text \<open>
  Four functions of libraries outside the repository are parameters of the model:
  \<open>strconv.ParseFloat(s, 64)\<close> (\<open>None\<close> when it returns an error),
  \<open>strconv.FormatFloat(f, 'f', 6, 64)\<close>, \<open>fmt.Sprintf("%f", f)\<close>, and gonum's
  \<open>stat.Quantile(p, stat.Empirical, x, nil)\<close> (\<open>None\<close> when it panics). Every
  theorem below holds for all of them.
\<close>

record extlib =
  ParseFloat :: "string \<Rightarrow> float64 option"
  FormatFloat :: "float64 \<Rightarrow> string"
  Sprintf_f :: "float64 \<Rightarrow> string"
  stat_Quantile :: "float64 \<Rightarrow> float64 list \<Rightarrow> float64 option"

section \<open>Elements (series/type-*.go)\<close>

text \<open>The four element structs, each a payload \<open>e\<close> and the flag \<open>nan\<close>.\<close>

datatype stringElement = stringElement string bool
datatype intElement = intElement int bool
datatype floatElement = floatElement float64 bool
datatype boolElement = boolElement bool bool

text \<open>A value of the interface \<open>Element\<close> is one of the four.\<close>

datatype Element =
    StringE stringElement
  | IntE intElement
  | FloatE floatElement
  | BoolE boolElement

datatype Type = String_t | Int_t | Float_t | Bool_t

subsection \<open>IsNA\<close>

fun stringElement_IsNA :: "stringElement \<Rightarrow> bool" where
  "stringElement_IsNA (stringElement e nan) = nan"

fun intElement_IsNA :: "intElement \<Rightarrow> bool" where
  "intElement_IsNA (intElement e nan) = nan"

fun floatElement_IsNA :: "floatElement \<Rightarrow> bool" where
  "floatElement_IsNA (floatElement e nan) = (if nan \<or> IsNaN e then True else False)"

fun boolElement_IsNA :: "boolElement \<Rightarrow> bool" where
  "boolElement_IsNA (boolElement e nan) = nan"

fun IsNA :: "Element \<Rightarrow> bool" where
  "IsNA (StringE x) = stringElement_IsNA x"
| "IsNA (IntE x) = intElement_IsNA x"
| "IsNA (FloatE x) = floatElement_IsNA x"
| "IsNA (BoolE x) = boolElement_IsNA x"

fun Elem_Type :: "Element \<Rightarrow> Type" where
  "Elem_Type (StringE x) = String_t"
| "Elem_Type (IntE x) = Int_t"
| "Elem_Type (FloatE x) = Float_t"
| "Elem_Type (BoolE x) = Bool_t"

subsection \<open>The accessors String, Int, Float and Bool\<close>

text \<open>\<open>Int\<close> and \<open>Bool\<close> return a value and an error: \<open>None\<close> is the error.\<close>

fun stringElement_String :: "stringElement \<Rightarrow> string" where
  "stringElement_String (stringElement e nan) = (if nan then ''NaN'' else e)"

fun stringElement_Int :: "stringElement \<Rightarrow> int option" where
  "stringElement_Int (stringElement e nan) = (if nan then None else Atoi e)"

fun stringElement_Float :: "extlib \<Rightarrow> stringElement \<Rightarrow> float64" where
  "stringElement_Float L (stringElement e nan) =
     (if nan then NaN else case ParseFloat L e of None \<Rightarrow> NaN | Some f \<Rightarrow> f)"

fun stringElement_Bool :: "stringElement \<Rightarrow> bool option" where
  "stringElement_Bool (stringElement e nan) =
     (if nan then None
      else if ToLower e \<in> {''true'', ''t'', ''1''} then Some True
      else if ToLower e \<in> {''false'', ''f'', ''0''} then Some False
      else None)"

fun intElement_String :: "intElement \<Rightarrow> string" where
  "intElement_String (intElement e nan) = (if nan then ''NaN'' else Itoa e)"

fun intElement_Int :: "intElement \<Rightarrow> int option" where
  "intElement_Int (intElement e nan) = (if nan then None else Some e)"

fun intElement_Float :: "intElement \<Rightarrow> float64" where
  "intElement_Float (intElement e nan) = (if nan then NaN else float64_of_int e)"

fun intElement_Bool :: "intElement \<Rightarrow> bool option" where
  "intElement_Bool (intElement e nan) =
     (if nan then None else if e = 1 then Some True else if e = 0 then Some False else None)"

fun floatElement_String :: "extlib \<Rightarrow> floatElement \<Rightarrow> string" where
  "floatElement_String L (floatElement e nan) =
     (if floatElement_IsNA (floatElement e nan) then ''NaN'' else Sprintf_f L e)"

fun floatElement_Int :: "floatElement \<Rightarrow> int option" where
  "floatElement_Int (floatElement e nan) =
     (if floatElement_IsNA (floatElement e nan) then None
      else if IsInf e then None
      else if IsNaN e then None
      else Some (int_of_float64 e))"

fun floatElement_Float :: "floatElement \<Rightarrow> float64" where
  "floatElement_Float (floatElement e nan) =
     (if floatElement_IsNA (floatElement e nan) then NaN else e)"

fun floatElement_Bool :: "floatElement \<Rightarrow> bool option" where
  "floatElement_Bool (floatElement e nan) =
     (if floatElement_IsNA (floatElement e nan) then None
      else if float_eq e (Fin 1) then Some True
      else if float_eq e (Fin 0) then Some False
      else None)"

fun boolElement_String :: "boolElement \<Rightarrow> string" where
  "boolElement_String (boolElement e nan) =
     (if nan then ''NaN'' else if e then ''true'' else ''false'')"

fun boolElement_Int :: "boolElement \<Rightarrow> int option" where
  "boolElement_Int (boolElement e nan) = (if nan then None else if e then Some 1 else Some 0)"

fun boolElement_Float :: "boolElement \<Rightarrow> float64" where
  "boolElement_Float (boolElement e nan) = (if nan then NaN else if e then Fin 1 else Fin 0)"

fun boolElement_Bool :: "boolElement \<Rightarrow> bool option" where
  "boolElement_Bool (boolElement e nan) = (if nan then None else Some e)"

fun Elem_String :: "extlib \<Rightarrow> Element \<Rightarrow> string" where
  "Elem_String L (StringE x) = stringElement_String x"
| "Elem_String L (IntE x) = intElement_String x"
| "Elem_String L (FloatE x) = floatElement_String L x"
| "Elem_String L (BoolE x) = boolElement_String x"

fun Elem_Int :: "Element \<Rightarrow> int option" where
  "Elem_Int (StringE x) = stringElement_Int x"
| "Elem_Int (IntE x) = intElement_Int x"
| "Elem_Int (FloatE x) = floatElement_Int x"
| "Elem_Int (BoolE x) = boolElement_Int x"

fun Elem_Float :: "extlib \<Rightarrow> Element \<Rightarrow> float64" where
  "Elem_Float L (StringE x) = stringElement_Float L x"
| "Elem_Float L (IntE x) = intElement_Float x"
| "Elem_Float L (FloatE x) = floatElement_Float x"
| "Elem_Float L (BoolE x) = boolElement_Float x"

fun Elem_Bool :: "Element \<Rightarrow> bool option" where
  "Elem_Bool (StringE x) = stringElement_Bool x"
| "Elem_Bool (IntE x) = intElement_Bool x"
| "Elem_Bool (FloatE x) = floatElement_Bool x"
| "Elem_Bool (BoolE x) = boolElement_Bool x"

subsection \<open>The six comparisons\<close>

text \<open>Each comparison reads the right-hand element through the accessor of the
  left-hand kind (\<open>String\<close>, \<open>Int\<close>, \<open>Float\<close>, \<open>Bool\<close>).\<close>

fun stringElement_Eq :: "extlib \<Rightarrow> stringElement \<Rightarrow> Element \<Rightarrow> bool" where
  "stringElement_Eq L (stringElement e nan) elem =
     (if stringElement_IsNA (stringElement e nan) \<or> IsNA elem then False
      else e = Elem_String L elem)"

fun stringElement_Neq :: "extlib \<Rightarrow> stringElement \<Rightarrow> Element \<Rightarrow> bool" where
  "stringElement_Neq L (stringElement e nan) elem =
     (if stringElement_IsNA (stringElement e nan) \<or> IsNA elem then False
      else e \<noteq> Elem_String L elem)"

fun stringElement_Less :: "extlib \<Rightarrow> stringElement \<Rightarrow> Element \<Rightarrow> bool" where
  "stringElement_Less L (stringElement e nan) elem =
     (if stringElement_IsNA (stringElement e nan) \<or> IsNA elem then False
      else e < Elem_String L elem)"

fun stringElement_LessEq :: "extlib \<Rightarrow> stringElement \<Rightarrow> Element \<Rightarrow> bool" where
  "stringElement_LessEq L (stringElement e nan) elem =
     (if stringElement_IsNA (stringElement e nan) \<or> IsNA elem then False
      else e \<le> Elem_String L elem)"

fun stringElement_Greater :: "extlib \<Rightarrow> stringElement \<Rightarrow> Element \<Rightarrow> bool" where
  "stringElement_Greater L (stringElement e nan) elem =
     (if stringElement_IsNA (stringElement e nan) \<or> IsNA elem then False
      else e > Elem_String L elem)"

fun stringElement_GreaterEq :: "extlib \<Rightarrow> stringElement \<Rightarrow> Element \<Rightarrow> bool" where
  "stringElement_GreaterEq L (stringElement e nan) elem =
     (if stringElement_IsNA (stringElement e nan) \<or> IsNA elem then False
      else e \<ge> Elem_String L elem)"

fun intElement_Eq :: "intElement \<Rightarrow> Element \<Rightarrow> bool" where
  "intElement_Eq (intElement e nan) elem =
     (case Elem_Int elem of None \<Rightarrow> False
      | Some i \<Rightarrow> if intElement_IsNA (intElement e nan) then False else e = i)"

fun intElement_Neq :: "intElement \<Rightarrow> Element \<Rightarrow> bool" where
  "intElement_Neq (intElement e nan) elem =
     (case Elem_Int elem of None \<Rightarrow> False
      | Some i \<Rightarrow> if intElement_IsNA (intElement e nan) then False else e \<noteq> i)"

fun intElement_Less :: "intElement \<Rightarrow> Element \<Rightarrow> bool" where
  "intElement_Less (intElement e nan) elem =
     (case Elem_Int elem of None \<Rightarrow> False
      | Some i \<Rightarrow> if intElement_IsNA (intElement e nan) then False else e < i)"

fun intElement_LessEq :: "intElement \<Rightarrow> Element \<Rightarrow> bool" where
  "intElement_LessEq (intElement e nan) elem =
     (case Elem_Int elem of None \<Rightarrow> False
      | Some i \<Rightarrow> if intElement_IsNA (intElement e nan) then False else e \<le> i)"

fun intElement_Greater :: "intElement \<Rightarrow> Element \<Rightarrow> bool" where
  "intElement_Greater (intElement e nan) elem =
     (case Elem_Int elem of None \<Rightarrow> False
      | Some i \<Rightarrow> if intElement_IsNA (intElement e nan) then False else e > i)"

fun intElement_GreaterEq :: "intElement \<Rightarrow> Element \<Rightarrow> bool" where
  "intElement_GreaterEq (intElement e nan) elem =
     (case Elem_Int elem of None \<Rightarrow> False
      | Some i \<Rightarrow> if intElement_IsNA (intElement e nan) then False else e \<ge> i)"

fun floatElement_Eq :: "extlib \<Rightarrow> floatElement \<Rightarrow> Element \<Rightarrow> bool" where
  "floatElement_Eq L (floatElement e nan) elem =
     (let f = Elem_Float L elem
      in if floatElement_IsNA (floatElement e nan) \<or> IsNaN f then False else float_eq e f)"

fun floatElement_Neq :: "extlib \<Rightarrow> floatElement \<Rightarrow> Element \<Rightarrow> bool" where
  "floatElement_Neq L (floatElement e nan) elem =
     (let f = Elem_Float L elem
      in if floatElement_IsNA (floatElement e nan) \<or> IsNaN f then False else float_neq e f)"

fun floatElement_Less :: "extlib \<Rightarrow> floatElement \<Rightarrow> Element \<Rightarrow> bool" where
  "floatElement_Less L (floatElement e nan) elem =
     (let f = Elem_Float L elem
      in if floatElement_IsNA (floatElement e nan) \<or> IsNaN f then False else float_lt e f)"

fun floatElement_LessEq :: "extlib \<Rightarrow> floatElement \<Rightarrow> Element \<Rightarrow> bool" where
  "floatElement_LessEq L (floatElement e nan) elem =
     (let f = Elem_Float L elem
      in if floatElement_IsNA (floatElement e nan) \<or> IsNaN f then False else float_le e f)"

fun floatElement_Greater :: "extlib \<Rightarrow> floatElement \<Rightarrow> Element \<Rightarrow> bool" where
  "floatElement_Greater L (floatElement e nan) elem =
     (let f = Elem_Float L elem
      in if floatElement_IsNA (floatElement e nan) \<or> IsNaN f then False else float_gt e f)"

fun floatElement_GreaterEq :: "extlib \<Rightarrow> floatElement \<Rightarrow> Element \<Rightarrow> bool" where
  "floatElement_GreaterEq L (floatElement e nan) elem =
     (let f = Elem_Float L elem
      in if floatElement_IsNA (floatElement e nan) \<or> IsNaN f then False else float_ge e f)"

fun boolElement_Eq :: "boolElement \<Rightarrow> Element \<Rightarrow> bool" where
  "boolElement_Eq (boolElement e nan) elem =
     (case Elem_Bool elem of None \<Rightarrow> False
      | Some b \<Rightarrow> if boolElement_IsNA (boolElement e nan) then False else e = b)"

fun boolElement_Neq :: "boolElement \<Rightarrow> Element \<Rightarrow> bool" where
  "boolElement_Neq (boolElement e nan) elem =
     (case Elem_Bool elem of None \<Rightarrow> False
      | Some b \<Rightarrow> if boolElement_IsNA (boolElement e nan) then False else e \<noteq> b)"

fun boolElement_Less :: "boolElement \<Rightarrow> Element \<Rightarrow> bool" where
  "boolElement_Less (boolElement e nan) elem =
     (case Elem_Bool elem of None \<Rightarrow> False
      | Some b \<Rightarrow> if boolElement_IsNA (boolElement e nan) then False else \<not> e \<and> b)"

fun boolElement_LessEq :: "boolElement \<Rightarrow> Element \<Rightarrow> bool" where
  "boolElement_LessEq (boolElement e nan) elem =
     (case Elem_Bool elem of None \<Rightarrow> False
      | Some b \<Rightarrow> if boolElement_IsNA (boolElement e nan) then False else \<not> e \<or> b)"

fun boolElement_Greater :: "boolElement \<Rightarrow> Element \<Rightarrow> bool" where
  "boolElement_Greater (boolElement e nan) elem =
     (case Elem_Bool elem of None \<Rightarrow> False
      | Some b \<Rightarrow> if boolElement_IsNA (boolElement e nan) then False else e \<and> \<not> b)"

fun boolElement_GreaterEq :: "boolElement \<Rightarrow> Element \<Rightarrow> bool" where
  "boolElement_GreaterEq (boolElement e nan) elem =
     (case Elem_Bool elem of None \<Rightarrow> False
      | Some b \<Rightarrow> if boolElement_IsNA (boolElement e nan) then False else e \<or> \<not> b)"

text \<open>The methods of the interface dispatch on the kind of the receiver.\<close>

fun Eq :: "extlib \<Rightarrow> Element \<Rightarrow> Element \<Rightarrow> bool" where
  "Eq L (StringE x) elem = stringElement_Eq L x elem"
| "Eq L (IntE x) elem = intElement_Eq x elem"
| "Eq L (FloatE x) elem = floatElement_Eq L x elem"
| "Eq L (BoolE x) elem = boolElement_Eq x elem"

fun Neq :: "extlib \<Rightarrow> Element \<Rightarrow> Element \<Rightarrow> bool" where
  "Neq L (StringE x) elem = stringElement_Neq L x elem"
| "Neq L (IntE x) elem = intElement_Neq x elem"
| "Neq L (FloatE x) elem = floatElement_Neq L x elem"
| "Neq L (BoolE x) elem = boolElement_Neq x elem"

fun Less :: "extlib \<Rightarrow> Element \<Rightarrow> Element \<Rightarrow> bool" where
  "Less L (StringE x) elem = stringElement_Less L x elem"
| "Less L (IntE x) elem = intElement_Less x elem"
| "Less L (FloatE x) elem = floatElement_Less L x elem"
| "Less L (BoolE x) elem = boolElement_Less x elem"

fun LessEq :: "extlib \<Rightarrow> Element \<Rightarrow> Element \<Rightarrow> bool" where
  "LessEq L (StringE x) elem = stringElement_LessEq L x elem"
| "LessEq L (IntE x) elem = intElement_LessEq x elem"
| "LessEq L (FloatE x) elem = floatElement_LessEq L x elem"
| "LessEq L (BoolE x) elem = boolElement_LessEq x elem"

fun Greater :: "extlib \<Rightarrow> Element \<Rightarrow> Element \<Rightarrow> bool" where
  "Greater L (StringE x) elem = stringElement_Greater L x elem"
| "Greater L (IntE x) elem = intElement_Greater x elem"
| "Greater L (FloatE x) elem = floatElement_Greater L x elem"
| "Greater L (BoolE x) elem = boolElement_Greater x elem"

fun GreaterEq :: "extlib \<Rightarrow> Element \<Rightarrow> Element \<Rightarrow> bool" where
  "GreaterEq L (StringE x) elem = stringElement_GreaterEq L x elem"
| "GreaterEq L (IntE x) elem = intElement_GreaterEq x elem"
| "GreaterEq L (FloatE x) elem = floatElement_GreaterEq L x elem"
| "GreaterEq L (BoolE x) elem = boolElement_GreaterEq x elem"

subsection \<open>Set\<close>

text \<open>The argument of \<open>Set\<close> is an \<open>interface{}\<close>: one of the four native kinds, an
  \<open>Element\<close>, \<open>nil\<close>, or a value of any other type. \<open>Set\<close> writes into the receiver:
  the model takes the element as it was and returns it as it is afterwards (a branch
  that returns early leaves the old payload in place).\<close>

datatype Value =
    VNil
  | VString string
  | VInt int
  | VFloat64 float64
  | VBool bool
  | VElement Element
  | VOther

fun stringElement_Set :: "extlib \<Rightarrow> stringElement \<Rightarrow> Value \<Rightarrow> stringElement" where
  "stringElement_Set L (stringElement e nan) (VString val) =
     (if val = ''NaN'' then stringElement val True else stringElement val False)"
| "stringElement_Set L (stringElement e nan) (VInt val) = stringElement (Itoa val) False"
| "stringElement_Set L (stringElement e nan) (VFloat64 val) = stringElement (FormatFloat L val) False"
| "stringElement_Set L (stringElement e nan) (VBool b) =
     (if b then stringElement ''true'' False else stringElement ''false'' False)"
| "stringElement_Set L (stringElement e nan) (VElement val) = stringElement (Elem_String L val) False"
| "stringElement_Set L (stringElement e nan) _ = stringElement e True"

fun intElement_Set :: "intElement \<Rightarrow> Value \<Rightarrow> intElement" where
  "intElement_Set (intElement e nan) (VString val) =
     (if val = ''NaN'' then intElement e True
      else case Atoi val of None \<Rightarrow> intElement e True | Some i \<Rightarrow> intElement i False)"
| "intElement_Set (intElement e nan) (VInt val) = intElement val False"
| "intElement_Set (intElement e nan) (VFloat64 f) =
     (if IsNaN f \<or> IsInf f \<or> f = PosInf then intElement e True
      else intElement (int_of_float64 f) False)"
| "intElement_Set (intElement e nan) (VBool b) =
     (if b then intElement 1 False else intElement 0 False)"
| "intElement_Set (intElement e nan) (VElement val) =
     (case Elem_Int val of None \<Rightarrow> intElement e True | Some v \<Rightarrow> intElement v False)"
| "intElement_Set (intElement e nan) _ = intElement e True"

fun floatElement_Set :: "extlib \<Rightarrow> floatElement \<Rightarrow> Value \<Rightarrow> floatElement" where
  "floatElement_Set L (floatElement e nan) (VString val) =
     (if val = ''NaN'' then floatElement e True
      else case ParseFloat L val of None \<Rightarrow> floatElement e True | Some f \<Rightarrow> floatElement f False)"
| "floatElement_Set L (floatElement e nan) (VInt val) = floatElement (float64_of_int val) False"
| "floatElement_Set L (floatElement e nan) (VFloat64 val) = floatElement val False"
| "floatElement_Set L (floatElement e nan) (VBool b) =
     (if b then floatElement (Fin 1) False else floatElement (Fin 0) False)"
| "floatElement_Set L (floatElement e nan) (VElement val) = floatElement (Elem_Float L val) False"
| "floatElement_Set L (floatElement e nan) _ = floatElement e True"

fun boolElement_Set :: "boolElement \<Rightarrow> Value \<Rightarrow> boolElement" where
  "boolElement_Set (boolElement e nan) (VString val) =
     (if val = ''NaN'' then boolElement e True
      else if ToLower val \<in> {''true'', ''t'', ''1''} then boolElement True False
      else if ToLower val \<in> {''false'', ''f'', ''0''} then boolElement False False
      else boolElement e True)"
| "boolElement_Set (boolElement e nan) (VInt val) =
     (if val = 1 then boolElement True False
      else if val = 0 then boolElement False False
      else boolElement e True)"
| "boolElement_Set (boolElement e nan) (VFloat64 val) =
     (if float_eq val (Fin 1) then boolElement True False
      else if float_eq val (Fin 0) then boolElement False False
      else boolElement e True)"
| "boolElement_Set (boolElement e nan) (VBool b) = boolElement b False"
| "boolElement_Set (boolElement e nan) (VElement val) =
     (case Elem_Bool val of None \<Rightarrow> boolElement e True | Some b \<Rightarrow> boolElement b False)"
| "boolElement_Set (boolElement e nan) _ = boolElement e True"

section \<open>Columns (series/series.go)\<close>

text \<open>Errors are values kept in the field \<open>Err\<close> of a column or table. The messages of
  the source are rendered as constructors.\<close>

datatype key_error = LeftKeyNotFound string | RightKeyNotFound string

datatype error =
    IndexDimensionMismatch
  | IndexHasErrors error
  | IndexContainsNaN
  | IndexConversionError
  | UnknownIndexingMode
  | SetArgumentHasErrors error
  | SetDimensionMismatch
  | SetIndexOutOfRange
  | ConcatArgumentHasErrors error
  | SliceIndexOutOfBounds
  | EmptyDataFrame
  | NoSeriesGiven
  | ErrorOnSeries nat error
  | DifferentDimensions
  | SetNamesDimensionMismatch
  | NoJoinKeys
  | JoinKeysNotFound "key_error list"

text \<open>The four typed slices behind the interface \<open>Elements\<close>.\<close>

datatype Elements =
    stringElements "stringElement list"
  | intElements "intElement list"
  | floatElements "floatElement list"
  | boolElements "boolElement list"

fun Elements_Len :: "Elements \<Rightarrow> nat" where
  "Elements_Len (stringElements xs) = length xs"
| "Elements_Len (intElements xs) = length xs"
| "Elements_Len (floatElements xs) = length xs"
| "Elements_Len (boolElements xs) = length xs"

text \<open>\<open>elems es\<close> lists \<open>es.Elem(0)\<close>, \<open>es.Elem(1)\<close>, ... as interface values.\<close>

fun elems :: "Elements \<Rightarrow> Element list" where
  "elems (stringElements xs) = map StringE xs"
| "elems (intElements xs) = map IntE xs"
| "elems (floatElements xs) = map FloatE xs"
| "elems (boolElements xs) = map BoolE xs"

fun Elements_Type :: "Elements \<Rightarrow> Type" where
  "Elements_Type (stringElements xs) = String_t"
| "Elements_Type (intElements xs) = Int_t"
| "Elements_Type (floatElements xs) = Float_t"
| "Elements_Type (boolElements xs) = Bool_t"

text \<open>The struct \<open>Series\<close>. Its field \<open>t\<close> is set together with \<open>elements\<close> by
  \<open>New\<close> and copied together with it everywhere, so it always names the dynamic type
  of \<open>elements\<close>: the model reads the type off the elements.\<close>

record Series =
  Name :: string
  elements :: Elements
  Err :: "error option"

definition Series_Type :: "Series \<Rightarrow> Type" where
  "Series_Type s = Elements_Type (elements s)"

definition Series_Len :: "Series \<Rightarrow> nat" where
  "Series_Len s = Elements_Len (elements s)"

text \<open>Go indexes a slice by an \<open>int\<close> and panics out of range: \<open>None\<close> is the panic.\<close>

definition index :: "'a list \<Rightarrow> int \<Rightarrow> 'a option" where
  "index xs i = (if 0 \<le> i \<and> i < int (length xs) then Some (xs ! nat i) else None)"

definition Series_Elem :: "Series \<Rightarrow> int \<Rightarrow> Element option" where
  "Series_Elem s i = index (elems (elements s)) i"

subsection \<open>New, Empty, Append, Concat\<close>

text \<open>The argument \<open>values\<close> of \<open>New\<close>: \<open>nil\<close>, one of the four native slices, a
  \<open>Series\<close>, any other slice (read by reflection), or a single value.\<close>

datatype Values =
    NilValues
  | StringSlice "string list"
  | Float64Slice "float64 list"
  | IntSlice "int list"
  | BoolSlice "bool list"
  | SeriesValues Series
  | OtherSlice "Value list"
  | Single Value

fun values_list :: "Values \<Rightarrow> Value list" where
  "values_list NilValues = [VNil]"
| "values_list (StringSlice v) = map VString v"
| "values_list (Float64Slice v) = map VFloat64 v"
| "values_list (IntSlice v) = map VInt v"
| "values_list (BoolSlice v) = map VBool v"
| "values_list (SeriesValues v) = map VElement (elems (elements v))"
| "values_list (OtherSlice v) = v"
| "values_list (Single val) = [val]"

text \<open>\<open>preAlloc(n)\<close> makes \<open>n\<close> zero elements of the kind \<open>t\<close>; the loop then calls
  \<open>Set\<close> on each with the value at its position.\<close>

fun set_all :: "extlib \<Rightarrow> Type \<Rightarrow> Value list \<Rightarrow> Elements" where
  "set_all L String_t vs = stringElements (map (stringElement_Set L (stringElement [] False)) vs)"
| "set_all L Int_t vs = intElements (map (intElement_Set (intElement 0 False)) vs)"
| "set_all L Float_t vs = floatElements (map (floatElement_Set L (floatElement (Fin 0) False)) vs)"
| "set_all L Bool_t vs = boolElements (map (boolElement_Set (boolElement False False)) vs)"

definition Series_New :: "extlib \<Rightarrow> Values \<Rightarrow> Type \<Rightarrow> string \<Rightarrow> Series" where
  "Series_New L values t name =
     \<lparr>Name = name, elements = set_all L t (values_list values), Err = None\<rparr>"

definition Empty :: "extlib \<Rightarrow> Series \<Rightarrow> Series" where
  "Empty L s = Series_New L (IntSlice []) (Series_Type s) (Name s)"

fun Elements_append :: "Elements \<Rightarrow> Elements \<Rightarrow> Elements" where
  "Elements_append (stringElements xs) (stringElements ys) = stringElements (xs @ ys)"
| "Elements_append (intElements xs) (intElements ys) = intElements (xs @ ys)"
| "Elements_append (floatElements xs) (floatElements ys) = floatElements (xs @ ys)"
| "Elements_append (boolElements xs) (boolElements ys) = boolElements (xs @ ys)"
| "Elements_append xs ys = xs"

text \<open>\<open>Append\<close> has a pointer receiver: the model returns the column as it is after the
  call. (The last equation of \<open>Elements_append\<close> is never reached: the new elements are
  made with the type of the receiver.)\<close>

definition Append :: "extlib \<Rightarrow> Series \<Rightarrow> Values \<Rightarrow> Series" where
  "Append L s values =
     (if Err s \<noteq> None then s
      else let news = Series_New L values (Series_Type s) (Name s)
           in s\<lparr>elements := Elements_append (elements s) (elements news)\<rparr>)"

definition Series_Copy :: "Series \<Rightarrow> Series" where
  "Series_Copy s = \<lparr>Name = Name s, elements = elements s, Err = Err s\<rparr>"

definition Concat :: "extlib \<Rightarrow> Series \<Rightarrow> Series \<Rightarrow> Series" where
  "Concat L s x =
     (if Err s \<noteq> None then s
      else case Err x of Some err \<Rightarrow> s\<lparr>Err := Some (ConcatArgumentHasErrors err)\<rparr>
           | None \<Rightarrow> Append L (Series_Copy s) (SeriesValues x))"

subsection \<open>Index parsing, Subset and Set\<close>

datatype Indexes =
    IdxInts "int list"
  | IdxInt int
  | IdxBools "bool list"
  | IdxSeries Series
  | IdxOther

definition HasNaN :: "Series \<Rightarrow> bool" where
  "HasNaN s = list_ex IsNA (elems (elements s))"

definition IsNaN_mask :: "Series \<Rightarrow> bool list" where
  "IsNaN_mask s = map IsNA (elems (elements s))"

definition Series_Int :: "Series \<Rightarrow> int list option" where
  "Series_Int s = those (map Elem_Int (elems (elements s)))"

definition Series_Bool :: "Series \<Rightarrow> bool list option" where
  "Series_Bool s = those (map Elem_Bool (elems (elements s)))"

definition parseBools :: "nat \<Rightarrow> bool list \<Rightarrow> error + int list" where
  "parseBools l bools =
     (if length bools \<noteq> l then Inl IndexDimensionMismatch
      else Inr (map (int \<circ> fst) (filter snd (zip [0..<length bools] bools))))"

fun parseIndexes :: "nat \<Rightarrow> Indexes \<Rightarrow> error + int list" where
  "parseIndexes l (IdxInts idxs) = Inr idxs"
| "parseIndexes l (IdxInt i) = Inr [i]"
| "parseIndexes l (IdxBools bools) = parseBools l bools"
| "parseIndexes l (IdxSeries s) =
     (case Err s of Some err \<Rightarrow> Inl (IndexHasErrors err)
      | None \<Rightarrow>
        if HasNaN s then Inl IndexContainsNaN
        else case Series_Type s of
               Int_t \<Rightarrow> (case Series_Int s of None \<Rightarrow> Inl IndexConversionError | Some is \<Rightarrow> Inr is)
             | Bool_t \<Rightarrow> (case Series_Bool s of None \<Rightarrow> Inl IndexConversionError
                          | Some bools \<Rightarrow> parseBools l bools)
             | _ \<Rightarrow> Inl UnknownIndexingMode)"
| "parseIndexes l IdxOther = Inl UnknownIndexingMode"

text \<open>\<open>Subset\<close> copies the elements at the given positions. Nothing checks the positions:
  one out of range panics (\<open>None\<close>).\<close>

fun pick :: "Elements \<Rightarrow> int list \<Rightarrow> Elements option" where
  "pick (stringElements xs) idx = map_option stringElements (those (map (index xs) idx))"
| "pick (intElements xs) idx = map_option intElements (those (map (index xs) idx))"
| "pick (floatElements xs) idx = map_option floatElements (those (map (index xs) idx))"
| "pick (boolElements xs) idx = map_option boolElements (those (map (index xs) idx))"

definition Subset :: "Series \<Rightarrow> Indexes \<Rightarrow> Series option" where
  "Subset s indexes =
     (if Err s \<noteq> None then Some s
      else case parseIndexes (Series_Len s) indexes of
             Inl err \<Rightarrow> Some (s\<lparr>Err := Some err\<rparr>)
           | Inr idx \<Rightarrow>
               map_option (\<lambda>es. \<lparr>Name = Name s, elements = es, Err = None\<rparr>)
                 (pick (elements s) idx))"

text \<open>\<open>Set\<close> has a value receiver, but the copy of the struct shares the backing array of
  \<open>elements\<close> with the caller's column: \<open>s.elements.Elem(i).Set(...)\<close> writes through
  it. The model returns the pair of the caller's column after the call (its \<open>Err\<close> as
  before, its elements as written) and the returned column. The new values are read
  from a column with a backing array of its own.\<close>

fun Elements_Set :: "extlib \<Rightarrow> Elements \<Rightarrow> nat \<Rightarrow> Value \<Rightarrow> Elements" where
  "Elements_Set L (stringElements xs) i v = stringElements (xs[i := stringElement_Set L (xs ! i) v])"
| "Elements_Set L (intElements xs) i v = intElements (xs[i := intElement_Set (xs ! i) v])"
| "Elements_Set L (floatElements xs) i v = floatElements (xs[i := floatElement_Set L (xs ! i) v])"
| "Elements_Set L (boolElements xs) i v = boolElements (xs[i := boolElement_Set (xs ! i) v])"

text \<open>The loop \<open>for k, i := range idx\<close>: the pairs are the index \<open>i\<close> and the new element
  \<open>newValue.elements.Elem(k)\<close> (the lengths are equal when the loop is reached). It
  stops at the first index out of range, with what it has written so far.\<close>

fun Set_loop :: "extlib \<Rightarrow> Elements \<Rightarrow> (int \<times> Element) list \<Rightarrow> Elements \<times> error option" where
  "Set_loop L es [] = (es, None)"
| "Set_loop L es ((i, new) # rest) =
     (if i < 0 \<or> i \<ge> int (Elements_Len es) then (es, Some SetIndexOutOfRange)
      else Set_loop L (Elements_Set L es (nat i) (VElement new)) rest)"

definition Series_Set :: "extlib \<Rightarrow> Series \<Rightarrow> Indexes \<Rightarrow> Series \<Rightarrow> Series \<times> Series" where
  "Series_Set L s indexes newValue =
     (if Err s \<noteq> None then (s, s)
      else case Err newValue of
        Some err \<Rightarrow> (s, s\<lparr>Err := Some (SetArgumentHasErrors err)\<rparr>)
      | None \<Rightarrow>
        (case parseIndexes (Series_Len s) indexes of
           Inl err \<Rightarrow> (s, s\<lparr>Err := Some err\<rparr>)
         | Inr idx \<Rightarrow>
             if length idx \<noteq> Series_Len newValue then (s, s\<lparr>Err := Some SetDimensionMismatch\<rparr>)
             else let (es, err) = Set_loop L (elements s) (zip idx (elems (elements newValue)))
                  in (s\<lparr>elements := es\<rparr>, s\<lparr>elements := es, Err := err\<rparr>)))"

subsection \<open>Order\<close>

text \<open>\<open>sort.Stable\<close> of Go's standard library sorts by the \<open>Less\<close> of its argument and
  keeps the original order of equal elements. It is modelled by the stable insertion
  sort (which \<open>sort.Stable\<close> itself runs on its blocks); \<open>sort.Reverse\<close> swaps the
  arguments of \<open>Less\<close>.\<close>

fun insert_stable :: "('a \<Rightarrow> 'a \<Rightarrow> bool) \<Rightarrow> 'a \<Rightarrow> 'a list \<Rightarrow> 'a list" where
  "insert_stable lt x [] = [x]"
| "insert_stable lt x (y # ys) =
     (if lt y x then y # insert_stable lt x ys else x # y # ys)"

definition sort_Stable :: "('a \<Rightarrow> 'a \<Rightarrow> bool) \<Rightarrow> 'a list \<Rightarrow> 'a list" where
  "sort_Stable lt xs = foldr (insert_stable lt) xs []"

definition sort_Reverse :: "('a \<Rightarrow> 'a \<Rightarrow> bool) \<Rightarrow> 'a \<Rightarrow> 'a \<Rightarrow> bool" where
  "sort_Reverse lt x y = lt y x"

text \<open>\<open>indexedElements.Less(i, j)\<close> compares the elements of two indexed elements.\<close>

definition indexedElements_Less :: "extlib \<Rightarrow> nat \<times> Element \<Rightarrow> nat \<times> Element \<Rightarrow> bool" where
  "indexedElements_Less L x y = Less L (snd x) (snd y)"

definition Order :: "extlib \<Rightarrow> Series \<Rightarrow> bool \<Rightarrow> int list" where
  "Order L s reverse =
     (let indexed = zip [0..<Series_Len s] (elems (elements s));
          ie = filter (\<lambda>x. \<not> IsNA (snd x)) indexed;
          nasIdx = map fst (filter (\<lambda>x. IsNA (snd x)) indexed);
          srt = (if reverse then sort_Reverse (indexedElements_Less L) else indexedElements_Less L)
      in map (int \<circ> fst) (sort_Stable srt ie) @ map int nasIdx)"

subsection \<open>Reductions\<close>

definition Series_Float :: "extlib \<Rightarrow> Series \<Rightarrow> float64 list" where
  "Series_Float L s = map (Elem_Float L) (elems (elements s))"

text \<open>gonum's \<open>stat.Mean(x, nil)\<close> is \<open>floats.Sum(x) / float64(len(x))\<close>, its
  \<open>stat.StdDev(x, nil)\<close> the square root of the corrected two-pass variance
  \<open>(ss - compensation * compensation / n) / (n - 1)\<close>, where \<open>ss\<close> sums the squares
  of the differences \<open>d = v - mean\<close> and \<open>compensation\<close> sums the differences.\<close>

definition floats_Sum :: "float64 list \<Rightarrow> float64" where
  "floats_Sum x = foldl fadd (Fin 0) x"

definition stat_Mean :: "float64 list \<Rightarrow> float64" where
  "stat_Mean x = fdiv (floats_Sum x) (float64_of_int (int (length x)))"

definition stat_StdDev :: "float64 list \<Rightarrow> float64" where
  "stat_StdDev x =
     (let mean = stat_Mean x;
          ss = foldl (\<lambda>acc v. fadd acc (fmul (fsub v mean) (fsub v mean))) (Fin 0) x;
          compensation = foldl (\<lambda>acc v. fadd acc (fsub v mean)) (Fin 0) x;
          n = float64_of_int (int (length x));
          unnormalised = fsub ss (fdiv (fmul compensation compensation) n)
      in fsqrt (fdiv unnormalised (float64_of_int (int (length x) - 1))))"

definition StdDev :: "extlib \<Rightarrow> Series \<Rightarrow> float64" where
  "StdDev L s = stat_StdDev (Series_Float L s)"

definition Mean :: "extlib \<Rightarrow> Series \<Rightarrow> float64" where
  "Mean L s = stat_Mean (Series_Float L s)"

text \<open>\<open>Median\<close> reads the elements at the positions \<open>Order\<close> returns (all in range).\<close>

definition Median :: "extlib \<Rightarrow> Series \<Rightarrow> float64" where
  "Median L s =
     (if Series_Len s = 0 \<or> Series_Type s = String_t \<or> Series_Type s = Bool_t then NaN
      else let ix = Order L s False;
               newElem = map (\<lambda>oldpos. elems (elements s) ! nat oldpos) ix
           in if length newElem mod 2 \<noteq> 0 then Elem_Float L (newElem ! (length newElem div 2))
              else fmul (fadd (Elem_Float L (newElem ! (length newElem div 2 - 1)))
                              (Elem_Float L (newElem ! (length newElem div 2))))
                        (Fin (1 / 2)))"

definition Sum :: "extlib \<Rightarrow> Series \<Rightarrow> float64" where
  "Sum L s =
     (if Series_Len s = 0 \<or> Series_Type s = String_t \<or> Series_Type s = Bool_t then NaN
      else let sFloat = Series_Float L s in foldl fadd (hd sFloat) (tl sFloat))"

text \<open>\<open>Quantile\<close> returns a \<open>float64\<close>; \<open>None\<close> is a panic of \<open>Subset\<close> or of gonum.\<close>

definition Quantile :: "extlib \<Rightarrow> Series \<Rightarrow> float64 \<Rightarrow> float64 option" where
  "Quantile L s p =
     (if Series_Type s = String_t \<or> Series_Len s = 0 then Some NaN
      else case Subset s (IdxInts (Order L s False)) of
             None \<Rightarrow> None
           | Some ordered \<Rightarrow> stat_Quantile L p (Series_Float L ordered))"

subsection \<open>Rolling window\<close>

record RollingWindow =
  window :: int
  series :: Series

definition Rolling :: "Series \<Rightarrow> int \<Rightarrow> RollingWindow" where
  "Rolling s w = \<lparr>window = w, series = s\<rparr>"

text \<open>\<open>getBlocks\<close>: for \<open>i = 1 .. Len\<close>, the empty column when \<open>i < window\<close>, else the
  subset at the positions \<open>i - window, ..., i - 1\<close>.\<close>

definition getBlocks :: "extlib \<Rightarrow> RollingWindow \<Rightarrow> Series list option" where
  "getBlocks L r =
     those (map (\<lambda>i. if i < window r then Some (Empty L (series r))
                     else Subset (series r) (IdxInts [i - window r .. i - 1]))
                [1 .. int (Series_Len (series r))])"

definition RollingWindow_Mean :: "extlib \<Rightarrow> RollingWindow \<Rightarrow> Series option" where
  "RollingWindow_Mean L r =
     map_option
       (foldl (\<lambda>s block. Append L s (Single (VFloat64 (Mean L block))))
              (Series_New L (Float64Slice []) Float_t ''Mean''))
       (getBlocks L r)"

definition RollingWindow_StdDev :: "extlib \<Rightarrow> RollingWindow \<Rightarrow> Series option" where
  "RollingWindow_StdDev L r =
     map_option
       (foldl (\<lambda>s block. Append L s (Single (VFloat64 (StdDev L block))))
              (Series_New L (Float64Slice []) Float_t ''StdDev''))
       (getBlocks L r)"

section \<open>Tables (package dataframe)\<close>

subsection \<open>The name-fixup pass\<close>

fun findInStringSlice :: "string \<Rightarrow> string list \<Rightarrow> int" where
  "findInStringSlice str [] = -1"
| "findInStringSlice str (e # s) =
     (if e = str then 0
      else let r = findInStringSlice str s in if r = -1 then -1 else r + 1)"

fun inIntSlice :: "int \<Rightarrow> int list \<Rightarrow> bool" where
  "inIntSlice i [] = False"
| "inIntSlice i (v # is) = (if v = i then True else inIntSlice i is)"

text \<open>The inner loop of \<open>fixColnames\<close>: from \<open>counter\<close> on, the first number whose
  proposed name \<open>prefix\<close> followed by the number is not among the column names. It
  terminates because the decimal rendering is injective and the names are finitely
  many.\<close>

function next_free :: "string \<Rightarrow> nat \<Rightarrow> string list \<Rightarrow> nat" where
  "next_free prefix counter colnames =
     (if findInStringSlice (prefix @ itoa_nat counter) colnames \<noteq> -1
      then next_free prefix (counter + 1) colnames
      else counter)"
  by pat_completeness auto
termination
proof (relation "measure (\<lambda>(p, c, cs). card {k. c \<le> k \<and> p @ itoa_nat k \<in> set cs})")
  show "wf (measure (\<lambda>(p, c, cs). card {k. c \<le> k \<and> p @ itoa_nat k \<in> set cs}))"
    by simp
next
  fix prefix :: string and counter :: nat and colnames :: "string list"
  assume found: "findInStringSlice (prefix @ itoa_nat counter) colnames \<noteq> - 1"
  have nonneg: "\<And>x xs. 0 \<le> findInStringSlice x xs \<or> findInStringSlice x xs = -1"
  proof -
    fix x :: string and xs show "0 \<le> findInStringSlice x xs \<or> findInStringSlice x xs = -1"
      by (induction xs) (auto simp: Let_def)
  qed
  have mem: "\<And>x xs. findInStringSlice x xs \<noteq> -1 \<Longrightarrow> x \<in> set xs"
  proof -
    fix x :: string and xs show "findInStringSlice x xs \<noteq> -1 \<Longrightarrow> x \<in> set xs"
      by (induction xs) (auto simp: Let_def split: if_splits)
  qed
  have dig: "\<And>a b. a < 10 \<Longrightarrow> b < 10 \<Longrightarrow> digit_char a = digit_char b \<Longrightarrow> a = b"
  proof -
    fix a b :: nat assume "a < 10" "b < 10" "digit_char a = digit_char b"
    then have "of_char (char_of (48 + a)) = (of_char (char_of (48 + b)) :: nat)"
      by (simp add: digit_char_def)
    with \<open>a < 10\<close> \<open>b < 10\<close> show "a = b" by simp
  qed
  have ne: "\<And>n. itoa_nat n \<noteq> []"
  proof -
    fix n show "itoa_nat n \<noteq> []" by (subst itoa_nat.simps) simp
  qed
  have inj: "\<And>m n. itoa_nat m = itoa_nat n \<Longrightarrow> m = n"
  proof -
    fix m n show "itoa_nat m = itoa_nat n \<Longrightarrow> m = n"
    proof (induction m arbitrary: n rule: itoa_nat.induct)
      case (1 m)
      show ?case
      proof (cases "m < 10")
        case True
        show ?thesis
        proof (cases "n < 10")
          case True
          with \<open>m < 10\<close> "1.prems" show ?thesis
            by (subst (asm) itoa_nat.simps, subst (asm) (2) itoa_nat.simps) (simp add: dig)
        next
          case False
          with \<open>m < 10\<close> "1.prems" ne[of "n div 10"] show ?thesis
            by (subst (asm) itoa_nat.simps, subst (asm) (2) itoa_nat.simps) simp
        qed
      next
        case False
        show ?thesis
        proof (cases "n < 10")
          case True
          with \<open>\<not> m < 10\<close> "1.prems" ne[of "m div 10"] show ?thesis
            by (subst (asm) itoa_nat.simps, subst (asm) (2) itoa_nat.simps) simp
        next
          case n: False
          from False n "1.prems"
          have eq: "itoa_nat (m div 10) @ [digit_char (m mod 10)] = itoa_nat (n div 10) @ [digit_char (n mod 10)]"
            by (subst (asm) itoa_nat.simps, subst (asm) (2) itoa_nat.simps) simp
          then have "itoa_nat (m div 10) = itoa_nat (n div 10)" and d: "digit_char (m mod 10) = digit_char (n mod 10)"
            by simp_all
          with "1.IH"[OF False] have "m div 10 = n div 10" by blast
          moreover from d have "m mod 10 = n mod 10" by (intro dig) simp_all
          ultimately show ?thesis by (metis div_mult_mod_eq)
        qed
      qed
    qed
  qed
  let ?S = "\<lambda>c. {k. c \<le> k \<and> prefix @ itoa_nat k \<in> set colnames}"
  have "inj (\<lambda>k. prefix @ itoa_nat k)"
    by (rule injI) (simp add: inj)
  then have "finite ((\<lambda>k. prefix @ itoa_nat k) -` set colnames)"
    by (intro finite_vimageI) simp_all
  then have fin: "finite (?S counter)"
    by (rule rev_finite_subset) auto
  from mem[OF found] have "counter \<in> ?S counter" by simp
  moreover have "counter \<notin> ?S (counter + 1)" by simp
  moreover have "?S (counter + 1) \<subseteq> ?S counter" by auto
  ultimately have "?S (counter + 1) \<subset> ?S counter" by blast
  with fin have "card (?S (counter + 1)) < card (?S counter)"
    by (rule psubset_card_mono)
  then show "((prefix, counter + 1, colnames), (prefix, counter, colnames))
       \<in> measure (\<lambda>(p, c, cs). card {k. c \<le> k \<and> p @ itoa_nat k \<in> set cs})"
    by simp
qed

declare next_free.simps [simp del]

text \<open>The loop over the places of one group: each place gets the next free proposed
  name, and the counter moves past it.\<close>

fun fix_places :: "string \<Rightarrow> nat list \<Rightarrow> nat \<Rightarrow> string list \<Rightarrow> string list" where
  "fix_places prefix [] counter colnames = colnames"
| "fix_places prefix (i # places) counter colnames =
     (let c = next_free prefix counter colnames
      in fix_places prefix places (c + 1) (colnames[i := prefix @ itoa_nat c]))"

text \<open>The first loop of \<open>fixColnames\<close> collects the places of the empty names and, in the
  map \<open>dupnamesidx\<close>, the places of every other name; the names with fewer than two
  places are then deleted from the map, and its keys are sorted.\<close>

definition missingnames :: "string list \<Rightarrow> nat list" where
  "missingnames colnames = filter (\<lambda>i. colnames ! i = []) [0..<length colnames]"

definition dupnamesidx :: "string list \<Rightarrow> string \<Rightarrow> nat list" where
  "dupnamesidx colnames a = filter (\<lambda>i. colnames ! i = a) [0..<length colnames]"

definition dupkeys :: "string list \<Rightarrow> string list" where
  "dupkeys colnames =
     sort (remdups (filter (\<lambda>a. a \<noteq> [] \<and> 2 \<le> length (dupnamesidx colnames a)) colnames))"

definition fixColnames :: "string list \<Rightarrow> string list" where
  "fixColnames colnames =
     (let fixed = fix_places ''X'' (missingnames colnames) 0 colnames
      in foldl (\<lambda>cs name. fix_places ((if name = [] then ''X'' else name) @ ''_'')
                              (dupnamesidx colnames name) 0 cs)
               fixed (dupkeys colnames))"

subsection \<open>The table\<close>

text \<open>The struct \<open>DataFrame\<close>; its field \<open>Err\<close> is \<open>dfErr\<close> here. The fields are private
  to the package, and every function that builds a table sets \<open>ncols\<close> to the number of
  its columns.\<close>

record DataFrame =
  columns :: "Series list"
  ncols :: int
  nrows :: int
  dfErr :: "error option"

definition error_DataFrame :: "error \<Rightarrow> DataFrame" where
  "error_DataFrame err = \<lparr>columns = [], ncols = 0, nrows = 0, dfErr = Some err\<rparr>"

fun check_rows :: "nat \<Rightarrow> int \<Rightarrow> Series list \<Rightarrow> error + int" where
  "check_rows i n [] = Inr n"
| "check_rows i n (s # se) =
     (case Err s of
        Some err \<Rightarrow> Inl (ErrorOnSeries i err)
      | None \<Rightarrow>
          let n' = (if n = -1 then int (Series_Len s) else n)
          in if n' \<noteq> int (Series_Len s) then Inl DifferentDimensions
             else check_rows (i + 1) n' se)"

definition checkColumnsDimensions :: "Series list \<Rightarrow> error + (int \<times> int)" where
  "checkColumnsDimensions se =
     (if se = [] then Inl NoSeriesGiven
      else case check_rows 0 (-1) se of
             Inl err \<Rightarrow> Inl err
           | Inr n \<Rightarrow> Inr (n, int (length se)))"

definition Names :: "DataFrame \<Rightarrow> string list" where
  "Names df = map Name (columns df)"

definition rename_columns :: "Series list \<Rightarrow> string list \<Rightarrow> Series list" where
  "rename_columns cols colnames = map (\<lambda>(c, n). c\<lparr>Name := n\<rparr>) (zip cols colnames)"

definition DataFrame_New :: "Series list \<Rightarrow> DataFrame" where
  "DataFrame_New se =
     (if se = [] then error_DataFrame EmptyDataFrame
      else let cols = map Series_Copy se
           in case checkColumnsDimensions cols of
                Inl err \<Rightarrow> error_DataFrame err
              | Inr (n, m) \<Rightarrow>
                  let df = \<lparr>columns = cols, ncols = m, nrows = n, dfErr = None\<rparr>;
                      colnames = fixColnames (Names df)
                  in df\<lparr>columns := rename_columns (columns df) colnames\<rparr>)"

text \<open>\<open>SetNames\<close> returns an error and writes the names through the backing array of
  \<open>columns\<close>, which the receiver's copy shares with the caller's table: the model
  returns the error and the caller's table after the call.\<close>

definition SetNames :: "DataFrame \<Rightarrow> string list \<Rightarrow> error option \<times> DataFrame" where
  "SetNames df colnames =
     (case dfErr df of
        Some err \<Rightarrow> (Some err, df)
      | None \<Rightarrow>
          if int (length colnames) \<noteq> ncols df then (Some SetNamesDimensionMismatch, df)
          else (None, df\<lparr>columns := rename_columns (columns df) colnames\<rparr>))"

subsection \<open>Joins\<close>

text \<open>A join returns a table; \<open>None\<close> is a panic (a read out of range), which no table
  built by \<open>DataFrame_New\<close> causes.\<close>

definition colIndex :: "DataFrame \<Rightarrow> string \<Rightarrow> int" where
  "colIndex df s = findInStringSlice s (Names df)"

definition key_errors :: "DataFrame \<Rightarrow> DataFrame \<Rightarrow> string list \<Rightarrow> key_error list" where
  "key_errors df b keys =
     concat (map (\<lambda>key. (if colIndex df key < 0 then [LeftKeyNotFound key] else []) @
                         (if colIndex b key < 0 then [RightKeyNotFound key] else [])) keys)"

text \<open>What the joins compute before the row scan: the columns of both tables and the
  positions of the key and non-key columns.\<close>

record join_ctx =
  aCols :: "Series list"
  bCols :: "Series list"
  iKeysA :: "int list"
  iKeysB :: "int list"
  iNotKeysA :: "int list"
  iNotKeysB :: "int list"

definition join_context :: "DataFrame \<Rightarrow> DataFrame \<Rightarrow> string list \<Rightarrow> join_ctx" where
  "join_context df b keys =
     \<lparr>aCols = columns df, bCols = columns b,
      iKeysA = map (colIndex df) keys,
      iKeysB = map (colIndex b) keys,
      iNotKeysA = filter (\<lambda>i. \<not> inIntSlice i (map (colIndex df) keys)) [0 .. ncols df - 1],
      iNotKeysB = filter (\<lambda>i. \<not> inIntSlice i (map (colIndex b) keys)) [0 .. ncols b - 1]\<rparr>"

text \<open>\<open>cols[k].Empty()\<close> for each \<open>k\<close> of a list of positions, and \<open>cols[k].Elem(i)\<close>
  for each \<open>k\<close> of a list of positions.\<close>

definition empties :: "extlib \<Rightarrow> Series list \<Rightarrow> int list \<Rightarrow> Series list option" where
  "empties L cols ks = those (map (\<lambda>k. map_option (Empty L) (index cols k)) ks)"

definition read_cells :: "Series list \<Rightarrow> int list \<Rightarrow> int \<Rightarrow> Element list option" where
  "read_cells cols ks i =
     those (map (\<lambda>k. case index cols k of None \<Rightarrow> None | Some c \<Rightarrow> Series_Elem c i) ks)"

definition new_columns :: "extlib \<Rightarrow> join_ctx \<Rightarrow> Series list option" where
  "new_columns L ctx =
     (case empties L (aCols ctx) (iKeysA ctx @ iNotKeysA ctx) of
        None \<Rightarrow> None
      | Some xs \<Rightarrow> map_option (\<lambda>ys. xs @ ys) (empties L (bCols ctx) (iNotKeysB ctx)))"

text \<open>Rows \<open>i\<close> of the left and \<open>j\<close> of the right table match when \<open>Eq\<close> holds for every
  pair of key columns.\<close>

definition row_match :: "extlib \<Rightarrow> join_ctx \<Rightarrow> int \<Rightarrow> int \<Rightarrow> bool option" where
  "row_match L ctx i j =
     (case read_cells (aCols ctx) (iKeysA ctx) i of
        None \<Rightarrow> None
      | Some xs \<Rightarrow>
          (case read_cells (bCols ctx) (iKeysB ctx) j of
             None \<Rightarrow> None
           | Some ys \<Rightarrow> Some (list_all (\<lambda>(a, b). Eq L a b) (zip xs ys))))"

text \<open>The three kinds of output row: the cells appended to the new columns, in column
  order. \<open>Append(nil)\<close> pads.\<close>

definition cells :: "Element list \<Rightarrow> Values list" where
  "cells xs = map (\<lambda>e. Single (VElement e)) xs"

definition matched_row :: "join_ctx \<Rightarrow> int \<Rightarrow> int \<Rightarrow> Values list option" where
  "matched_row ctx i j =
     (case read_cells (aCols ctx) (iKeysA ctx @ iNotKeysA ctx) i of
        None \<Rightarrow> None
      | Some xs \<Rightarrow> map_option (\<lambda>ys. cells xs @ cells ys) (read_cells (bCols ctx) (iNotKeysB ctx) j))"

definition left_only_row :: "join_ctx \<Rightarrow> int \<Rightarrow> Values list option" where
  "left_only_row ctx i =
     map_option (\<lambda>xs. cells xs @ replicate (length (iNotKeysB ctx)) NilValues)
       (read_cells (aCols ctx) (iKeysA ctx @ iNotKeysA ctx) i)"

definition right_only_row :: "join_ctx \<Rightarrow> int \<Rightarrow> Values list option" where
  "right_only_row ctx j =
     (case read_cells (bCols ctx) (iKeysB ctx) j of
        None \<Rightarrow> None
      | Some ks \<Rightarrow>
          map_option (\<lambda>ys. cells ks @ replicate (length (iNotKeysA ctx)) NilValues @ cells ys)
            (read_cells (bCols ctx) (iNotKeysB ctx) j))"

text \<open>\<open>newCols[ii].Append(cell)\<close> for \<open>ii = 0, 1, ...\<close>: a row has as many cells as
  there are new columns.\<close>

fun append_cells :: "extlib \<Rightarrow> Series list \<Rightarrow> Values list \<Rightarrow> Series list" where
  "append_cells L (c # cols) (v # vals) = Append L c v # append_cells L cols vals"
| "append_cells L cols [] = cols"
| "append_cells L [] vals = []"

text \<open>The inner loop shared by the inner, left and outer join: left row \<open>i\<close> against every
  right row \<open>j\<close>, appending a row for every match and recording whether there was one.\<close>

fun join_scan ::
  "extlib \<Rightarrow> join_ctx \<Rightarrow> int \<Rightarrow> int list \<Rightarrow> Series list \<times> bool \<Rightarrow> (Series list \<times> bool) option" where
  "join_scan L ctx i [] st = Some st"
| "join_scan L ctx i (j # js) (cols, matched) =
     (case row_match L ctx i j of
        None \<Rightarrow> None
      | Some m \<Rightarrow>
          if m then (case matched_row ctx i j of
                       None \<Rightarrow> None
                     | Some vals \<Rightarrow> join_scan L ctx i js (append_cells L cols vals, True))
          else join_scan L ctx i js (cols, matched))"

text \<open>A loop whose body may panic.\<close>

fun for_each :: "('a \<Rightarrow> 's \<Rightarrow> 's option) \<Rightarrow> 'a list \<Rightarrow> 's \<Rightarrow> 's option" where
  "for_each body [] st = Some st"
| "for_each body (x # xs) st = (case body x st of None \<Rightarrow> None | Some st' \<Rightarrow> for_each body xs st')"

definition InnerJoin_row :: "extlib \<Rightarrow> join_ctx \<Rightarrow> int \<Rightarrow> int \<Rightarrow> Series list \<Rightarrow> Series list option" where
  "InnerJoin_row L ctx nrowsB i cols =
     map_option fst (join_scan L ctx i [0 .. nrowsB - 1] (cols, False))"

definition LeftJoin_row :: "extlib \<Rightarrow> join_ctx \<Rightarrow> int \<Rightarrow> int \<Rightarrow> Series list \<Rightarrow> Series list option" where
  "LeftJoin_row L ctx nrowsB i cols =
     (case join_scan L ctx i [0 .. nrowsB - 1] (cols, False) of
        None \<Rightarrow> None
      | Some (cols', matched) \<Rightarrow>
          if matched then Some cols'
          else map_option (append_cells L cols') (left_only_row ctx i))"

text \<open>The second loop of the outer join: right row \<open>j\<close> against every left row; a padded
  row when none matches.\<close>

definition OuterJoin_right_row :: "extlib \<Rightarrow> join_ctx \<Rightarrow> int \<Rightarrow> int \<Rightarrow> Series list \<Rightarrow> Series list option" where
  "OuterJoin_right_row L ctx nrowsA j cols =
     (case those (map (\<lambda>i. row_match L ctx i j) [0 .. nrowsA - 1]) of
        None \<Rightarrow> None
      | Some ms \<Rightarrow>
          if list_ex (\<lambda>m. m) ms then Some cols
          else map_option (append_cells L cols) (right_only_row ctx j))"

definition InnerJoin :: "extlib \<Rightarrow> DataFrame \<Rightarrow> DataFrame \<Rightarrow> string list \<Rightarrow> DataFrame option" where
  "InnerJoin L df b keys =
     (if keys = [] then Some (error_DataFrame NoJoinKeys)
      else if key_errors df b keys \<noteq> [] then Some (error_DataFrame (JoinKeysNotFound (key_errors df b keys)))
      else let ctx = join_context df b keys
           in case new_columns L ctx of
                None \<Rightarrow> None
              | Some newCols \<Rightarrow>
                  map_option DataFrame_New
                    (for_each (InnerJoin_row L ctx (nrows b)) [0 .. nrows df - 1] newCols))"

definition LeftJoin :: "extlib \<Rightarrow> DataFrame \<Rightarrow> DataFrame \<Rightarrow> string list \<Rightarrow> DataFrame option" where
  "LeftJoin L df b keys =
     (if keys = [] then Some (error_DataFrame NoJoinKeys)
      else if key_errors df b keys \<noteq> [] then Some (error_DataFrame (JoinKeysNotFound (key_errors df b keys)))
      else let ctx = join_context df b keys
           in case new_columns L ctx of
                None \<Rightarrow> None
              | Some newCols \<Rightarrow>
                  map_option DataFrame_New
                    (for_each (LeftJoin_row L ctx (nrows b)) [0 .. nrows df - 1] newCols))"

definition OuterJoin :: "extlib \<Rightarrow> DataFrame \<Rightarrow> DataFrame \<Rightarrow> string list \<Rightarrow> DataFrame option" where
  "OuterJoin L df b keys =
     (if keys = [] then Some (error_DataFrame NoJoinKeys)
      else if key_errors df b keys \<noteq> [] then Some (error_DataFrame (JoinKeysNotFound (key_errors df b keys)))
      else let ctx = join_context df b keys
           in case new_columns L ctx of
                None \<Rightarrow> None
              | Some newCols \<Rightarrow>
                  (case for_each (LeftJoin_row L ctx (nrows b)) [0 .. nrows df - 1] newCols of
                     None \<Rightarrow> None
                   | Some cols \<Rightarrow>
                       map_option DataFrame_New
                         (for_each (OuterJoin_right_row L ctx (nrows df)) [0 .. nrows b - 1] cols)))"

text \<open>\<open>CrossJoin\<close>: every left row with every right row, all columns of both tables.\<close>

definition CrossJoin_row :: "extlib \<Rightarrow> DataFrame \<Rightarrow> DataFrame \<Rightarrow> int \<times> int \<Rightarrow> Series list \<Rightarrow> Series list option" where
  "CrossJoin_row L df b ij cols =
     (case read_cells (columns df) [0 .. ncols df - 1] (fst ij) of
        None \<Rightarrow> None
      | Some xs \<Rightarrow>
          map_option (\<lambda>ys. append_cells L cols (cells xs @ cells ys))
            (read_cells (columns b) [0 .. ncols b - 1] (snd ij)))"

definition CrossJoin :: "extlib \<Rightarrow> DataFrame \<Rightarrow> DataFrame \<Rightarrow> DataFrame option" where
  "CrossJoin L df b =
     (case empties L (columns df) [0 .. ncols df - 1] of
        None \<Rightarrow> None
      | Some xs \<Rightarrow>
          (case empties L (columns b) [0 .. ncols b - 1] of
             None \<Rightarrow> None
           | Some ys \<Rightarrow>
               map_option DataFrame_New
                 (for_each (CrossJoin_row L df b)
                    (concat (map (\<lambda>i. map (\<lambda>j. (i, j)) [0 .. nrows b - 1]) [0 .. nrows df - 1]))
                    (xs @ ys))))"

text \<open>One instance of the library record, for closed witnesses. What is proved with it
  at a concrete input uses only that \<open>strconv.ParseFloat\<close> reads the text \<open>2\<close> as the
  number 2.\<close>

definition lib0 :: extlib where
  "lib0 = \<lparr>ParseFloat = (\<lambda>s. if s = ''2'' then Some (Fin 2) else None),
           FormatFloat = (\<lambda>f. []), Sprintf_f = (\<lambda>f. []), stat_Quantile = (\<lambda>p x. None)\<rparr>"

text \<open>A name is unique at a position when no other position holds it.\<close>

definition uniq :: "string list \<Rightarrow> nat \<Rightarrow> bool" where
  "uniq cs i = (\<forall>j<length cs. j \<noteq> i \<longrightarrow> cs ! j \<noteq> cs ! i)"

text \<open>The tables of the join scenario: left \<open>{id: [1, 2], v: ["a", "b"]}\<close> and right
  \<open>{id: [2, 3], w: ["x", "y"]}\<close>.\<close>

definition left_df :: "extlib \<Rightarrow> DataFrame" where
  "left_df L = DataFrame_New [Series_New L (IntSlice [1, 2]) Int_t ''id'',
                              Series_New L (StringSlice [''a'', ''b'']) String_t ''v'']"

definition right_df :: "extlib \<Rightarrow> DataFrame" where
  "right_df L = DataFrame_New [Series_New L (IntSlice [2, 3]) Int_t ''id'',
                               Series_New L (StringSlice [''x'', ''y'']) String_t ''w'']"

subsection \<open>The left join, row by row\<close>

text \<open>The left join as its description reads, to be compared with \<open>LeftJoin\<close> above. The
  cell of column \<open>k\<close> in row \<open>i\<close>; a table is well formed when \<open>ncols\<close> counts its columns and
  every column has \<open>nrows\<close> elements (every table built by \<open>New\<close> is).\<close>

definition cell :: "Series list \<Rightarrow> int \<Rightarrow> int \<Rightarrow> Element" where
  "cell cols k i = elems (elements (cols ! nat k)) ! nat i"

definition well_formed :: "DataFrame \<Rightarrow> bool" where
  "well_formed df =
     (ncols df = int (length (columns df)) \<and>
      list_all (\<lambda>c. int (Series_Len c) = nrows df) (columns df))"

text \<open>Two tables can be joined on \<open>keys\<close> when there is a key and every key names a column
  of both.\<close>

definition joinable :: "DataFrame \<Rightarrow> DataFrame \<Rightarrow> string list \<Rightarrow> bool" where
  "joinable df b keys =
     (well_formed df \<and> well_formed b \<and> keys \<noteq> [] \<and>
      list_all (\<lambda>key. key \<in> set (Names df) \<and> key \<in> set (Names b)) keys)"

text \<open>The key columns in the order of the keys, then the other columns in table order.\<close>

definition key_cols :: "DataFrame \<Rightarrow> string list \<Rightarrow> int list" where
  "key_cols df keys = map (colIndex df) keys"

definition nonkey_cols :: "DataFrame \<Rightarrow> string list \<Rightarrow> int list" where
  "nonkey_cols df keys = filter (\<lambda>k. k \<notin> set (key_cols df keys)) [0 .. ncols df - 1]"

text \<open>Left row \<open>i\<close> matches right row \<open>j\<close> when they are equal on every key;
  \<open>matching_rows\<close> lists the right rows that match left row \<open>i\<close>, in order.\<close>

definition rows_match :: "extlib \<Rightarrow> DataFrame \<Rightarrow> DataFrame \<Rightarrow> string list \<Rightarrow> int \<Rightarrow> int \<Rightarrow> bool" where
  "rows_match L df b keys i j =
     list_all (\<lambda>key. Eq L (cell (columns df) (colIndex df key) i)
                          (cell (columns b) (colIndex b key) j)) keys"

definition matching_rows :: "extlib \<Rightarrow> DataFrame \<Rightarrow> DataFrame \<Rightarrow> string list \<Rightarrow> int \<Rightarrow> int list" where
  "matching_rows L df b keys i = filter (rows_match L df b keys i) [0 .. nrows b - 1]"

definition left_cells :: "DataFrame \<Rightarrow> string list \<Rightarrow> int \<Rightarrow> Element list" where
  "left_cells df keys i = map (\<lambda>k. cell (columns df) k i) (key_cols df keys @ nonkey_cols df keys)"

definition right_cells :: "DataFrame \<Rightarrow> string list \<Rightarrow> int \<Rightarrow> Element list" where
  "right_cells b keys j = map (\<lambda>k. cell (columns b) k j) (nonkey_cols b keys)"

text \<open>The output rows of left row \<open>i\<close>: one for every matching right row (the left cells,
  then the right non-key cells), and when no right row matches exactly one, the left cells
  followed by \<open>nil\<close> for every right non-key column.\<close>

definition LeftJoin_rows :: "extlib \<Rightarrow> DataFrame \<Rightarrow> DataFrame \<Rightarrow> string list \<Rightarrow> int \<Rightarrow> Values list list" where
  "LeftJoin_rows L df b keys i =
     (let ms = matching_rows L df b keys i
      in if ms = [] then [cells (left_cells df keys i) @ replicate (length (nonkey_cols b keys)) NilValues]
         else map (\<lambda>j. cells (left_cells df keys i) @ cells (right_cells b keys j)) ms)"

text \<open>The result: the empty copies of the output columns, with the output rows of the left
  rows \<open>0, 1, ...\<close> appended in this order. \<open>rows_before i\<close> is the number of output rows of
  the left rows before row \<open>i\<close>, that is the position of the first output row of row \<open>i\<close>.\<close>

definition join_columns :: "extlib \<Rightarrow> DataFrame \<Rightarrow> DataFrame \<Rightarrow> string list \<Rightarrow> Series list" where
  "join_columns L df b keys =
     map (\<lambda>k. Empty L (columns df ! nat k)) (key_cols df keys @ nonkey_cols df keys) @
     map (\<lambda>k. Empty L (columns b ! nat k)) (nonkey_cols b keys)"

definition LeftJoin_spec :: "extlib \<Rightarrow> DataFrame \<Rightarrow> DataFrame \<Rightarrow> string list \<Rightarrow> DataFrame" where
  "LeftJoin_spec L df b keys =
     DataFrame_New (foldl (append_cells L) (join_columns L df b keys)
                      (concat (map (LeftJoin_rows L df b keys) [0 .. nrows df - 1])))"

definition rows_before :: "extlib \<Rightarrow> DataFrame \<Rightarrow> DataFrame \<Rightarrow> string list \<Rightarrow> int \<Rightarrow> nat" where
  "rows_before L df b keys i =
     sum_list (map (\<lambda>i'. max 1 (length (matching_rows L df b keys i'))) [0 .. i - 1])"

subsection \<open>The numbers of the synthesized names\<close>

text \<open>\<open>free_numbers p names\<close> lists in increasing order the numbers \<open>k\<close> for which \<open>p\<close>
  followed by \<open>k\<close> is not one of the names; the candidates below twice the number of names
  are more than are ever needed.\<close>

definition free_numbers :: "string \<Rightarrow> string list \<Rightarrow> nat list" where
  "free_numbers p names = filter (\<lambda>k. p @ itoa_nat k \<notin> set names) [0 ..< 2 * length names]"

text \<open>The columns of the naming scenario: two columns without name, two named \<open>a\<close> and one
  named \<open>X0\<close>.\<close>

definition name_scenario :: "extlib \<Rightarrow> Series list" where
  "name_scenario L = [Series_New L (IntSlice [1]) Int_t [], Series_New L (IntSlice [2]) Int_t [],
                      Series_New L (IntSlice [3]) Int_t ''a'', Series_New L (IntSlice [4]) Int_t ''a'',
                      Series_New L (IntSlice [5]) Int_t ''X0'']"

section \<open>Comparisons and missing values\<close>

text \<open>A missing right-hand element has no \<open>Int\<close> and no \<open>Bool\<close>, and its \<open>Float\<close> is NaN.\<close>

lemma IsNA_Elem_Int: "IsNA b \<Longrightarrow> Elem_Int b = None"
proof (cases b)
  case (StringE x) assume "IsNA b" with StringE show ?thesis by (cases x) simp
next
  case (IntE x) assume "IsNA b" with IntE show ?thesis by (cases x) simp
next
  case (FloatE x) assume "IsNA b" with FloatE show ?thesis by (cases x) (auto split: if_splits)
next
  case (BoolE x) assume "IsNA b" with BoolE show ?thesis by (cases x) simp
qed

lemma IsNA_Elem_Bool: "IsNA b \<Longrightarrow> Elem_Bool b = None"
proof (cases b)
  case (StringE x) assume "IsNA b" with StringE show ?thesis by (cases x) simp
next
  case (IntE x) assume "IsNA b" with IntE show ?thesis by (cases x) simp
next
  case (FloatE x) assume "IsNA b" with FloatE show ?thesis by (cases x) (auto split: if_splits)
next
  case (BoolE x) assume "IsNA b" with BoolE show ?thesis by (cases x) simp
qed

lemma IsNA_Elem_Float: "IsNA b \<Longrightarrow> IsNaN (Elem_Float L b)"
proof (cases b)
  case (StringE x) assume "IsNA b" with StringE show ?thesis by (cases x) simp
next
  case (IntE x) assume "IsNA b" with IntE show ?thesis by (cases x) simp
next
  case (FloatE x) assume "IsNA b" with FloatE show ?thesis by (cases x) (auto split: if_splits)
next
  case (BoolE x) assume "IsNA b" with BoolE show ?thesis by (cases x) simp
qed

text \<open>
  Claim C2. For every pair of elements \<open>a\<close>, \<open>b\<close> (of any kinds) of which at least one is
  missing, each of the six comparisons \<open>Eq\<close>, \<open>Neq\<close>, \<open>Less\<close>, \<open>LessEq\<close>, \<open>Greater\<close>,
  \<open>GreaterEq\<close> of \<open>a\<close> against \<open>b\<close> is false. (The comparison reads \<open>b\<close> through the
  accessor of the kind of \<open>a\<close>, which is the coercion.)
\<close>

theorem comparisons_false_on_missing:
  "IsNA a \<or> IsNA b \<Longrightarrow>
     \<not> Eq L a b \<and> \<not> Neq L a b \<and> \<not> Less L a b \<and> \<not> LessEq L a b \<and>
     \<not> Greater L a b \<and> \<not> GreaterEq L a b"
proof (cases a)
  case (StringE x)
  assume "IsNA a \<or> IsNA b"
  with StringE show ?thesis by (cases x) auto
next
  case (IntE x)
  assume "IsNA a \<or> IsNA b"
  with IntE show ?thesis by (cases x) (auto simp: IsNA_Elem_Int split: option.splits)
next
  case (FloatE x)
  assume "IsNA a \<or> IsNA b"
  with FloatE show ?thesis by (cases x) (auto simp: IsNA_Elem_Float Let_def)
next
  case (BoolE x)
  assume "IsNA a \<or> IsNA b"
  with BoolE show ?thesis by (cases x) (auto simp: IsNA_Elem_Bool split: option.splits)
qed

theorem comparisons_false_on_missing_witness:
  "(IsNA (IntE (intElement 3 False)) \<or> IsNA (FloatE (floatElement NaN False))) \<and>
   \<not> Neq lib0 (IntE (intElement 3 False)) (FloatE (floatElement NaN False))"
  using comparisons_false_on_missing[of "IntE (intElement 3 False)" "FloatE (floatElement NaN False)"
     lib0]
  by simp

lemma float_NaN_payload_reachable:
  "floatElement_Set L (floatElement (Fin 0) False) (VFloat64 NaN) = floatElement NaN False"
  by simp

text \<open>
  Claim C4, as amended. Whether an element is missing is its flag \<open>nan\<close> for the text,
  integer and boolean kinds: an integer \<open>0\<close> or a boolean \<open>false\<close> that is not flagged is
  not missing. For the real kind it is the flag or a NaN payload: a real element whose
  payload is NaN is missing also when it is not flagged.
\<close>

theorem IsNA_by_kind:
  "IsNA (StringE (stringElement s n)) = n \<and>
   IsNA (IntE (intElement i n)) = n \<and>
   IsNA (BoolE (boolElement b n)) = n \<and>
   IsNA (FloatE (floatElement f n)) = (n \<or> IsNaN f) \<and>
   IsNA (IntE (intElement 0 False)) = False \<and>
   IsNA (BoolE (boolElement False False)) = False"
  by simp

text \<open>The claim as stated fails for the real kind: the element that \<open>Set\<close> makes from the
  \<open>float64\<close> NaN is not flagged, and \<open>IsNA\<close> reports it missing.\<close>

theorem IsNA_float_NaN_payload_counterexample:
  "IsNA (FloatE (floatElement NaN False))"
  by simp

section \<open>Sticky errors\<close>

text \<open>The column operations return at once on a column that carries an error.\<close>

lemma Subset_sticky: "Err s \<noteq> None \<Longrightarrow> Subset s indexes = Some s"
  by (simp add: Subset_def)

lemma Append_sticky: "Err s \<noteq> None \<Longrightarrow> Append L s values = s"
  by (simp add: Append_def)

lemma Series_Set_sticky: "Err s \<noteq> None \<Longrightarrow> Series_Set L s indexes newValue = (s, s)"
  by (simp add: Series_Set_def)

lemma SetNames_sticky: "dfErr df = Some err \<Longrightarrow> SetNames df colnames = (Some err, df)"
  by (simp add: SetNames_def)

text \<open>
  Claim C1 (the code departs from it). The claim: an operation on a table that carries an
  error returns that error and does no work. \<open>CrossJoin\<close> has no such check: on the table
  \<open>DataFrame_New []\<close>, which carries the error "empty DataFrame", and a table of one
  column, it builds the result from the columns of its argument and returns a table of no
  rows that carries no error.
\<close>

theorem CrossJoin_drops_error:
  "dfErr (DataFrame_New []) = Some EmptyDataFrame \<and>
   CrossJoin L (DataFrame_New []) (DataFrame_New [Series_New L (IntSlice [1]) Int_t ''x'']) =
     Some \<lparr>columns = [\<lparr>Name = ''x'', elements = intElements [], Err = None\<rparr>],
           ncols = 1, nrows = 0, dfErr = None\<rparr>"
  by code_simp

section \<open>Reductions\<close>

lemma stat_Mean_empty: "stat_Mean [] = NaN"
  by (simp add: stat_Mean_def floats_Sum_def float64_of_int_def fdiv_def is_zero_def)

lemma stat_StdDev_empty: "stat_StdDev [] = NaN"
  by (simp add: stat_StdDev_def stat_Mean_empty fmul_def fdiv_def fsub_def float64_of_int_def
      is_zero_def mk_fin_def)

lemma elems_empty: "Elements_Len es = 0 \<Longrightarrow> elems es = []"
  by (cases es) simp_all

text \<open>What holds of claim C3: on an empty column all five reductions return NaN, and on a
  text column \<open>Sum\<close>, \<open>Median\<close> and \<open>Quantile\<close> do.\<close>

lemma reductions_of_empty_column:
  "Series_Len s = 0 \<Longrightarrow>
     Sum L s = NaN \<and> Mean L s = NaN \<and> Median L s = NaN \<and> StdDev L s = NaN \<and>
     Quantile L s p = Some NaN"
  by (simp add: Sum_def Mean_def Median_def StdDev_def Quantile_def Series_Float_def
      Series_Len_def elems_empty stat_Mean_empty stat_StdDev_empty)

lemma guarded_reductions_of_text_column:
  "Series_Type s = String_t \<Longrightarrow>
     Sum L s = NaN \<and> Median L s = NaN \<and> Quantile L s p = Some NaN"
  by (simp add: Sum_def Median_def Quantile_def)

text \<open>\<open>StdDev\<close> of a text column whose texts parse is a number as well.\<close>

lemma StdDev_of_text_column:
  "ParseFloat L ''2'' = Some (Fin 2) \<Longrightarrow>
     StdDev L (Series_New L (StringSlice [''2'', ''2'']) String_t n) = Fin 0"
  by (simp add: StdDev_def stat_StdDev_def stat_Mean_def Series_Float_def floats_Sum_def
      Series_New_def float64_of_int_def fdiv_def fmul_def fsub_def mk_fin_def is_zero_def Let_def)

text \<open>
  Claim C3 (the code departs from it). The claim: on a text column \<open>Mean\<close> returns NaN.
  \<open>Mean\<close> and \<open>StdDev\<close> lack the check of the column type that \<open>Sum\<close>, \<open>Median\<close> and
  \<open>Quantile\<close> have: they hand the elements' \<open>Float()\<close> to gonum, and a text element
  that parses as a number has that number as its \<open>Float()\<close>. On the text column
  \<open>["2"]\<close> the mean is 2, while \<open>Sum\<close> of the same column is NaN.
\<close>

theorem Mean_of_text_column:
  "ParseFloat L ''2'' = Some (Fin 2) \<Longrightarrow>
     Series_Type (Series_New L (StringSlice [''2'']) String_t n) = String_t \<and>
     Mean L (Series_New L (StringSlice [''2'']) String_t n) = Fin 2 \<and>
     Sum L (Series_New L (StringSlice [''2'']) String_t n) = NaN"
  by (simp add: Mean_def Sum_def stat_Mean_def Series_Float_def floats_Sum_def Series_New_def
      Series_Len_def Series_Type_def float64_of_int_def fdiv_def mk_fin_def is_zero_def)

theorem Mean_of_text_column_witness:
  "ParseFloat lib0 ''2'' = Some (Fin 2) \<and>
   Mean lib0 (Series_New lib0 (StringSlice [''2'']) String_t ''x'') = Fin 2"
  using Mean_of_text_column[of lib0 "''x''"] by (simp add: lib0_def)

section \<open>Rolling mean\<close>

text \<open>
  Claim C8. \<open>Rolling(2).Mean()\<close> over the integer column \<open>[1, 2, 3, 4]\<close> is the real
  column named "Mean" whose elements are a missing one (its payload the NaN that is the
  mean of the empty leading block), 1.5, 2.5 and 3.5.
\<close>

theorem Rolling_Mean_scenario:
  "RollingWindow_Mean L (Rolling (Series_New L (IntSlice [1, 2, 3, 4]) Int_t n) 2) =
     Some \<lparr>Name = ''Mean'',
           elements = floatElements [floatElement NaN False, floatElement (Fin (3 / 2)) False,
                                     floatElement (Fin (5 / 2)) False, floatElement (Fin (7 / 2)) False],
           Err = None\<rparr> \<and>
   map_option IsNaN_mask
     (RollingWindow_Mean L (Rolling (Series_New L (IntSlice [1, 2, 3, 4]) Int_t n) 2)) =
     Some [True, False, False, False] \<and>
   Mean L (Empty L (Series_New L (IntSlice [1, 2, 3, 4]) Int_t n)) = NaN"
  by (simp add: RollingWindow_Mean_def Rolling_def getBlocks_def Series_New_def Series_Len_def
      upto.simps Empty_def Series_Type_def Subset_def index_def Append_def Mean_def stat_Mean_def
      Series_Float_def floats_Sum_def float64_of_int_def fdiv_def mk_fin_def is_zero_def
      IsNaN_mask_def)

section \<open>In-place writes\<close>

text \<open>
  Claim C9. \<open>Set\<close> is not atomic on error: on the integer column \<open>[1, 2, 3]\<close>, with the
  indexes \<open>[0, 5]\<close> (the first in range, the second not) and the new values \<open>[9, 9]\<close> (as
  many as the indexes), it overwrites the element at index 0 and then returns the
  out-of-range error; the caller's column is \<open>[9, 2, 3]\<close> afterwards.
\<close>

theorem Set_not_atomic:
  "Series_Set L (Series_New L (IntSlice [1, 2, 3]) Int_t n) (IdxInts [0, 5])
       (Series_New L (IntSlice [9, 9]) Int_t m) =
     (\<lparr>Name = n, elements = intElements [intElement 9 False, intElement 2 False, intElement 3 False],
       Err = None\<rparr>,
      \<lparr>Name = n, elements = intElements [intElement 9 False, intElement 2 False, intElement 3 False],
       Err = Some SetIndexOutOfRange\<rparr>) \<and>
   elements (Series_New L (IntSlice [1, 2, 3]) Int_t n) =
     intElements [intElement 1 False, intElement 2 False, intElement 3 False]"
  by (simp add: Series_Set_def Series_New_def Series_Len_def)

text \<open>
  Claim C10. \<open>SetNames\<close> assigns the names as given, without the name-fixup pass: on a
  table of two columns named \<open>a\<close> and \<open>b\<close> (unique), \<open>SetNames("a", "a")\<close> succeeds and
  leaves both columns named \<open>a\<close>.
\<close>

theorem SetNames_breaks_uniqueness:
  "distinct (Names (DataFrame_New [Series_New L (IntSlice [1]) Int_t ''a'',
                                    Series_New L (IntSlice [2]) Int_t ''b''])) \<and>
   fst (SetNames (DataFrame_New [Series_New L (IntSlice [1]) Int_t ''a'',
                                 Series_New L (IntSlice [2]) Int_t ''b'']) [''a'', ''a'']) = None \<and>
   Names (snd (SetNames (DataFrame_New [Series_New L (IntSlice [1]) Int_t ''a'',
                                        Series_New L (IntSlice [2]) Int_t ''b'']) [''a'', ''a'']))
     = [''a'', ''a''] \<and>
   \<not> distinct (Names (snd (SetNames (DataFrame_New [Series_New L (IntSlice [1]) Int_t ''a'',
                                        Series_New L (IntSlice [2]) Int_t ''b'']) [''a'', ''a''])))"
  by code_simp

section \<open>Ordering\<close>

subsection \<open>The stable insertion sort\<close>

lemma mset_insert_stable: "mset (insert_stable lt x ys) = add_mset x (mset ys)"
  by (induction ys) auto

lemma mset_sort_Stable: "mset (sort_Stable lt xs) = mset xs"
  by (induction xs) (auto simp: sort_Stable_def mset_insert_stable)

lemma set_sort_Stable: "set (sort_Stable lt xs) = set xs"
  by (metis mset_sort_Stable set_mset_mset)

lemma set_insert_stable: "set (insert_stable lt x ys) = insert x (set ys)"
  by (metis mset_insert_stable set_mset_mset set_mset_add_mset_insert)

lemma sorted_insert_stable:
  assumes asym: "\<And>a b. a \<in> S \<Longrightarrow> b \<in> S \<Longrightarrow> lt a b \<Longrightarrow> \<not> lt b a"
    and ntr: "\<And>a b c. a \<in> S \<Longrightarrow> b \<in> S \<Longrightarrow> c \<in> S \<Longrightarrow> \<not> lt b a \<Longrightarrow> \<not> lt c b \<Longrightarrow> \<not> lt c a"
    and "x \<in> S" "set ys \<subseteq> S" "sorted_wrt (\<lambda>a b. \<not> lt b a) ys"
  shows "sorted_wrt (\<lambda>a b. \<not> lt b a) (insert_stable lt x ys)"
  using assms(3-)
proof (induction ys)
  case Nil
  then show ?case by simp
next
  case (Cons y ys)
  show ?case
  proof (cases "lt y x")
    case True
    with Cons asym[of y x] show ?thesis
      by (auto simp: set_insert_stable)
  next
    case False
    have "\<not> lt z x" if "z \<in> set ys" for z
      using ntr[of x y z] that Cons.prems False by auto
    with False Cons.prems show ?thesis by auto
  qed
qed

lemma sorted_sort_Stable:
  assumes asym: "\<And>a b. a \<in> S \<Longrightarrow> b \<in> S \<Longrightarrow> lt a b \<Longrightarrow> \<not> lt b a"
    and ntr: "\<And>a b c. a \<in> S \<Longrightarrow> b \<in> S \<Longrightarrow> c \<in> S \<Longrightarrow> \<not> lt b a \<Longrightarrow> \<not> lt c b \<Longrightarrow> \<not> lt c a"
    and "set xs \<subseteq> S"
  shows "sorted_wrt (\<lambda>a b. \<not> lt b a) (sort_Stable lt xs)"
  using assms(3)
proof (induction xs)
  case Nil
  then show ?case by (simp add: sort_Stable_def)
next
  case (Cons x xs)
  have "sorted_wrt (\<lambda>a b. \<not> lt b a) (insert_stable lt x (sort_Stable lt xs))"
    by (rule sorted_insert_stable[where S = S, OF asym ntr]) (use Cons in \<open>auto simp: set_sort_Stable\<close>)
  then show ?case by (simp add: sort_Stable_def)
qed

lemma map_insert_stable:
  "map f (insert_stable (\<lambda>a b. lt (f a) (f b)) x ys) = insert_stable lt (f x) (map f ys)"
  by (induction ys) auto

lemma map_sort_Stable:
  "map f (sort_Stable (\<lambda>a b. lt (f a) (f b)) xs) = sort_Stable lt (map f xs)"
  by (induction xs) (auto simp: sort_Stable_def map_insert_stable)

lemma sorted_wrt_mset_unique:
  assumes "sorted_wrt R xs" "sorted_wrt R ys" "mset xs = mset ys"
    and anti: "\<And>a b. a \<in> set xs \<Longrightarrow> b \<in> set xs \<Longrightarrow> R a b \<Longrightarrow> R b a \<Longrightarrow> a = b"
  shows "xs = ys"
  using assms
proof (induction xs arbitrary: ys)
  case Nil
  then show ?case by simp
next
  case (Cons x xs)
  from Cons.prems(3) obtain y ys' where ys: "ys = y # ys'"
    by (cases ys) auto
  have sets: "set (x # xs) = set (y # ys')"
    using Cons.prems(3) ys by (metis mset_eq_setD)
  have "x = y"
  proof (rule ccontr)
    assume ne: "x \<noteq> y"
    with sets have "x \<in> set ys'" and "y \<in> set xs" by auto
    with Cons.prems(1,2) ys have "R y x" "R x y" by auto
    with Cons.prems(4)[of x y] \<open>y \<in> set xs\<close> ne show False by auto
  qed
  with Cons.prems ys have "xs = ys'"
    by (intro Cons.IH) auto
  with \<open>x = y\<close> ys show ?case by simp
qed

subsection \<open>Less on the non-missing elements of one column\<close>

lemma in_elems_string:
  assumes "x \<in> set (elems (stringElements xs))"
  obtains a n where "x = StringE (stringElement a n)"
proof -
  from assms obtain x' where "x = StringE x'" by auto
  then show ?thesis using that by (cases x') auto
qed

lemma in_elems_int:
  assumes "x \<in> set (elems (intElements xs))"
  obtains a n where "x = IntE (intElement a n)"
proof -
  from assms obtain x' where "x = IntE x'" by auto
  then show ?thesis using that by (cases x') auto
qed

lemma in_elems_float:
  assumes "x \<in> set (elems (floatElements xs))"
  obtains a n where "x = FloatE (floatElement a n)"
proof -
  from assms obtain x' where "x = FloatE x'" by auto
  then show ?thesis using that by (cases x') auto
qed

lemma in_elems_bool:
  assumes "x \<in> set (elems (boolElements xs))"
  obtains a n where "x = BoolE (boolElement a n)"
proof -
  from assms obtain x' where "x = BoolE x'" by auto
  then show ?thesis using that by (cases x') auto
qed

lemma Less_asym:
  assumes "x \<in> set (elems E)" "y \<in> set (elems E)" "Less L x y"
  shows "\<not> Less L y x"
proof (cases E)
  case (stringElements xs)
  from assms(1) obtain a n where x: "x = StringE (stringElement a n)"
    unfolding stringElements by (rule in_elems_string)
  from assms(2) obtain b m where y: "y = StringE (stringElement b m)"
    unfolding stringElements by (rule in_elems_string)
  from x y assms(3) show ?thesis
    by (auto split: if_splits)
next
  case (intElements xs)
  from assms(1) obtain a n where x: "x = IntE (intElement a n)"
    unfolding intElements by (rule in_elems_int)
  from assms(2) obtain b m where y: "y = IntE (intElement b m)"
    unfolding intElements by (rule in_elems_int)
  from x y assms(3) show ?thesis
    by (auto split: if_splits)
next
  case (floatElements xs)
  from assms(1) obtain a n where x: "x = FloatE (floatElement a n)"
    unfolding floatElements by (rule in_elems_float)
  from assms(2) obtain b m where y: "y = FloatE (floatElement b m)"
    unfolding floatElements by (rule in_elems_float)
  from x y assms(3) show ?thesis
    by (auto simp: float_lt_def Let_def split: if_splits)
next
  case (boolElements xs)
  from assms(1) obtain a n where x: "x = BoolE (boolElement a n)"
    unfolding boolElements by (rule in_elems_bool)
  from assms(2) obtain b m where y: "y = BoolE (boolElement b m)"
    unfolding boolElements by (rule in_elems_bool)
  from x y assms(3) show ?thesis
    by (auto split: if_splits)
qed

lemma Less_negtrans:
  assumes "x \<in> set (elems E)" "y \<in> set (elems E)" "z \<in> set (elems E)"
    and "\<not> IsNA x" "\<not> IsNA y" "\<not> IsNA z"
    and "\<not> Less L y x" "\<not> Less L z y"
  shows "\<not> Less L z x"
proof (cases E)
  case (stringElements xs)
  from assms(1) obtain a n where x: "x = StringE (stringElement a n)"
    unfolding stringElements by (rule in_elems_string)
  from assms(2) obtain b m where y: "y = StringE (stringElement b m)"
    unfolding stringElements by (rule in_elems_string)
  from assms(3) obtain c k where z: "z = StringE (stringElement c k)"
    unfolding stringElements by (rule in_elems_string)
  from x y z assms(4-) show ?thesis
    by (auto split: if_splits)
next
  case (intElements xs)
  from assms(1) obtain a n where x: "x = IntE (intElement a n)"
    unfolding intElements by (rule in_elems_int)
  from assms(2) obtain b m where y: "y = IntE (intElement b m)"
    unfolding intElements by (rule in_elems_int)
  from assms(3) obtain c k where z: "z = IntE (intElement c k)"
    unfolding intElements by (rule in_elems_int)
  from x y z assms(4-) show ?thesis
    by (auto split: if_splits)
next
  case (floatElements xs)
  from assms(1) obtain a n where x: "x = FloatE (floatElement a n)"
    unfolding floatElements by (rule in_elems_float)
  from assms(2) obtain b m where y: "y = FloatE (floatElement b m)"
    unfolding floatElements by (rule in_elems_float)
  from assms(3) obtain c k where z: "z = FloatE (floatElement c k)"
    unfolding floatElements by (rule in_elems_float)
  from x y z assms(4-) show ?thesis
    by (auto simp: float_lt_def Let_def split: if_splits)
next
  case (boolElements xs)
  from assms(1) obtain a n where x: "x = BoolE (boolElement a n)"
    unfolding boolElements by (rule in_elems_bool)
  from assms(2) obtain b m where y: "y = BoolE (boolElement b m)"
    unfolding boolElements by (rule in_elems_bool)
  from assms(3) obtain c k where z: "z = BoolE (boolElement c k)"
    unfolding boolElements by (rule in_elems_bool)
  from x y z assms(4-) show ?thesis
    by (auto split: if_splits)
qed

lemma Less_antisym:
  assumes "x \<in> set (elems E)" "y \<in> set (elems E)" "\<not> IsNA x" "\<not> IsNA y"
    and "\<not> Less L x y" "\<not> Less L y x"
    and zeros: "\<not> (FloatE (floatElement (Fin 0) False) \<in> set (elems E) \<and>
                   FloatE (floatElement NegZero False) \<in> set (elems E))"
  shows "x = y"
proof (cases E)
  case (stringElements xs)
  from assms(1) obtain a n where x: "x = StringE (stringElement a n)"
    unfolding stringElements by (rule in_elems_string)
  from assms(2) obtain b m where y: "y = StringE (stringElement b m)"
    unfolding stringElements by (rule in_elems_string)
  from x y assms(3-6) show ?thesis
    by (auto split: if_splits)
next
  case (intElements xs)
  from assms(1) obtain a n where x: "x = IntE (intElement a n)"
    unfolding intElements by (rule in_elems_int)
  from assms(2) obtain b m where y: "y = IntE (intElement b m)"
    unfolding intElements by (rule in_elems_int)
  from x y assms(3-6) show ?thesis
    by (auto split: if_splits)
next
  case (floatElements xs)
  from assms(1) obtain a n where x: "x = FloatE (floatElement a n)"
    unfolding floatElements by (rule in_elems_float)
  from assms(2) obtain b m where y: "y = FloatE (floatElement b m)"
    unfolding floatElements by (rule in_elems_float)
  from x y assms(3-6) have nm: "n = False" "m = False" "\<not> IsNaN a" "\<not> IsNaN b"
    and eq: "fclass a = fclass b" "fvalue a = fvalue b"
    by (auto simp: float_lt_def Let_def split: if_splits)
  show ?thesis
  proof (cases "a = b")
    case True
    with x y nm show ?thesis by simp
  next
    case False
    with nm eq have "(a = Fin 0 \<and> b = NegZero) \<or> (a = NegZero \<and> b = Fin 0)"
      by (cases a; cases b) auto
    with x y nm assms(1,2) zeros show ?thesis by auto
  qed
next
  case (boolElements xs)
  from assms(1) obtain a n where x: "x = BoolE (boolElement a n)"
    unfolding boolElements by (rule in_elems_bool)
  from assms(2) obtain b m where y: "y = BoolE (boolElement b m)"
    unfolding boolElements by (rule in_elems_bool)
  from x y assms(3-6) show ?thesis
    by (auto split: if_splits)
qed

subsection \<open>Subset at the positions of Order\<close>

lemma length_elems: "length (elems E) = Elements_Len E"
  by (cases E) simp_all

lemma those_index:
  "\<forall>i\<in>set idx. 0 \<le> i \<and> i < int (length xs) \<Longrightarrow>
     those (map (index xs) idx) = Some (map (\<lambda>i. xs ! nat i) idx)"
  by (induction idx) (simp_all add: index_def)

lemma map_nth_map:
  "\<forall>i\<in>set idx. 0 \<le> i \<and> i < int (length xs) \<Longrightarrow>
     map (\<lambda>i. map f xs ! nat i) idx = map f (map (\<lambda>i. xs ! nat i) idx)"
  by (induction idx) (auto simp: nat_less_iff)

lemma pick_in_range:
  assumes "\<forall>i\<in>set idx. 0 \<le> i \<and> i < int (Elements_Len E)"
  shows "\<exists>E'. pick E idx = Some E' \<and> elems E' = map (\<lambda>i. elems E ! nat i) idx"
proof (cases E)
  case (stringElements xs)
  with assms have r: "\<forall>i\<in>set idx. 0 \<le> i \<and> i < int (length xs)" by simp
  show ?thesis unfolding stringElements
    by (simp add: those_index[OF r] map_nth_map[OF r])
next
  case (intElements xs)
  with assms have r: "\<forall>i\<in>set idx. 0 \<le> i \<and> i < int (length xs)" by simp
  show ?thesis unfolding intElements
    by (simp add: those_index[OF r] map_nth_map[OF r])
next
  case (floatElements xs)
  with assms have r: "\<forall>i\<in>set idx. 0 \<le> i \<and> i < int (length xs)" by simp
  show ?thesis unfolding floatElements
    by (simp add: those_index[OF r] map_nth_map[OF r])
next
  case (boolElements xs)
  with assms have r: "\<forall>i\<in>set idx. 0 \<le> i \<and> i < int (length xs)" by simp
  show ?thesis unfolding boolElements
    by (simp add: those_index[OF r] map_nth_map[OF r])
qed

lemma indexed_nth:
  "p \<in> set (zip [0..<length es] es) \<Longrightarrow> fst p < length es \<and> es ! fst p = snd p"
  by (cases p) (auto simp: in_set_zip)

lemma map_snd_filter:
  "map snd (filter (\<lambda>x. P (snd x)) zs) = filter P (map snd zs)"
  by (induction zs) auto

lemma map_snd_filter_indexed:
  "map snd (filter (\<lambda>x. P (snd x)) (zip [0..<length es] es)) = filter P es"
  by (simp add: map_snd_filter)

lemma map_nth_fst:
  "set ps \<subseteq> set (zip [0..<length es] es) \<Longrightarrow>
     map (\<lambda>i. es ! nat i) (map (\<lambda>p. int (fst p)) ps) = map snd ps"
  by (induction ps) (simp_all add: indexed_nth)

lemma range_fst:
  "set ps \<subseteq> set (zip [0..<length es] es) \<Longrightarrow>
     \<forall>i\<in>set (map (\<lambda>p. int (fst p)) ps). 0 \<le> i \<and> i < int (length es)"
  by (induction ps) (simp_all add: indexed_nth)

lemma srt_forward: "indexedElements_Less L = (\<lambda>a b. Less L (snd a) (snd b))"
  by (simp add: fun_eq_iff indexedElements_Less_def)

lemma srt_reverse:
  "sort_Reverse (indexedElements_Less L) = (\<lambda>a b. sort_Reverse (Less L) (snd a) (snd b))"
  by (simp add: fun_eq_iff indexedElements_Less_def sort_Reverse_def)

lemma Order_eq:
  "Order L c reverse =
     map (\<lambda>p. int (fst p))
       (sort_Stable (\<lambda>a b. (if reverse then sort_Reverse (Less L) else Less L) (snd a) (snd b))
          (filter (\<lambda>x. \<not> IsNA (snd x)) (zip [0..<length (elems (elements c))] (elems (elements c))))) @
     map (\<lambda>p. int (fst p))
       (filter (\<lambda>x. IsNA (snd x)) (zip [0..<length (elems (elements c))] (elems (elements c))))"
proof (cases reverse)
  case True
  then show ?thesis
    by (simp add: Order_def Let_def Series_Len_def length_elems srt_reverse comp_def)
next
  case False
  then show ?thesis
    by (simp add: Order_def Let_def Series_Len_def length_elems srt_forward comp_def)
qed

lemma Order_positions:
  "(\<forall>i\<in>set (Order L c reverse). 0 \<le> i \<and> i < int (length (elems (elements c)))) \<and>
   map (\<lambda>i. elems (elements c) ! nat i) (Order L c reverse) =
     sort_Stable (if reverse then sort_Reverse (Less L) else Less L)
       (filter (\<lambda>e. \<not> IsNA e) (elems (elements c))) @ filter IsNA (elems (elements c))"
proof -
  define es where "es = elems (elements c)"
  define lt where "lt = (if reverse then sort_Reverse (Less L) else Less L)"
  define ie where "ie = filter (\<lambda>x. \<not> IsNA (snd x)) (zip [0..<length es] es)"
  define na where "na = filter (\<lambda>x. IsNA (snd x)) (zip [0..<length es] es)"
  define sorted_ie where "sorted_ie = sort_Stable (\<lambda>a b. lt (snd a) (snd b)) ie"
  have ord: "Order L c reverse = map (\<lambda>p. int (fst p)) sorted_ie @ map (\<lambda>p. int (fst p)) na"
    unfolding sorted_ie_def ie_def na_def lt_def es_def by (rule Order_eq)
  have sub1: "set sorted_ie \<subseteq> set (zip [0..<length es] es)"
    unfolding sorted_ie_def ie_def by (simp add: set_sort_Stable)
  have sub2: "set na \<subseteq> set (zip [0..<length es] es)"
    unfolding na_def by simp
  have r1: "\<forall>i\<in>set (map (\<lambda>p. int (fst p)) sorted_ie). 0 \<le> i \<and> i < int (length es)"
    using sub1 by (rule range_fst)
  have r2: "\<forall>i\<in>set (map (\<lambda>p. int (fst p)) na). 0 \<le> i \<and> i < int (length es)"
    using sub2 by (rule range_fst)
  have "map (\<lambda>i. es ! nat i) (map (\<lambda>p. int (fst p)) sorted_ie) = map snd sorted_ie"
    using sub1 by (rule map_nth_fst)
  also have "\<dots> = sort_Stable lt (map snd ie)"
    unfolding sorted_ie_def by (rule map_sort_Stable)
  also have "map snd ie = filter (\<lambda>e. \<not> IsNA e) es"
    unfolding ie_def by (rule map_snd_filter_indexed)
  finally have first: "map (\<lambda>i. es ! nat i) (map (\<lambda>p. int (fst p)) sorted_ie) =
      sort_Stable lt (filter (\<lambda>e. \<not> IsNA e) es)" .
  have "map (\<lambda>i. es ! nat i) (map (\<lambda>p. int (fst p)) na) = map snd na"
    using sub2 by (rule map_nth_fst)
  also have "\<dots> = filter IsNA es"
    unfolding na_def by (rule map_snd_filter_indexed)
  finally have second: "map (\<lambda>i. es ! nat i) (map (\<lambda>p. int (fst p)) na) = filter IsNA es" .
  have range: "\<forall>i\<in>set (Order L c reverse). 0 \<le> i \<and> i < int (length es)"
    unfolding ord using r1 r2 by (simp add: ball_Un)
  have vals: "map (\<lambda>i. es ! nat i) (Order L c reverse) =
      sort_Stable lt (filter (\<lambda>e. \<not> IsNA e) es) @ filter IsNA es"
    unfolding ord map_append first second by (rule refl)
  from range vals show ?thesis
    unfolding es_def lt_def by (rule conjI)
qed

lemma Subset_Order:
  assumes "Err c = None"
  shows "\<exists>r. Subset c (IdxInts (Order L c reverse)) = Some r \<and> Name r = Name c \<and> Err r = None \<and>
           elems (elements r) =
             sort_Stable (if reverse then sort_Reverse (Less L) else Less L)
               (filter (\<lambda>e. \<not> IsNA e) (elems (elements c))) @ filter IsNA (elems (elements c))"
proof -
  from Order_positions[of L c reverse]
  have range: "\<forall>i\<in>set (Order L c reverse). 0 \<le> i \<and> i < int (Elements_Len (elements c))"
    and vals: "map (\<lambda>i. elems (elements c) ! nat i) (Order L c reverse) =
           sort_Stable (if reverse then sort_Reverse (Less L) else Less L)
             (filter (\<lambda>e. \<not> IsNA e) (elems (elements c))) @ filter IsNA (elems (elements c))"
    unfolding length_elems by (rule conjunct1, rule conjunct2)
  from pick_in_range[OF range] obtain E' where
    E': "pick (elements c) (Order L c reverse) = Some E'"
      "elems E' = map (\<lambda>i. elems (elements c) ! nat i) (Order L c reverse)"
    by blast
  have "Subset c (IdxInts (Order L c reverse)) = Some \<lparr>Name = Name c, elements = E', Err = None\<rparr>"
    using assms E'(1) by (simp add: Subset_def)
  moreover have "elems (elements \<lparr>Name = Name c, elements = E', Err = None\<rparr>) =
      sort_Stable (if reverse then sort_Reverse (Less L) else Less L)
               (filter (\<lambda>e. \<not> IsNA e) (elems (elements c))) @ filter IsNA (elems (elements c))"
    using E'(2) vals by simp
  ultimately show ?thesis by simp
qed

lemma no_FloatE: "Elements_Type E \<noteq> Float_t \<Longrightarrow> FloatE x \<notin> set (elems E)"
  by (cases E) auto

text \<open>
  Claim C5, as amended. For every column \<open>c\<close> that carries no error,
  \<open>c.Subset(c.Order(false))\<close> and \<open>c.Subset(c.Order(true))\<close> both return a column;
  the first is a prefix \<open>P\<close> followed by the missing elements of \<open>c\<close> in their original
  order, the second a prefix \<open>Q\<close> followed by the same missing elements. \<open>P\<close> holds the
  non-missing elements of \<open>c\<close> sorted ascending by \<open>Less\<close> (no element is \<open>Less\<close> than
  one before it), \<open>Q\<close> holds the same elements sorted descending. \<open>Q\<close> is the reverse of
  \<open>P\<close> unless \<open>c\<close> is a real column that holds both \<open>0.0\<close> and \<open>-0.0\<close>: in
  particular for every text, integer and boolean column.
\<close>

theorem Order_Subset_sorted:
  assumes "Err c = None"
  shows "\<exists>asc desc P Q.
     Subset c (IdxInts (Order L c False)) = Some asc \<and>
     Subset c (IdxInts (Order L c True)) = Some desc \<and>
     elems (elements asc) = P @ filter IsNA (elems (elements c)) \<and>
     elems (elements desc) = Q @ filter IsNA (elems (elements c)) \<and>
     mset P = mset (filter (\<lambda>e. \<not> IsNA e) (elems (elements c))) \<and>
     mset Q = mset P \<and>
     sorted_wrt (\<lambda>a b. \<not> Less L b a) P \<and>
     sorted_wrt (\<lambda>a b. \<not> Less L a b) Q \<and>
     (\<not> (FloatE (floatElement (Fin 0) False) \<in> set (elems (elements c)) \<and>
         FloatE (floatElement NegZero False) \<in> set (elems (elements c))) \<longrightarrow> Q = rev P) \<and>
     (Series_Type c \<noteq> Float_t \<longrightarrow> Q = rev P)"
proof -
  define es where "es = elems (elements c)"
  define nm where "nm = filter (\<lambda>e. \<not> IsNA e) es"
  define P where "P = sort_Stable (Less L) nm"
  define Q where "Q = sort_Stable (sort_Reverse (Less L)) nm"
  have nm_es: "a \<in> set es \<and> \<not> IsNA a" if "a \<in> set nm" for a
    using that by (simp add: nm_def)
  from Subset_Order[OF assms, of L False] obtain asc where
    asc: "Subset c (IdxInts (Order L c False)) = Some asc"
         "elems (elements asc) = P @ filter IsNA es"
    unfolding P_def nm_def es_def by auto
  from Subset_Order[OF assms, of L True] obtain desc where
    desc: "Subset c (IdxInts (Order L c True)) = Some desc"
          "elems (elements desc) = Q @ filter IsNA es"
    unfolding Q_def nm_def es_def by auto
  have msetP: "mset P = mset nm"
    unfolding P_def by (rule mset_sort_Stable)
  have msetQ: "mset Q = mset P"
    unfolding P_def Q_def by (simp add: mset_sort_Stable)
  have sortedP: "sorted_wrt (\<lambda>a b. \<not> Less L b a) P"
    unfolding P_def
  proof (rule sorted_sort_Stable[where S = "set nm"])
    fix a b assume "a \<in> set nm" "b \<in> set nm" "Less L a b"
    then show "\<not> Less L b a"
      using Less_asym[of a "elements c" b L] nm_es by (simp add: es_def)
  next
    fix a b d assume "a \<in> set nm" "b \<in> set nm" "d \<in> set nm" "\<not> Less L b a" "\<not> Less L d b"
    then show "\<not> Less L d a"
      using Less_negtrans[of a "elements c" b d L] nm_es by (simp add: es_def)
  next
    show "set nm \<subseteq> set nm" by simp
  qed
  have "sorted_wrt (\<lambda>a b. \<not> sort_Reverse (Less L) b a) Q"
    unfolding Q_def
  proof (rule sorted_sort_Stable[where S = "set nm"])
    fix a b assume "a \<in> set nm" "b \<in> set nm" "sort_Reverse (Less L) a b"
    then show "\<not> sort_Reverse (Less L) b a"
      using Less_asym[of b "elements c" a L] nm_es by (simp add: es_def sort_Reverse_def)
  next
    fix a b d assume "a \<in> set nm" "b \<in> set nm" "d \<in> set nm"
      "\<not> sort_Reverse (Less L) b a" "\<not> sort_Reverse (Less L) d b"
    then show "\<not> sort_Reverse (Less L) d a"
      using Less_negtrans[of d "elements c" b a L] nm_es by (simp add: es_def sort_Reverse_def)
  next
    show "set nm \<subseteq> set nm" by simp
  qed
  then have sortedQ: "sorted_wrt (\<lambda>a b. \<not> Less L a b) Q"
    by (simp add: sort_Reverse_def)
  have rev: "Q = rev P"
    if zeros: "\<not> (FloatE (floatElement (Fin 0) False) \<in> set es \<and>
                  FloatE (floatElement NegZero False) \<in> set es)"
  proof (rule sorted_wrt_mset_unique[where R = "\<lambda>a b. \<not> Less L a b"])
    show "sorted_wrt (\<lambda>a b. \<not> Less L a b) Q" by (rule sortedQ)
    show "sorted_wrt (\<lambda>a b. \<not> Less L a b) (rev P)"
      using sortedP by (simp add: sorted_wrt_rev)
    show "mset Q = mset (rev P)" using msetQ by simp
  next
    fix a b assume "a \<in> set Q" "b \<in> set Q" "\<not> Less L a b" "\<not> Less L b a"
    moreover have "set Q = set nm" unfolding Q_def by (rule set_sort_Stable)
    ultimately show "a = b"
      using Less_antisym[of a "elements c" b L] nm_es zeros by (simp add: es_def)
  qed
  have rev': "Q = rev P" if "Series_Type c \<noteq> Float_t"
    using that rev no_FloatE[of "elements c"] by (simp add: Series_Type_def es_def)
  from asc desc msetP msetQ sortedP sortedQ rev rev' show ?thesis
    unfolding nm_def es_def by blast
qed

theorem Order_Subset_sorted_witness:
  "Err (Series_New lib0 (StringSlice [''b'', ''NaN'', ''a'']) String_t ''x'') = None \<and>
   (\<exists>asc. Subset (Series_New lib0 (StringSlice [''b'', ''NaN'', ''a'']) String_t ''x'')
            (IdxInts (Order lib0 (Series_New lib0 (StringSlice [''b'', ''NaN'', ''a'']) String_t ''x'') False))
          = Some asc)"
proof -
  have h: "Err (Series_New lib0 (StringSlice [''b'', ''NaN'', ''a'']) String_t ''x'') = None"
    by (simp add: Series_New_def)
  from Order_Subset_sorted[OF h, of lib0] h show ?thesis by blast
qed

text \<open>The claim as stated fails in two ways. The two zeros of a real column compare equal,
  so the stable sort leaves them in their original order in both directions: on
  \<open>[0.0, -0.0]\<close> both subsets are \<open>[0.0, -0.0]\<close>, which is not its own reverse. And a
  column that carries an error is returned as it is by \<open>Subset\<close>: the integer column
  \<open>[2, 1]\<close> with the error of a failed \<open>Subset\<close> stays \<open>[2, 1]\<close>, which is not
  ascending.\<close>

theorem Order_Subset_counterexample:
  "Subset (Series_New lib0 (Float64Slice [Fin 0, NegZero]) Float_t ''x'')
     (IdxInts (Order lib0 (Series_New lib0 (Float64Slice [Fin 0, NegZero]) Float_t ''x'') False)) =
     Some \<lparr>Name = ''x'', elements = floatElements [floatElement (Fin 0) False, floatElement NegZero False],
           Err = None\<rparr> \<and>
   Subset (Series_New lib0 (Float64Slice [Fin 0, NegZero]) Float_t ''x'')
     (IdxInts (Order lib0 (Series_New lib0 (Float64Slice [Fin 0, NegZero]) Float_t ''x'') True)) =
     Some \<lparr>Name = ''x'', elements = floatElements [floatElement (Fin 0) False, floatElement NegZero False],
           Err = None\<rparr> \<and>
   rev [floatElement (Fin 0) False, floatElement NegZero False] \<noteq>
     [floatElement (Fin 0) False, floatElement NegZero False] \<and>
   Subset (Series_New lib0 (IntSlice [2, 1]) Int_t ''y'') (IdxBools [True]) =
     Some \<lparr>Name = ''y'', elements = intElements [intElement 2 False, intElement 1 False],
           Err = Some IndexDimensionMismatch\<rparr> \<and>
   Subset \<lparr>Name = ''y'', elements = intElements [intElement 2 False, intElement 1 False],
           Err = Some IndexDimensionMismatch\<rparr>
     (IdxInts (Order lib0 \<lparr>Name = ''y'', elements = intElements [intElement 2 False, intElement 1 False],
           Err = Some IndexDimensionMismatch\<rparr> False)) =
     Some \<lparr>Name = ''y'', elements = intElements [intElement 2 False, intElement 1 False],
           Err = Some IndexDimensionMismatch\<rparr> \<and>
   Less lib0 (IntE (intElement 1 False)) (IntE (intElement 2 False))"
  by (simp add: Subset_def Order_def Series_New_def Series_Len_def index_def parseBools_def
      sort_Stable_def sort_Reverse_def indexedElements_Less_def float_lt_def upt_rec)

section \<open>Unique column names\<close>

lemma findInStringSlice_ge: "- 1 \<le> findInStringSlice x xs"
  by (induction xs) (auto simp: Let_def)

lemma findInStringSlice_notin: "findInStringSlice x xs = - 1 \<longleftrightarrow> x \<notin> set xs"
proof (induction xs)
  case Nil
  then show ?case by simp
next
  case (Cons a xs)
  have "findInStringSlice x xs + 1 \<noteq> - 1"
    using findInStringSlice_ge[of x xs] by linarith
  with Cons show ?case by (auto simp: Let_def)
qed

lemma next_free_fresh: "prefix @ itoa_nat (next_free prefix counter colnames) \<notin> set colnames"
proof (induction prefix counter colnames rule: next_free.induct)
  case (1 prefix counter colnames)
  show ?case
  proof (cases "findInStringSlice (prefix @ itoa_nat counter) colnames \<noteq> - 1")
    case True
    with "1.IH" show ?thesis by (subst next_free.simps) simp
  next
    case False
    then have "next_free prefix counter colnames = counter"
      by (subst next_free.simps) simp
    with False show ?thesis by (simp add: findInStringSlice_notin)
  qed
qed

lemma uniq_update_same:
  assumes "v \<notin> set cs" "i < length cs"
  shows "uniq (cs[i := v]) i"
  unfolding uniq_def
proof (intro allI impI)
  fix j assume "j < length (cs[i := v])" "j \<noteq> i"
  then have "cs[i := v] ! j = cs ! j" "cs ! j \<in> set cs" by simp_all
  with assms show "cs[i := v] ! j \<noteq> cs[i := v] ! i" by auto
qed

lemma uniq_update_other:
  assumes "v \<notin> set cs" "i < length cs" "uniq cs j" "j \<noteq> i" "j < length cs"
  shows "uniq (cs[i := v]) j"
  unfolding uniq_def
proof (intro allI impI)
  fix k assume k: "k < length (cs[i := v])" "k \<noteq> j"
  have j: "cs[i := v] ! j = cs ! j" "cs ! j \<in> set cs" using assms by simp_all
  show "cs[i := v] ! k \<noteq> cs[i := v] ! j"
  proof (cases "k = i")
    case True
    with assms j show ?thesis by auto
  next
    case False
    with k assms(3) j show ?thesis by (simp add: uniq_def)
  qed
qed

lemma length_fix_places: "length (fix_places p places c cs) = length cs"
  by (induction places arbitrary: c cs) (simp_all add: Let_def)

lemma fix_places_untouched:
  "j \<notin> set places \<Longrightarrow> fix_places p places c cs ! j = cs ! j"
  by (induction places arbitrary: c cs) (auto simp: Let_def)

lemma fix_places_shape:
  "j \<in> set places \<Longrightarrow> j < length cs \<Longrightarrow> \<exists>k. fix_places p places c cs ! j = p @ itoa_nat k"
proof (induction places arbitrary: c cs)
  case Nil
  then show ?case by simp
next
  case (Cons i places)
  let ?k = "next_free p c cs"
  let ?cs = "cs[i := p @ itoa_nat ?k]"
  show ?case
  proof (cases "j \<in> set places")
    case True
    with Cons.IH[of ?cs "?k + 1"] Cons.prems show ?thesis by (simp add: Let_def)
  next
    case False
    with Cons.prems have "j = i" by simp
    with False Cons.prems have "fix_places p (i # places) c cs ! j = p @ itoa_nat ?k"
      by (simp add: Let_def fix_places_untouched)
    then show ?thesis by blast
  qed
qed

lemma fix_places_uniq:
  assumes "\<forall>i\<in>set places. i < length cs" "j < length cs" "j \<in> set places \<or> uniq cs j"
  shows "uniq (fix_places p places c cs) j"
  using assms
proof (induction places arbitrary: c cs)
  case Nil
  then show ?case by simp
next
  case (Cons i places)
  let ?k = "next_free p c cs"
  let ?cs = "cs[i := p @ itoa_nat ?k]"
  have fresh: "p @ itoa_nat ?k \<notin> set cs" by (rule next_free_fresh)
  have i: "i < length cs" using Cons.prems(1) by simp
  have "j \<in> set places \<or> uniq ?cs j"
  proof (cases "j = i")
    case True
    then show ?thesis using uniq_update_same[OF fresh i] by simp
  next
    case False
    with Cons.prems(3) have "j \<in> set places \<or> uniq cs j" by auto
    then show ?thesis using uniq_update_other[OF fresh i _ False Cons.prems(2)] by auto
  qed
  moreover have "\<forall>i\<in>set places. i < length ?cs" using Cons.prems(1) by simp
  moreover have "j < length ?cs" using Cons.prems(2) by simp
  ultimately have "uniq (fix_places p places (?k + 1) ?cs) j"
    by (rule Cons.IH[rotated 2])
  then show ?case by (simp add: Let_def)
qed

lemma length_foldl_fix:
  "length (foldl (\<lambda>cs name. fix_places (pre name) (places name) 0 cs) start ks) = length start"
  by (induction ks arbitrary: start) (simp_all add: length_fix_places)

lemma foldl_fix_untouched:
  "\<forall>name\<in>set ks. j \<notin> set (places name) \<Longrightarrow>
     foldl (\<lambda>cs name. fix_places (pre name) (places name) 0 cs) start ks ! j = start ! j"
  by (induction ks arbitrary: start) (simp_all add: fix_places_untouched)

lemma foldl_fix_uniq:
  assumes "\<forall>name\<in>set ks. \<forall>i\<in>set (places name). i < length start" "j < length start"
    and "(\<exists>name\<in>set ks. j \<in> set (places name)) \<or> uniq start j"
  shows "uniq (foldl (\<lambda>cs name. fix_places (pre name) (places name) 0 cs) start ks) j"
  using assms
proof (induction ks arbitrary: start)
  case Nil
  then show ?case by simp
next
  case (Cons n ks)
  let ?start = "fix_places (pre n) (places n) 0 start"
  have len: "length ?start = length start" by (rule length_fix_places)
  have "(\<exists>name\<in>set ks. j \<in> set (places name)) \<or> uniq ?start j"
  proof (cases "j \<in> set (places n) \<or> uniq start j")
    case True
    have "uniq ?start j"
      by (rule fix_places_uniq) (use Cons.prems True in auto)
    then show ?thesis by simp
  next
    case False
    with Cons.prems(3) show ?thesis by auto
  qed
  moreover have "\<forall>name\<in>set ks. \<forall>i\<in>set (places name). i < length ?start"
    using Cons.prems(1) len by simp
  moreover have "j < length ?start" using Cons.prems(2) len by simp
  ultimately have "uniq (foldl (\<lambda>cs name. fix_places (pre name) (places name) 0 cs) ?start ks) j"
    by (rule Cons.IH[rotated 2])
  then show ?case by simp
qed

lemma foldl_fix_shape:
  assumes "distinct ks" "name \<in> set ks" "j \<in> set (places name)" "j < length start"
    and "\<forall>n\<in>set ks. n \<noteq> name \<longrightarrow> j \<notin> set (places n)"
  shows "\<exists>k. foldl (\<lambda>cs name. fix_places (pre name) (places name) 0 cs) start ks ! j =
             pre name @ itoa_nat k"
  using assms
proof (induction ks arbitrary: start)
  case Nil
  then show ?case by simp
next
  case (Cons n ks)
  let ?start = "fix_places (pre n) (places n) 0 start"
  have len: "length ?start = length start" by (rule length_fix_places)
  show ?case
  proof (cases "n = name")
    case True
    with Cons.prems have "\<forall>n'\<in>set ks. j \<notin> set (places n')" by auto
    then have "foldl (\<lambda>cs name. fix_places (pre name) (places name) 0 cs) ?start ks ! j = ?start ! j"
      by (rule foldl_fix_untouched)
    moreover from fix_places_shape[OF Cons.prems(3,4), of "pre name" 0]
    obtain k where "fix_places (pre name) (places name) 0 start ! j = pre name @ itoa_nat k"
      by blast
    ultimately show ?thesis using True by auto
  next
    case False
    with Cons.prems have "\<exists>k. foldl (\<lambda>cs name. fix_places (pre name) (places name) 0 cs) ?start ks ! j =
             pre name @ itoa_nat k"
      by (intro Cons.IH) (auto simp: len)
    then show ?thesis by simp
  qed
qed

lemma set_dupnamesidx: "set (dupnamesidx cs a) = {i. i < length cs \<and> cs ! i = a}"
  by (auto simp: dupnamesidx_def)

lemma set_missingnames: "set (missingnames cs) = {i. i < length cs \<and> cs ! i = []}"
  by (auto simp: missingnames_def)

lemma distinct_dupnamesidx: "distinct (dupnamesidx cs a)"
  by (simp add: dupnamesidx_def)

lemma set_dupkeys:
  "set (dupkeys cs) = {a \<in> set cs. a \<noteq> [] \<and> 2 \<le> length (dupnamesidx cs a)}"
  by (auto simp: dupkeys_def)

lemma distinct_dupkeys: "distinct (dupkeys cs)"
  by (simp add: dupkeys_def)

lemma duplicate_length:
  assumes "j < length cs" "j' < length cs" "j' \<noteq> j" "cs ! j' = cs ! j"
  shows "2 \<le> length (dupnamesidx cs (cs ! j))"
proof -
  have "{j, j'} \<subseteq> set (dupnamesidx cs (cs ! j))"
    using assms by (simp add: set_dupnamesidx)
  then have "card {j, j'} \<le> card (set (dupnamesidx cs (cs ! j)))"
    by (intro card_mono) simp_all
  moreover have "card {j, j'} = 2" using assms(3) by simp
  moreover have "card (set (dupnamesidx cs (cs ! j))) = length (dupnamesidx cs (cs ! j))"
    by (rule distinct_card) (rule distinct_dupnamesidx)
  ultimately show ?thesis by simp
qed

lemma uniq_length:
  assumes "uniq cs j" "j < length cs"
  shows "length (dupnamesidx cs (cs ! j)) = 1"
proof -
  have "set (dupnamesidx cs (cs ! j)) = {j}"
    using assms by (auto simp: set_dupnamesidx uniq_def)
  moreover have "card (set (dupnamesidx cs (cs ! j))) = length (dupnamesidx cs (cs ! j))"
    by (rule distinct_card) (rule distinct_dupnamesidx)
  ultimately show ?thesis by simp
qed

lemma fixColnames_eq:
  "fixColnames cs =
     foldl (\<lambda>cs' name. fix_places ((if name = [] then ''X'' else name) @ ''_'') (dupnamesidx cs name) 0 cs')
       (fix_places ''X'' (missingnames cs) 0 cs) (dupkeys cs)"
  by (simp add: fixColnames_def Let_def)

lemma length_fixColnames: "length (fixColnames cs) = length cs"
  by (simp add: fixColnames_eq length_foldl_fix length_fix_places)

lemma fixColnames_uniq:
  assumes j: "j < length cs"
  shows "uniq (fixColnames cs) j"
proof -
  let ?fixed = "fix_places ''X'' (missingnames cs) 0 cs"
  have len: "length ?fixed = length cs" by (rule length_fix_places)
  have miss: "\<forall>i\<in>set (missingnames cs). i < length cs" by (simp add: set_missingnames)
  have "(\<exists>name\<in>set (dupkeys cs). j \<in> set (dupnamesidx cs name)) \<or> uniq ?fixed j"
  proof (cases "cs ! j = [] \<or> uniq cs j")
    case True
    then have "j \<in> set (missingnames cs) \<or> uniq cs j"
      using j by (auto simp: set_missingnames)
    with miss j have "uniq ?fixed j" by (rule fix_places_uniq)
    then show ?thesis by simp
  next
    case False
    then obtain j' where j': "j' < length cs" "j' \<noteq> j" "cs ! j' = cs ! j"
      by (auto simp: uniq_def)
    with j have "2 \<le> length (dupnamesidx cs (cs ! j))" by (intro duplicate_length)
    with False j have "cs ! j \<in> set (dupkeys cs)" by (simp add: set_dupkeys)
    moreover have "j \<in> set (dupnamesidx cs (cs ! j))" using j by (simp add: set_dupnamesidx)
    ultimately show ?thesis by blast
  qed
  moreover have "\<forall>name\<in>set (dupkeys cs). \<forall>i\<in>set (dupnamesidx cs name). i < length ?fixed"
    by (simp add: set_dupnamesidx len)
  moreover have "j < length ?fixed" using j len by simp
  ultimately show ?thesis
    unfolding fixColnames_eq by (rule foldl_fix_uniq[rotated 2])
qed

lemma distinct_fixColnames: "distinct (fixColnames cs)"
  unfolding distinct_conv_nth
proof (intro allI impI)
  fix i j assume "i < length (fixColnames cs)" "j < length (fixColnames cs)" "i \<noteq> j"
  with fixColnames_uniq[of j cs] show "fixColnames cs ! i \<noteq> fixColnames cs ! j"
    by (simp add: uniq_def length_fixColnames)
qed

lemma fixColnames_missing:
  assumes "j < length cs" "cs ! j = []"
  shows "\<exists>k. fixColnames cs ! j = ''X'' @ itoa_nat k"
proof -
  have "\<forall>name\<in>set (dupkeys cs). j \<notin> set (dupnamesidx cs name)"
    using assms by (auto simp: set_dupkeys set_dupnamesidx)
  then have "fixColnames cs ! j = fix_places ''X'' (missingnames cs) 0 cs ! j"
    unfolding fixColnames_eq by (rule foldl_fix_untouched)
  moreover have "\<exists>k. fix_places ''X'' (missingnames cs) 0 cs ! j = ''X'' @ itoa_nat k"
    by (rule fix_places_shape) (use assms in \<open>simp_all add: set_missingnames\<close>)
  ultimately show ?thesis by simp
qed

lemma fixColnames_duplicate:
  assumes "j < length cs" "cs ! j \<noteq> []" "j' < length cs" "j' \<noteq> j" "cs ! j' = cs ! j"
  shows "\<exists>k. fixColnames cs ! j = cs ! j @ ''_'' @ itoa_nat k"
proof -
  have "2 \<le> length (dupnamesidx cs (cs ! j))"
    using assms(1,3,4,5) by (rule duplicate_length)
  with assms have key: "cs ! j \<in> set (dupkeys cs)" by (simp add: set_dupkeys)
  have "\<exists>k. foldl (\<lambda>cs' name. fix_places ((if name = [] then ''X'' else name) @ ''_'')
                 (dupnamesidx cs name) 0 cs') (fix_places ''X'' (missingnames cs) 0 cs) (dupkeys cs) ! j
            = ((if cs ! j = [] then ''X'' else cs ! j) @ ''_'') @ itoa_nat k"
  proof (rule foldl_fix_shape)
    show "distinct (dupkeys cs)" by (rule distinct_dupkeys)
    show "cs ! j \<in> set (dupkeys cs)" by (rule key)
    show "j \<in> set (dupnamesidx cs (cs ! j))" using assms(1) by (simp add: set_dupnamesidx)
    show "j < length (fix_places ''X'' (missingnames cs) 0 cs)"
      using assms(1) by (simp add: length_fix_places)
    show "\<forall>n\<in>set (dupkeys cs). n \<noteq> cs ! j \<longrightarrow> j \<notin> set (dupnamesidx cs n)"
      by (auto simp: set_dupnamesidx)
  qed
  with assms(2) show ?thesis by (simp add: fixColnames_eq)
qed

lemma fixColnames_single:
  assumes "j < length cs" "cs ! j \<noteq> []" "uniq cs j"
  shows "fixColnames cs ! j = cs ! j"
proof -
  have "length (dupnamesidx cs (cs ! j)) = 1"
    using assms(3,1) by (rule uniq_length)
  then have "\<forall>name\<in>set (dupkeys cs). j \<notin> set (dupnamesidx cs name)"
    by (auto simp: set_dupkeys set_dupnamesidx)
  then have "fixColnames cs ! j = fix_places ''X'' (missingnames cs) 0 cs ! j"
    unfolding fixColnames_eq by (rule foldl_fix_untouched)
  moreover have "j \<notin> set (missingnames cs)" using assms(2) by (simp add: set_missingnames)
  ultimately show ?thesis by (simp add: fix_places_untouched)
qed

lemma Names_rename_columns:
  "length cols = length colnames \<Longrightarrow> map Name (rename_columns cols colnames) = colnames"
  by (induction cols colnames rule: list_induct2) (simp_all add: rename_columns_def)

lemma Names_DataFrame_New:
  assumes "dfErr (DataFrame_New se) = None"
  shows "Names (DataFrame_New se) = fixColnames (map Name se)"
proof -
  from assms have ne: "se \<noteq> []"
    by (auto simp: DataFrame_New_def error_DataFrame_def)
  have names: "map Name (map Series_Copy se) = map Name se"
    by (simp add: Series_Copy_def comp_def)
  from assms ne obtain n m where "checkColumnsDimensions (map Series_Copy se) = Inr (n, m)"
    by (cases "checkColumnsDimensions (map Series_Copy se)")
       (auto simp: DataFrame_New_def error_DataFrame_def)
  with ne have "Names (DataFrame_New se) =
      map Name (rename_columns (map Series_Copy se) (fixColnames (map Name (map Series_Copy se))))"
    by (simp add: DataFrame_New_def Names_def Let_def)
  also have "\<dots> = fixColnames (map Name (map Series_Copy se))"
    by (rule Names_rename_columns) (simp add: length_fixColnames)
  finally show ?thesis by (simp only: names)
qed

subsection \<open>Which number each place receives\<close>

lemma digit_char_code: "d < 10 \<Longrightarrow> of_char (digit_char d) = 48 + d"
  by (simp add: digit_char_def)

lemma digit_char_inj:
  assumes "a < 10" "b < 10" "digit_char a = digit_char b"
  shows "a = b"
proof -
  have "(of_char (digit_char a) :: nat) = of_char (digit_char b)"
    by (simp only: assms(3))
  then have "48 + a = 48 + b"
    by (simp only: digit_char_code[OF assms(1)] digit_char_code[OF assms(2)])
  then show ?thesis by simp
qed

lemma digit_char_not_underscore: "d < 10 \<Longrightarrow> digit_char d \<noteq> CHR ''_''"
proof
  assume d: "d < 10" and "digit_char d = CHR ''_''"
  then have "(of_char (digit_char d) :: nat) = of_char (CHR ''_'')" by (simp only:)
  then have "48 + d = (of_char (CHR ''_'') :: nat)" by (simp only: digit_char_code[OF d])
  with d show False by simp
qed

lemma itoa_nat_nonempty: "itoa_nat n \<noteq> []"
  by (subst itoa_nat.simps) simp

lemma itoa_nat_inj: "itoa_nat m = itoa_nat n \<Longrightarrow> m = n"
proof (induction m arbitrary: n rule: itoa_nat.induct)
  case (1 m)
  show ?case
  proof (cases "m < 10")
    case True
    show ?thesis
    proof (cases "n < 10")
      case True
      with \<open>m < 10\<close> "1.prems" show ?thesis
        by (subst (asm) itoa_nat.simps, subst (asm) (2) itoa_nat.simps) (simp add: digit_char_inj)
    next
      case False
      with \<open>m < 10\<close> "1.prems" itoa_nat_nonempty[of "n div 10"] show ?thesis
        by (subst (asm) itoa_nat.simps, subst (asm) (2) itoa_nat.simps) simp
    qed
  next
    case False
    show ?thesis
    proof (cases "n < 10")
      case True
      with \<open>\<not> m < 10\<close> "1.prems" itoa_nat_nonempty[of "m div 10"] show ?thesis
        by (subst (asm) itoa_nat.simps, subst (asm) (2) itoa_nat.simps) simp
    next
      case n: False
      from False n "1.prems"
      have eq: "itoa_nat (m div 10) @ [digit_char (m mod 10)] = itoa_nat (n div 10) @ [digit_char (n mod 10)]"
        by (subst (asm) itoa_nat.simps, subst (asm) (2) itoa_nat.simps) simp
      then have "itoa_nat (m div 10) = itoa_nat (n div 10)" and d: "digit_char (m mod 10) = digit_char (n mod 10)"
        by simp_all
      with "1.IH"[OF False] have "m div 10 = n div 10" by blast
      moreover from d have "m mod 10 = n mod 10" by (intro digit_char_inj) simp_all
      ultimately show ?thesis by (metis div_mult_mod_eq)
    qed
  qed
qed

lemma itoa_nat_no_underscore: "CHR ''_'' \<notin> set (itoa_nat n)"
proof (induction n rule: itoa_nat.induct)
  case (1 n)
  show ?case
  proof (cases "n < 10")
    case True
    then show ?thesis
      using digit_char_not_underscore[of n] by (subst itoa_nat.simps) auto
  next
    case False
    with "1.IH" digit_char_not_underscore[of "n mod 10"] show ?thesis
      by (subst itoa_nat.simps) auto
  qed
qed

lemma numbered_inj: "p @ itoa_nat j = p @ itoa_nat k \<Longrightarrow> j = k"
  by (simp add: itoa_nat_inj)

lemma split_at_last:
  "x \<notin> set u \<Longrightarrow> x \<notin> set v \<Longrightarrow> a @ x # u = b @ x # v \<Longrightarrow> a = b \<and> u = v"
proof (induction a arbitrary: b)
  case Nil
  then show ?case by (cases b) auto
next
  case (Cons y a)
  then show ?case by (cases b) auto
qed

lemma suffixed_inj:
  assumes "a @ ''_'' @ itoa_nat j = b @ ''_'' @ itoa_nat k"
  shows "a = b \<and> j = k"
proof -
  from assms have "a @ CHR ''_'' # itoa_nat j = b @ CHR ''_'' # itoa_nat k" by simp
  with itoa_nat_no_underscore[of j] itoa_nat_no_underscore[of k]
  have "a = b \<and> itoa_nat j = itoa_nat k" by (rule split_at_last)
  then show ?thesis by (simp add: itoa_nat_inj)
qed

lemma X_not_suffixed: "''X'' @ itoa_nat k \<noteq> n @ ''_'' @ itoa_nat j"
proof
  assume "''X'' @ itoa_nat k = n @ ''_'' @ itoa_nat j"
  then have "set (''X'' @ itoa_nat k) = set (n @ ''_'' @ itoa_nat j)" by simp
  then have "CHR ''_'' \<in> set (''X'' @ itoa_nat k)" by simp
  with itoa_nat_no_underscore[of k] show False by simp
qed

lemma less_suffixed: "n < n @ ''_'' @ itoa_nat k"
  by (simp add: list_less_def lexord_append_rightI)

lemma next_free_ge: "c \<le> next_free p c cs"
proof (induction p c cs rule: next_free.induct)
  case (1 prefix counter colnames)
  show ?case
  proof (cases "findInStringSlice (prefix @ itoa_nat counter) colnames \<noteq> - 1")
    case True
    with "1.IH" show ?thesis by (subst next_free.simps) simp
  next
    case False
    then show ?thesis by (subst next_free.simps) simp
  qed
qed

lemma next_free_taken: "c \<le> k \<Longrightarrow> k < next_free p c cs \<Longrightarrow> p @ itoa_nat k \<in> set cs"
proof (induction p c cs rule: next_free.induct)
  case (1 prefix counter colnames)
  show ?case
  proof (cases "findInStringSlice (prefix @ itoa_nat counter) colnames \<noteq> - 1")
    case True
    then have n: "next_free prefix counter colnames = next_free prefix (counter + 1) colnames"
      by (subst next_free.simps) simp
    show ?thesis
    proof (cases "k = counter")
      case True
      with \<open>findInStringSlice (prefix @ itoa_nat counter) colnames \<noteq> - 1\<close> show ?thesis
        by (simp add: findInStringSlice_notin)
    next
      case False
      with "1.prems" have "counter + 1 \<le> k" by simp
      with "1.IH"[OF True] "1.prems" n show ?thesis by simp
    qed
  next
    case False
    then have "next_free prefix counter colnames = counter"
      by (subst next_free.simps) simp
    with "1.prems" show ?thesis by simp
  qed
qed

lemma filter_from:
  assumes "c \<le> m" "m < N" "F m" "\<forall>k. c \<le> k \<and> k < m \<longrightarrow> \<not> F k"
  shows "filter F [c..<N] = m # filter F [Suc m..<N]"
proof -
  from assms(2) obtain d where N: "N = m + d" using less_imp_add_positive by blast
  have "[c..<N] = [c..<m] @ [m..<N]"
    unfolding N using assms(1) by (rule upt_add_eq_append)
  moreover have "[m..<N] = m # [Suc m..<N]"
    using assms(2) by (rule upt_conv_Cons)
  ultimately have "[c..<N] = [c..<m] @ m # [Suc m..<N]" by simp
  moreover have "filter F [c..<m] = []" using assms(4) by (simp add: filter_empty_conv)
  ultimately show ?thesis using assms(3) by simp
qed

lemma set_update_other:
  assumes "i < length cs" "x \<noteq> v" "x \<noteq> cs ! i"
  shows "(x \<in> set (cs[i := v])) = (x \<in> set cs)"
proof
  assume "x \<in> set (cs[i := v])"
  then have "x \<in> insert v (set cs)" using set_update_subset_insert[of cs i v] by (rule subsetD[rotated])
  with assms(2) show "x \<in> set cs" by simp
next
  assume "x \<in> set cs"
  then obtain j where j: "j < length cs" "cs ! j = x" by (auto simp: in_set_conv_nth)
  with assms(3) have "j \<noteq> i" by auto
  with j have "cs[i := v] ! j = x" "j < length (cs[i := v])" by simp_all
  then show "x \<in> set (cs[i := v])" using nth_mem[of j "cs[i := v]"] by simp
qed

lemma free_numbers_enough: "length names \<le> length (free_numbers p names)"
proof -
  let ?N = "2 * length names"
  let ?T = "\<lambda>k. p @ itoa_nat k \<in> set names"
  have "length (filter ?T [0..<?N]) = card (set (filter ?T [0..<?N]))"
    by (rule distinct_card[symmetric]) simp
  also have "\<dots> \<le> card (set names)"
  proof (rule card_inj_on_le[where f = "\<lambda>k. p @ itoa_nat k"])
    show "inj_on (\<lambda>k. p @ itoa_nat k) (set (filter ?T [0..<?N]))"
      by (rule inj_onI) (simp add: itoa_nat_inj)
    show "(\<lambda>k. p @ itoa_nat k) ` set (filter ?T [0..<?N]) \<subseteq> set names" by auto
    show "finite (set names)" by simp
  qed
  also have "\<dots> \<le> length names" by (rule card_length)
  finally have taken: "length (filter ?T [0..<?N]) \<le> length names" .
  have "length (filter ?T [0..<?N]) + length (filter (\<lambda>k. \<not> ?T k) [0..<?N]) = ?N"
    using sum_length_filter_compl[of ?T "[0..<?N]"] by simp
  with taken show ?thesis by (simp add: free_numbers_def)
qed

lemma take_as_map: "i \<le> length xs \<Longrightarrow> take i xs = map ((!) xs) [0..<i]"
  by (rule nth_equalityI) auto

lemma length_filter_take:
  assumes "i \<le> length xs"
  shows "length (filter P (take i xs)) = length (filter (\<lambda>j. P (xs ! j)) [0..<i])"
proof -
  have "filter P (map ((!) xs) [0..<i]) = map ((!) xs) (filter (P \<circ> (!) xs) [0..<i])"
    by (rule filter_map)
  then have "length (filter P (map ((!) xs) [0..<i])) = length (filter (P \<circ> (!) xs) [0..<i])"
    by (simp only: length_map)
  also have "P \<circ> (!) xs = (\<lambda>j. P (xs ! j))" by (rule ext) (simp only: comp_apply)
  finally show ?thesis by (simp only: take_as_map[OF assms])
qed

lemma upt_split:
  assumes "i < n"
  shows "[0..<n] = [0..<i] @ i # [Suc i..<n]"
proof -
  from assms obtain d where N: "n = i + d" using less_imp_add_positive by blast
  have "[0..<n] = [0..<i] @ [i..<n]"
    unfolding N by (rule upt_add_eq_append) simp
  moreover have "[i..<n] = i # [Suc i..<n]"
    using assms by (rule upt_conv_Cons)
  ultimately show ?thesis by (simp only:)
qed

lemma place_index:
  assumes "i < length xs" "P (xs ! i)"
  shows "length (filter P (take i xs)) < length (filter (\<lambda>j. P (xs ! j)) [0..<length xs]) \<and>
         filter (\<lambda>j. P (xs ! j)) [0..<length xs] ! length (filter P (take i xs)) = i"
proof -
  let ?Q = "\<lambda>j. P (xs ! j)"
  have l: "length (filter P (take i xs)) = length (filter ?Q [0..<i])"
    using assms(1) by (intro length_filter_take) simp
  have "filter ?Q ([0..<i] @ i # [Suc i..<length xs]) = filter ?Q [0..<i] @ i # filter ?Q [Suc i..<length xs]"
    using assms(2) by (simp only: filter_append filter.simps if_True)
  then have f: "filter ?Q [0..<length xs] = filter ?Q [0..<i] @ i # filter ?Q [Suc i..<length xs]"
    by (simp only: upt_split[OF assms(1), symmetric])
  show ?thesis
    unfolding l f by (simp add: nth_append)
qed

lemma fix_places_numbering:
  assumes "distinct places"
    and "\<forall>i\<in>set places. i < length cur \<and> (\<forall>k. cur ! i \<noteq> p @ itoa_nat k)"
    and "\<forall>k\<ge>c. (p @ itoa_nat k \<in> set cur) = (p @ itoa_nat k \<in> set ref)"
    and "t < length places"
    and "t < length (filter (\<lambda>k. p @ itoa_nat k \<notin> set ref) [c..<N])"
  shows "fix_places p places c cur ! (places ! t) =
           p @ itoa_nat (filter (\<lambda>k. p @ itoa_nat k \<notin> set ref) [c..<N] ! t)"
  using assms
proof (induction places arbitrary: c cur t)
  case Nil
  then show ?case by simp
next
  case (Cons i places)
  let ?F = "\<lambda>k. p @ itoa_nat k \<notin> set ref"
  let ?m = "next_free p c cur"
  let ?v = "p @ itoa_nat ?m"
  let ?cur = "cur[i := ?v]"
  have i: "i < length cur" "i \<notin> set places" and old: "\<forall>k. cur ! i \<noteq> p @ itoa_nat k"
    using Cons.prems(1,2) by simp_all
  have ge: "c \<le> ?m" by (rule next_free_ge)
  have Fm: "?F ?m" using next_free_fresh[of p c cur] Cons.prems(3) ge by simp
  have below: "\<forall>k. c \<le> k \<and> k < ?m \<longrightarrow> \<not> ?F k"
    using next_free_taken[of c _ p cur] Cons.prems(3) by simp
  from Cons.prems(5) have "filter ?F [c..<N] \<noteq> []" by auto
  then obtain k where k: "c \<le> k" "k < N" "?F k" by (auto simp: filter_empty_conv)
  with below have "\<not> k < ?m" by blast
  with k(2) have mN: "?m < N" by simp
  have fl: "filter ?F [c..<N] = ?m # filter ?F [Suc ?m..<N]"
    using ge mN Fm below by (rule filter_from)
  have step: "fix_places p (i # places) c cur = fix_places p places (?m + 1) ?cur"
    by (simp add: Let_def)
  show ?case
  proof (cases t)
    case 0
    have "fix_places p places (?m + 1) ?cur ! i = ?cur ! i"
      using i(2) by (rule fix_places_untouched)
    with i(1) 0 fl step show ?thesis by simp
  next
    case (Suc t')
    have d: "distinct places" using Cons.prems(1) by simp
    have pl: "\<forall>j\<in>set places. j < length ?cur \<and> (\<forall>k. ?cur ! j \<noteq> p @ itoa_nat k)"
    proof
      fix j assume j: "j \<in> set places"
      with i(2) have "j \<noteq> i" by auto
      with j Cons.prems(2) show "j < length ?cur \<and> (\<forall>k. ?cur ! j \<noteq> p @ itoa_nat k)" by simp
    qed
    have inv: "\<forall>k\<ge>?m + 1. (p @ itoa_nat k \<in> set ?cur) = (p @ itoa_nat k \<in> set ref)"
    proof (intro allI impI)
      fix k assume k: "?m + 1 \<le> k"
      then have "p @ itoa_nat k \<noteq> ?v" using numbered_inj[of p k ?m] by auto
      moreover have "p @ itoa_nat k \<noteq> cur ! i" using old by metis
      ultimately have "(p @ itoa_nat k \<in> set ?cur) = (p @ itoa_nat k \<in> set cur)"
        using i(1) by (intro set_update_other)
      also have "\<dots> = (p @ itoa_nat k \<in> set ref)" using Cons.prems(3) k ge by simp
      finally show "(p @ itoa_nat k \<in> set ?cur) = (p @ itoa_nat k \<in> set ref)" .
    qed
    have t': "t' < length places" using Cons.prems(4) Suc by simp
    have t'': "t' < length (filter ?F [?m + 1..<N])" using Cons.prems(5) Suc fl by simp
    from Cons.IH[OF d pl inv t' t''] Suc fl step show ?thesis by simp
  qed
qed

lemma fixColnames_missing_number:
  assumes i: "i < length cs" and e: "cs ! i = []"
  shows "fixColnames cs ! i =
           ''X'' @ itoa_nat (free_numbers ''X'' cs ! length (filter (\<lambda>n. n = []) (take i cs)))"
proof -
  let ?t = "length (filter (\<lambda>n. n = []) (take i cs))"
  have "\<forall>name\<in>set (dupkeys cs). i \<notin> set (dupnamesidx cs name)"
    using assms by (auto simp: set_dupkeys set_dupnamesidx)
  then have fc: "fixColnames cs ! i = fix_places ''X'' (missingnames cs) 0 cs ! i"
    unfolding fixColnames_eq by (rule foldl_fix_untouched)
  have pi: "?t < length (missingnames cs) \<and> missingnames cs ! ?t = i"
    unfolding missingnames_def using i e by (rule place_index)
  have "length (missingnames cs) \<le> length cs"
    using length_filter_le[of "\<lambda>i. cs ! i = []" "[0..<length cs]"] by (simp add: missingnames_def)
  with pi free_numbers_enough[of cs "''X''"] have t: "?t < length (free_numbers ''X'' cs)" by simp
  have "fix_places ''X'' (missingnames cs) 0 cs ! (missingnames cs ! ?t) =
          ''X'' @ itoa_nat (filter (\<lambda>k. ''X'' @ itoa_nat k \<notin> set cs) [0..<2 * length cs] ! ?t)"
  proof (rule fix_places_numbering)
    show "distinct (missingnames cs)" by (simp add: missingnames_def)
    show "\<forall>j\<in>set (missingnames cs). j < length cs \<and> (\<forall>k. cs ! j \<noteq> ''X'' @ itoa_nat k)"
      by (simp add: set_missingnames)
    show "\<forall>k\<ge>0. (''X'' @ itoa_nat k \<in> set cs) = (''X'' @ itoa_nat k \<in> set cs)" by simp
    show "?t < length (missingnames cs)" using pi by simp
    show "?t < length (filter (\<lambda>k. ''X'' @ itoa_nat k \<notin> set cs) [0..<2 * length cs])"
      using t by (simp add: free_numbers_def)
  qed
  with pi fc show ?thesis by (simp add: free_numbers_def)
qed

lemma suffixed_longer: "n \<noteq> n @ ''_'' @ itoa_nat k"
proof
  assume "n = n @ ''_'' @ itoa_nat k"
  then have "length n = length (n @ ''_'' @ itoa_nat k)" by (rule arg_cong)
  then show False by simp
qed

lemma fixColnames_duplicate_number:
  assumes i: "i < length cs" and ne: "cs ! i \<noteq> []"
    and dup: "i' < length cs" "i' \<noteq> i" "cs ! i' = cs ! i"
  shows "fixColnames cs ! i =
           cs ! i @ ''_'' @ itoa_nat (free_numbers (cs ! i @ ''_'') cs !
                                        length (filter (\<lambda>m. m = cs ! i) (take i cs)))"
proof -
  define n where "n = cs ! i"
  define p where "p = n @ ''_''"
  define f where "f = (\<lambda>cs' name. fix_places ((if name = [] then ''X'' else name) @ ''_'')
                        (dupnamesidx cs name) 0 cs')"
  define fixed where "fixed = fix_places ''X'' (missingnames cs) 0 cs"
  let ?t = "length (filter (\<lambda>m. m = n) (take i cs))"
  have nne: "n \<noteq> []" using ne by (simp add: n_def)
  have "2 \<le> length (dupnamesidx cs (cs ! i))"
    using i dup by (rule duplicate_length)
  with i ne have key: "n \<in> set (dupkeys cs)" by (simp add: set_dupkeys n_def)
  then obtain ks1 ks2 where ks: "dupkeys cs = ks1 @ n # ks2" by (auto dest: split_list)
  have dk: "distinct (ks1 @ n # ks2)" using distinct_dupkeys[of cs] by (simp only: ks)
  have "sorted (dupkeys cs)" by (simp add: dupkeys_def)
  then have "sorted (ks1 @ n # ks2)" by (simp only: ks)
  then have le: "\<forall>m\<in>set ks1. m \<le> n" by (simp add: sorted_append)
  have before: "\<forall>m\<in>set ks1. m < n"
  proof
    fix m assume m: "m \<in> set ks1"
    with le have "m \<le> n" by blast
    moreover from m dk have "m \<noteq> n" by auto
    ultimately show "m < n" by (rule le_neq_trans)
  qed
  have names: "\<forall>m\<in>set ks1 \<union> set ks2. m \<noteq> [] \<and> m \<noteq> n \<and> m \<in> set (dupkeys cs)"
    using dk set_dupkeys[of cs] by (auto simp: ks)
  define cur1 where "cur1 = foldl f fixed ks1"
  have len1: "length cur1 = length cs"
    by (simp add: cur1_def f_def fixed_def length_foldl_fix length_fix_places)
  have fc: "fixColnames cs = foldl f (f cur1 n) ks2"
    by (simp add: fixColnames_eq ks f_def cur1_def fixed_def)
  have ipl: "i \<in> set (dupnamesidx cs n)" using i by (simp add: set_dupnamesidx n_def)
  have "\<forall>name\<in>set ks2. i \<notin> set (dupnamesidx cs name)"
    using names by (auto simp: set_dupnamesidx n_def)
  then have "foldl f (f cur1 n) ks2 ! i = f cur1 n ! i"
    unfolding f_def by (rule foldl_fix_untouched)
  with fc nne have r1: "fixColnames cs ! i = fix_places p (dupnamesidx cs n) 0 cur1 ! i"
    by (simp add: f_def p_def)
  have kept: "cur1 ! j = cs ! j" if j: "j < length cs" "cs ! j \<noteq> []" "cs ! j \<notin> set ks1" for j
  proof -
    have "\<forall>name\<in>set ks1. j \<notin> set (dupnamesidx cs name)"
      using j by (auto simp: set_dupnamesidx)
    then have "foldl f fixed ks1 ! j = fixed ! j"
      unfolding f_def by (rule foldl_fix_untouched)
    moreover have "j \<notin> set (missingnames cs)" using j by (simp add: set_missingnames)
    ultimately show ?thesis by (simp add: cur1_def fixed_def fix_places_untouched)
  qed
  have shape: "cur1 ! j = cs ! j \<or> (\<exists>k. cur1 ! j = ''X'' @ itoa_nat k) \<or>
               (\<exists>m\<in>set ks1. \<exists>k. cur1 ! j = m @ ''_'' @ itoa_nat k)" if j: "j < length cs" for j
  proof (cases "cs ! j = []")
    case True
    have "\<forall>name\<in>set ks1. j \<notin> set (dupnamesidx cs name)"
      using True names by (auto simp: set_dupnamesidx)
    then have "foldl f fixed ks1 ! j = fixed ! j"
      unfolding f_def by (rule foldl_fix_untouched)
    moreover have "\<exists>k. fix_places ''X'' (missingnames cs) 0 cs ! j = ''X'' @ itoa_nat k"
      by (rule fix_places_shape) (use j True in \<open>simp_all add: set_missingnames\<close>)
    ultimately show ?thesis by (simp add: cur1_def fixed_def)
  next
    case False
    show ?thesis
    proof (cases "cs ! j \<in> set ks1")
      case True
      have "\<exists>k. foldl (\<lambda>cs' name. fix_places ((if name = [] then ''X'' else name) @ ''_'')
                 (dupnamesidx cs name) 0 cs') fixed ks1 ! j
            = ((if cs ! j = [] then ''X'' else cs ! j) @ ''_'') @ itoa_nat k"
      proof (rule foldl_fix_shape)
        show "distinct ks1" using dk by simp
        show "cs ! j \<in> set ks1" by (rule True)
        show "j \<in> set (dupnamesidx cs (cs ! j))" using j by (simp add: set_dupnamesidx)
        show "j < length fixed" using j by (simp add: fixed_def length_fix_places)
        show "\<forall>n\<in>set ks1. n \<noteq> cs ! j \<longrightarrow> j \<notin> set (dupnamesidx cs n)"
          by (simp add: set_dupnamesidx)
      qed
      with False True show ?thesis by (auto simp: cur1_def f_def)
    next
      case notin: False
      with j False show ?thesis by (simp add: kept)
    qed
  qed
  have inv: "(p @ itoa_nat k \<in> set cur1) = (p @ itoa_nat k \<in> set cs)" for k
  proof
    assume "p @ itoa_nat k \<in> set cur1"
    then obtain j where j: "j < length cs" "cur1 ! j = p @ itoa_nat k"
      by (auto simp: in_set_conv_nth len1)
    from shape[OF j(1)] show "p @ itoa_nat k \<in> set cs"
    proof (elim disjE exE bexE)
      assume "cur1 ! j = cs ! j"
      with j show ?thesis by (metis nth_mem)
    next
      fix k' assume "cur1 ! j = ''X'' @ itoa_nat k'"
      with j(2) have "''X'' @ itoa_nat k' = n @ ''_'' @ itoa_nat k" by (simp add: p_def)
      with X_not_suffixed show ?thesis by blast
    next
      fix m k' assume m: "m \<in> set ks1" and "cur1 ! j = m @ ''_'' @ itoa_nat k'"
      with j(2) have "m @ ''_'' @ itoa_nat k' = n @ ''_'' @ itoa_nat k" by (simp add: p_def)
      then have "m = n" using suffixed_inj by blast
      with m dk show ?thesis by simp
    qed
  next
    assume "p @ itoa_nat k \<in> set cs"
    then obtain j where j: "j < length cs" "cs ! j = p @ itoa_nat k"
      by (auto simp: in_set_conv_nth)
    have "cs ! j \<notin> set ks1"
    proof
      assume "cs ! j \<in> set ks1"
      with before have "cs ! j < n" by blast
      moreover have "n < cs ! j" using less_suffixed[of n k] by (simp add: j(2) p_def)
      ultimately show False by simp
    qed
    moreover have "cs ! j \<noteq> []" by (simp add: j(2) p_def)
    ultimately have "cur1 ! j = p @ itoa_nat k" using kept[OF j(1)] j(2) by simp
    with j(1) len1 show "p @ itoa_nat k \<in> set cur1" by (metis nth_mem)
  qed
  have pi: "?t < length (dupnamesidx cs n) \<and> dupnamesidx cs n ! ?t = i"
    unfolding dupnamesidx_def using i by (rule place_index) (simp add: n_def)
  have "length (dupnamesidx cs n) \<le> length cs"
    using length_filter_le[of "\<lambda>i. cs ! i = n" "[0..<length cs]"] by (simp add: dupnamesidx_def)
  with pi free_numbers_enough[of cs p] have t: "?t < length (free_numbers p cs)" by simp
  have "fix_places p (dupnamesidx cs n) 0 cur1 ! (dupnamesidx cs n ! ?t) =
          p @ itoa_nat (filter (\<lambda>k. p @ itoa_nat k \<notin> set cs) [0..<2 * length cs] ! ?t)"
  proof (rule fix_places_numbering)
    show "distinct (dupnamesidx cs n)" by (rule distinct_dupnamesidx)
    show "\<forall>j\<in>set (dupnamesidx cs n). j < length cur1 \<and> (\<forall>k. cur1 ! j \<noteq> p @ itoa_nat k)"
    proof
      fix j assume "j \<in> set (dupnamesidx cs n)"
      then have j: "j < length cs" "cs ! j = n" by (simp_all add: set_dupnamesidx)
      with nne dk have "cur1 ! j = n" using kept[of j] by simp
      with j(1) len1 suffixed_longer[of n] show "j < length cur1 \<and> (\<forall>k. cur1 ! j \<noteq> p @ itoa_nat k)"
        by (simp add: p_def)
    qed
    show "\<forall>k\<ge>0. (p @ itoa_nat k \<in> set cur1) = (p @ itoa_nat k \<in> set cs)"
      using inv by simp
    show "?t < length (dupnamesidx cs n)" using pi by simp
    show "?t < length (filter (\<lambda>k. p @ itoa_nat k \<notin> set cs) [0..<2 * length cs])"
      using t by (simp add: free_numbers_def)
  qed
  with pi r1 show ?thesis by (simp add: free_numbers_def p_def n_def)
qed

lemma free_numbers_none_taken:
  assumes "\<forall>k. p @ itoa_nat k \<notin> set names" "t < 2 * length names"
  shows "free_numbers p names ! t = t"
proof -
  have "free_numbers p names = [0..<2 * length names]"
    using assms(1) by (simp add: free_numbers_def)
  with assms(2) show ?thesis by simp
qed

lemma fixColnames_numbered_from_zero:
  assumes "i < length cs"
  shows "cs ! i = [] \<Longrightarrow> \<forall>k. ''X'' @ itoa_nat k \<notin> set cs \<Longrightarrow>
           fixColnames cs ! i = ''X'' @ itoa_nat (length (filter (\<lambda>n. n = []) (take i cs)))"
    and "cs ! i \<noteq> [] \<Longrightarrow> i' < length cs \<Longrightarrow> i' \<noteq> i \<Longrightarrow> cs ! i' = cs ! i \<Longrightarrow>
           \<forall>k. cs ! i @ ''_'' @ itoa_nat k \<notin> set cs \<Longrightarrow>
           fixColnames cs ! i = cs ! i @ ''_'' @ itoa_nat (length (filter (\<lambda>n. n = cs ! i) (take i cs)))"
proof -
  have t: "length (filter P (take i cs)) < 2 * length cs" for P
  proof -
    have "length (filter P (take i cs)) \<le> length (take i cs)" by (rule length_filter_le)
    with assms show ?thesis by simp
  qed
  show "cs ! i = [] \<Longrightarrow> \<forall>k. ''X'' @ itoa_nat k \<notin> set cs \<Longrightarrow>
           fixColnames cs ! i = ''X'' @ itoa_nat (length (filter (\<lambda>n. n = []) (take i cs)))"
    using assms t[of "\<lambda>n. n = []"]
    by (simp add: fixColnames_missing_number free_numbers_none_taken)
  show "cs ! i \<noteq> [] \<Longrightarrow> i' < length cs \<Longrightarrow> i' \<noteq> i \<Longrightarrow> cs ! i' = cs ! i \<Longrightarrow>
           \<forall>k. cs ! i @ ''_'' @ itoa_nat k \<notin> set cs \<Longrightarrow>
           fixColnames cs ! i = cs ! i @ ''_'' @ itoa_nat (length (filter (\<lambda>n. n = cs ! i) (take i cs)))"
    using assms t[of "\<lambda>n. n = cs ! i"] fixColnames_duplicate_number[of i cs i']
      free_numbers_none_taken[of "cs ! i @ ''_''" cs "length (filter (\<lambda>n. n = cs ! i) (take i cs))"]
    by simp
qed

lemma free_numbers_fresh:
  assumes "i < length cs"
  shows "p @ itoa_nat (free_numbers p cs ! length (filter P (take i cs))) \<notin> set cs"
proof -
  have "length (filter P (take i cs)) \<le> length (take i cs)" by (rule length_filter_le)
  with assms free_numbers_enough[of cs p]
  have "length (filter P (take i cs)) < length (free_numbers p cs)" by simp
  then have "free_numbers p cs ! length (filter P (take i cs)) \<in> set (free_numbers p cs)"
    by (rule nth_mem)
  then show ?thesis by (simp add: free_numbers_def)
qed

text \<open>
  Claim C7. When \<open>New\<close> succeeds, the column names of the table are unique. Counting from
  the left and from 0, the \<open>t\<close>-th empty name has been replaced by \<open>X\<close> followed by the
  \<open>t\<close>-th smallest number \<open>k\<close> for which \<open>Xk\<close> is not one of the given names (so \<open>X0\<close>,
  \<open>X1\<close>, ... when no given name has this form), and the \<open>t\<close>-th occurrence of a name
  \<open>n\<close> that several columns have by \<open>n\<close>, an underscore and the \<open>t\<close>-th smallest number
  \<open>k\<close> for which \<open>n_k\<close> is not one of the given names (so \<open>n_0\<close>, \<open>n_1\<close>, ...); every
  other name is as it was, and no synthesized name is one of the given names.
\<close>

theorem New_names_unique:
  assumes "dfErr (DataFrame_New se) = None"
  shows "length (Names (DataFrame_New se)) = length se \<and>
     distinct (Names (DataFrame_New se)) \<and>
     (\<forall>i<length se.
        (Name (se ! i) = [] \<longrightarrow>
           Names (DataFrame_New se) ! i =
             ''X'' @ itoa_nat (free_numbers ''X'' (map Name se) !
                                 length (filter (\<lambda>n. n = []) (take i (map Name se))))) \<and>
        (Name (se ! i) \<noteq> [] \<and> (\<exists>j<length se. j \<noteq> i \<and> Name (se ! j) = Name (se ! i)) \<longrightarrow>
           Names (DataFrame_New se) ! i =
             Name (se ! i) @ ''_'' @
               itoa_nat (free_numbers (Name (se ! i) @ ''_'') (map Name se) !
                           length (filter (\<lambda>n. n = Name (se ! i)) (take i (map Name se))))) \<and>
        (Name (se ! i) \<noteq> [] \<and> \<not> (\<exists>j<length se. j \<noteq> i \<and> Name (se ! j) = Name (se ! i)) \<longrightarrow>
           Names (DataFrame_New se) ! i = Name (se ! i)) \<and>
        (Name (se ! i) = [] \<or> (\<exists>j<length se. j \<noteq> i \<and> Name (se ! j) = Name (se ! i)) \<longrightarrow>
           Names (DataFrame_New se) ! i \<notin> set (map Name se)))"
proof -
  let ?cs = "map Name se"
  have N: "Names (DataFrame_New se) = fixColnames ?cs"
    using assms by (rule Names_DataFrame_New)
  have number: "(Name (se ! i) = [] \<longrightarrow>
           fixColnames ?cs ! i =
             ''X'' @ itoa_nat (free_numbers ''X'' ?cs ! length (filter (\<lambda>n. n = []) (take i ?cs)))) \<and>
        (Name (se ! i) \<noteq> [] \<and> (\<exists>j<length se. j \<noteq> i \<and> Name (se ! j) = Name (se ! i)) \<longrightarrow>
           fixColnames ?cs ! i =
             Name (se ! i) @ ''_'' @
               itoa_nat (free_numbers (Name (se ! i) @ ''_'') ?cs !
                           length (filter (\<lambda>n. n = Name (se ! i)) (take i ?cs)))) \<and>
        (Name (se ! i) \<noteq> [] \<and> \<not> (\<exists>j<length se. j \<noteq> i \<and> Name (se ! j) = Name (se ! i)) \<longrightarrow>
           fixColnames ?cs ! i = Name (se ! i)) \<and>
        (Name (se ! i) = [] \<or> (\<exists>j<length se. j \<noteq> i \<and> Name (se ! j) = Name (se ! i)) \<longrightarrow>
           fixColnames ?cs ! i \<notin> set ?cs)" if i: "i < length se" for i
  proof (intro conjI impI)
    assume "Name (se ! i) = []"
    with i have "?cs ! i = []" "i < length ?cs" by simp_all
    from fixColnames_missing_number[OF this(2,1)]
    show "fixColnames ?cs ! i =
             ''X'' @ itoa_nat (free_numbers ''X'' ?cs ! length (filter (\<lambda>n. n = []) (take i ?cs)))" .
  next
    assume a: "Name (se ! i) \<noteq> [] \<and> (\<exists>j<length se. j \<noteq> i \<and> Name (se ! j) = Name (se ! i))"
    then obtain j where j: "j < length se" "j \<noteq> i" "Name (se ! j) = Name (se ! i)" by blast
    from i a j have "i < length ?cs" "?cs ! i \<noteq> []" "j < length ?cs" "j \<noteq> i" "?cs ! j = ?cs ! i"
      by simp_all
    from fixColnames_duplicate_number[OF this] i
    show "fixColnames ?cs ! i =
             Name (se ! i) @ ''_'' @
               itoa_nat (free_numbers (Name (se ! i) @ ''_'') ?cs !
                           length (filter (\<lambda>n. n = Name (se ! i)) (take i ?cs)))"
      by simp
  next
    assume a: "Name (se ! i) \<noteq> [] \<and> \<not> (\<exists>j<length se. j \<noteq> i \<and> Name (se ! j) = Name (se ! i))"
    with i have "uniq ?cs i" by (auto simp: uniq_def)
    with i a show "fixColnames ?cs ! i = Name (se ! i)"
      using fixColnames_single[of i ?cs] by simp
  next
    assume a: "Name (se ! i) = [] \<or> (\<exists>j<length se. j \<noteq> i \<and> Name (se ! j) = Name (se ! i))"
    have il: "i < length ?cs" using i by simp
    show "fixColnames ?cs ! i \<notin> set ?cs"
    proof (cases "Name (se ! i) = []")
      case True
      with i have "?cs ! i = []" by simp
      from fixColnames_missing_number[OF il this] free_numbers_fresh[OF il, of "''X''" "\<lambda>n. n = []"]
      show ?thesis by simp
    next
      case False
      with a obtain j where j: "j < length se" "j \<noteq> i" "Name (se ! j) = Name (se ! i)" by blast
      from i False j have "?cs ! i \<noteq> []" "j < length ?cs" "j \<noteq> i" "?cs ! j = ?cs ! i"
        by simp_all
      from fixColnames_duplicate_number[OF il this]
        free_numbers_fresh[OF il, of "?cs ! i @ ''_''" "\<lambda>m. m = ?cs ! i"]
      show ?thesis by simp
    qed
  qed
  have len: "length (fixColnames ?cs) = length se" by (simp add: length_fixColnames)
  have dis: "distinct (fixColnames ?cs)" by (rule distinct_fixColnames)
  show ?thesis
    unfolding N by (intro conjI[OF len] conjI[OF dis] allI impI) (erule number)
qed

lemma New_names_scenario:
  "Names (DataFrame_New [Series_New L (IntSlice [1]) Int_t [], Series_New L (IntSlice [2]) Int_t ''a'',
                         Series_New L (IntSlice [3]) Int_t ''a'', Series_New L (IntSlice [4]) Int_t ''X0''])
     = [''X1'', ''a_0'', ''a_1'', ''X0'']"
  by code_simp

theorem New_names_unique_witness:
  "dfErr (DataFrame_New (name_scenario lib0)) = None \<and>
   distinct (Names (DataFrame_New (name_scenario lib0))) \<and>
   Names (DataFrame_New (name_scenario lib0)) ! 0 = ''X1'' \<and>
   Names (DataFrame_New (name_scenario lib0)) ! 1 = ''X2'' \<and>
   Names (DataFrame_New (name_scenario lib0)) ! 2 = ''a_0'' \<and>
   Names (DataFrame_New (name_scenario lib0)) ! 3 = ''a_1'' \<and>
   Names (DataFrame_New (name_scenario lib0)) ! 4 = ''X0''"
proof -
  let ?se = "name_scenario lib0"
  have h: "dfErr (DataFrame_New ?se) = None" by code_simp
  note t = New_names_unique[OF h]
  have l: "0 < length ?se" "1 < length ?se" "2 < length ?se" "3 < length ?se" "4 < length ?se"
    by code_simp+
  have e: "Name (?se ! 0) = []" "Name (?se ! 1) = []" by code_simp+
  have a: "Name (?se ! 2) \<noteq> []" "Name (?se ! 3) \<noteq> []" "Name (?se ! 2) = Name (?se ! 3)"
    by code_simp+
  have d2: "\<exists>j<length ?se. j \<noteq> 2 \<and> Name (?se ! j) = Name (?se ! 2)"
    using l(4) a(3) by (intro exI[of _ 3]) simp
  have d3: "\<exists>j<length ?se. j \<noteq> 3 \<and> Name (?se ! j) = Name (?se ! 3)"
    using l(3) a(3) by (intro exI[of _ 2]) simp
  have s: "Name (?se ! 4) \<noteq> [] \<and> \<not> (\<exists>j<length ?se. j \<noteq> 4 \<and> Name (?se ! j) = Name (?se ! 4))"
    by code_simp
  from t have d: "distinct (Names (DataFrame_New ?se))" by (rule conjunct2[THEN conjunct1])
  from t l(1) e(1) have "Names (DataFrame_New ?se) ! 0 =
      ''X'' @ itoa_nat (free_numbers ''X'' (map Name ?se) ! length (filter (\<lambda>n. n = []) (take 0 (map Name ?se))))"
    by blast
  also have "\<dots> = ''X1''" by code_simp
  finally have n0: "Names (DataFrame_New ?se) ! 0 = ''X1''" .
  from t l(2) e(2) have "Names (DataFrame_New ?se) ! 1 =
      ''X'' @ itoa_nat (free_numbers ''X'' (map Name ?se) ! length (filter (\<lambda>n. n = []) (take 1 (map Name ?se))))"
    by blast
  also have "\<dots> = ''X2''" by code_simp
  finally have n1: "Names (DataFrame_New ?se) ! 1 = ''X2''" .
  from t l(3) a(1) d2 have "Names (DataFrame_New ?se) ! 2 =
      Name (?se ! 2) @ ''_'' @ itoa_nat (free_numbers (Name (?se ! 2) @ ''_'') (map Name ?se) !
         length (filter (\<lambda>n. n = Name (?se ! 2)) (take 2 (map Name ?se))))"
    by blast
  also have "\<dots> = ''a_0''" by code_simp
  finally have n2: "Names (DataFrame_New ?se) ! 2 = ''a_0''" .
  from t l(4) a(2) d3 have "Names (DataFrame_New ?se) ! 3 =
      Name (?se ! 3) @ ''_'' @ itoa_nat (free_numbers (Name (?se ! 3) @ ''_'') (map Name ?se) !
         length (filter (\<lambda>n. n = Name (?se ! 3)) (take 3 (map Name ?se))))"
    by blast
  also have "\<dots> = ''a_1''" by code_simp
  finally have n3: "Names (DataFrame_New ?se) ! 3 = ''a_1''" .
  from t l(5) s have "Names (DataFrame_New ?se) ! 4 = Name (?se ! 4)" by blast
  also have "\<dots> = ''X0''" by code_simp
  finally have n4: "Names (DataFrame_New ?se) ! 4 = ''X0''" .
  from h d n0 n1 n2 n3 n4 show ?thesis by (intro conjI)
qed

section \<open>Joins\<close>

lemma join_scan_no_match:
  "list_all (\<lambda>j. row_match L ctx i j = Some False) js \<Longrightarrow> join_scan L ctx i js st = Some st"
proof (induction js)
  case Nil
  then show ?case by simp
next
  case (Cons j js)
  then show ?case by (cases st) simp
qed

lemma Series_Len_Append:
  assumes "Err c = None"
  shows "Series_Len (Append L c v) = Series_Len c + length (values_list v)"
proof (cases "elements c")
  case (stringElements xs)
  with assms show ?thesis
    by (simp add: Append_def Series_New_def Series_Type_def Series_Len_def)
next
  case (intElements xs)
  with assms show ?thesis
    by (simp add: Append_def Series_New_def Series_Type_def Series_Len_def)
next
  case (floatElements xs)
  with assms show ?thesis
    by (simp add: Append_def Series_New_def Series_Type_def Series_Len_def)
next
  case (boolElements xs)
  with assms show ?thesis
    by (simp add: Append_def Series_New_def Series_Type_def Series_Len_def)
qed

lemma Append_nil_missing:
  assumes "Err c = None"
  shows "IsNA (last (elems (elements (Append L c NilValues))))"
proof (cases "elements c")
  case (stringElements xs)
  with assms show ?thesis
    by (simp add: Append_def Series_New_def Series_Type_def)
next
  case (intElements xs)
  with assms show ?thesis
    by (simp add: Append_def Series_New_def Series_Type_def)
next
  case (floatElements xs)
  with assms show ?thesis
    by (simp add: Append_def Series_New_def Series_Type_def)
next
  case (boolElements xs)
  with assms show ?thesis
    by (simp add: Append_def Series_New_def Series_Type_def)
qed

lemma Series_Len_append_cells:
  assumes "length vals = length cols" "list_all (\<lambda>c. Err c = None) cols"
    and "list_all (\<lambda>v. length (values_list v) = 1) vals"
  shows "map Series_Len (append_cells L cols vals) = map (\<lambda>c. Series_Len c + 1) cols"
  using assms
proof (induction vals cols rule: list_induct2)
  case Nil
  then show ?case by simp
next
  case (Cons v vals c cols)
  then show ?case by (simp add: Series_Len_Append)
qed

lemma drop_append_cells:
  "length ys \<le> length cols \<Longrightarrow>
     drop (length ys) (append_cells L cols (ys @ zs)) = append_cells L (drop (length ys) cols) zs"
proof (induction ys arbitrary: cols)
  case Nil
  then show ?case by simp
next
  case (Cons y ys)
  then show ?case by (cases cols) simp_all
qed

lemma append_cells_nil_missing:
  "length cols = n \<Longrightarrow> list_all (\<lambda>c. Err c = None) cols \<Longrightarrow>
     list_all (\<lambda>c. IsNA (last (elems (elements c)))) (append_cells L cols (replicate n NilValues))"
proof (induction cols arbitrary: n)
  case Nil
  then show ?case by simp
next
  case (Cons c cols)
  then obtain k where "n = Suc k" by (cases n) auto
  with Cons show ?case by (simp add: Append_nil_missing)
qed

lemma LeftJoin_row_unmatched:
  assumes nomatch: "list_all (\<lambda>j. row_match L ctx i j = Some False) [0 .. nrowsB - 1]"
    and row: "read_cells (aCols ctx) (iKeysA ctx @ iNotKeysA ctx) i = Some xs"
    and len: "length cols = length xs + length (iNotKeysB ctx)"
    and ok: "list_all (\<lambda>c. Err c = None) cols"
  shows "LeftJoin_row L ctx nrowsB i cols =
           Some (append_cells L cols (cells xs @ replicate (length (iNotKeysB ctx)) NilValues)) \<and>
         map Series_Len (append_cells L cols (cells xs @ replicate (length (iNotKeysB ctx)) NilValues)) =
           map (\<lambda>c. Series_Len c + 1) cols \<and>
         list_all (\<lambda>c. IsNA (last (elems (elements c))))
           (drop (length xs) (append_cells L cols (cells xs @ replicate (length (iNotKeysB ctx)) NilValues)))"
proof (intro conjI)
  let ?row = "cells xs @ replicate (length (iNotKeysB ctx)) NilValues"
  have "join_scan L ctx i [0 .. nrowsB - 1] (cols, False) = Some (cols, False)"
    using nomatch by (rule join_scan_no_match)
  with row show "LeftJoin_row L ctx nrowsB i cols = Some (append_cells L cols ?row)"
    by (simp add: LeftJoin_row_def left_only_row_def)
  show "map Series_Len (append_cells L cols ?row) = map (\<lambda>c. Series_Len c + 1) cols"
  proof (rule Series_Len_append_cells)
    show "length ?row = length cols" using len by (simp add: cells_def)
    show "list_all (\<lambda>c. Err c = None) cols" by (rule ok)
    show "list_all (\<lambda>v. length (values_list v) = 1) ?row"
      by (auto simp: cells_def list_all_iff)
  qed
  have "drop (length xs) (append_cells L cols ?row) =
        drop (length (cells xs)) (append_cells L cols (cells xs @ replicate (length (iNotKeysB ctx)) NilValues))"
    by (simp add: cells_def)
  also have "\<dots> = append_cells L (drop (length (cells xs)) cols) (replicate (length (iNotKeysB ctx)) NilValues)"
    by (rule drop_append_cells) (use len in \<open>simp add: cells_def\<close>)
  finally have d: "drop (length xs) (append_cells L cols ?row) =
      append_cells L (drop (length xs) cols) (replicate (length (iNotKeysB ctx)) NilValues)"
    by (simp add: cells_def)
  show "list_all (\<lambda>c. IsNA (last (elems (elements c)))) (drop (length xs) (append_cells L cols ?row))"
    unfolding d
  proof (rule append_cells_nil_missing)
    show "length (drop (length xs) cols) = length (iNotKeysB ctx)" using len by simp
    show "list_all (\<lambda>c. Err c = None) (drop (length xs) cols)"
      using ok by (auto simp: list_all_iff dest: in_set_dropD)
  qed
qed


subsection \<open>The left join is the join of its description\<close>

lemma index_Some: "0 \<le> i \<Longrightarrow> i < int (length xs) \<Longrightarrow> index xs i = Some (xs ! nat i)"
  by (simp add: index_def)

lemma those_map_Some: "(\<And>x. x \<in> set xs \<Longrightarrow> f x = Some (g x)) \<Longrightarrow> those (map f xs) = Some (map g xs)"
  by (induction xs) simp_all

lemma read_cells_ok:
  assumes "\<forall>k\<in>set ks. 0 \<le> k \<and> k < int (length cols)"
    and "list_all (\<lambda>c. int (Series_Len c) = n) cols" "0 \<le> i" "i < n"
  shows "read_cells cols ks i = Some (map (\<lambda>k. cell cols k i) ks)"
  unfolding read_cells_def
proof (rule those_map_Some)
  fix k assume "k \<in> set ks"
  with assms(1) have k: "0 \<le> k" "k < int (length cols)" by auto
  then have "cols ! nat k \<in> set cols" by simp
  with assms(2) have "int (Series_Len (cols ! nat k)) = n" by (simp add: list_all_iff)
  with assms(3,4) have "Series_Elem (cols ! nat k) i = Some (cell cols k i)"
    by (simp add: Series_Elem_def cell_def index_Some length_elems Series_Len_def)
  with k show "(case index cols k of None \<Rightarrow> None | Some c \<Rightarrow> Series_Elem c i) = Some (cell cols k i)"
    by (simp add: index_Some)
qed

lemma empties_ok:
  assumes "\<forall>k\<in>set ks. 0 \<le> k \<and> k < int (length cols)"
  shows "empties L cols ks = Some (map (\<lambda>k. Empty L (cols ! nat k)) ks)"
  unfolding empties_def
  by (rule those_map_Some) (use assms in \<open>simp add: index_Some\<close>)

lemma findInStringSlice_lt: "findInStringSlice x xs < int (length xs)"
  by (induction xs) (auto simp: Let_def)

lemma colIndex_range:
  assumes "key \<in> set (Names df)"
  shows "0 \<le> colIndex df key \<and> colIndex df key < int (length (columns df))"
proof -
  have "findInStringSlice key (Names df) \<noteq> - 1"
    using assms by (simp add: findInStringSlice_notin)
  with findInStringSlice_ge[of key "Names df"] have "0 \<le> colIndex df key"
    by (simp add: colIndex_def)
  moreover have "colIndex df key < int (length (columns df))"
    using findInStringSlice_lt[of key "Names df"] by (simp add: colIndex_def Names_def)
  ultimately show ?thesis by simp
qed

lemma inIntSlice_iff: "inIntSlice i is = (i \<in> set is)"
  by (induction "is") auto

lemma join_context_fields:
  "aCols (join_context df b keys) = columns df"
  "bCols (join_context df b keys) = columns b"
  "iKeysA (join_context df b keys) = key_cols df keys"
  "iKeysB (join_context df b keys) = key_cols b keys"
  "iNotKeysA (join_context df b keys) = nonkey_cols df keys"
  "iNotKeysB (join_context df b keys) = nonkey_cols b keys"
  by (simp_all add: join_context_def key_cols_def nonkey_cols_def inIntSlice_iff)

lemma key_cols_range:
  "list_all (\<lambda>key. key \<in> set (Names df)) keys \<Longrightarrow>
     \<forall>k\<in>set (key_cols df keys). 0 \<le> k \<and> k < int (length (columns df))"
  by (auto simp: key_cols_def list_all_iff colIndex_range)

lemma nonkey_cols_range:
  "ncols df = int (length (columns df)) \<Longrightarrow>
     \<forall>k\<in>set (nonkey_cols df keys). 0 \<le> k \<and> k < int (length (columns df))"
  by (auto simp: nonkey_cols_def)

lemma list_all_zip_map:
  "list_all (\<lambda>(a, b). P a b) (zip (map f xs) (map g xs)) = list_all (\<lambda>x. P (f x) (g x)) xs"
  by (induction xs) simp_all

lemma key_errors_none:
  assumes "list_all (\<lambda>key. key \<in> set (Names df) \<and> key \<in> set (Names b)) keys"
  shows "key_errors df b keys = []"
proof -
  have "\<And>key. key \<in> set keys \<Longrightarrow> \<not> colIndex df key < 0 \<and> \<not> colIndex b key < 0"
    using assms colIndex_range by (fastforce simp: list_all_iff)
  then show ?thesis by (simp add: key_errors_def)
qed

lemma joinable_ranges:
  assumes "joinable df b keys"
  shows "\<forall>k\<in>set (key_cols df keys @ nonkey_cols df keys). 0 \<le> k \<and> k < int (length (columns df))"
    and "\<forall>k\<in>set (key_cols b keys). 0 \<le> k \<and> k < int (length (columns b))"
    and "\<forall>k\<in>set (nonkey_cols b keys). 0 \<le> k \<and> k < int (length (columns b))"
    and "\<forall>k\<in>set (key_cols df keys). 0 \<le> k \<and> k < int (length (columns df))"
proof -
  from assms have a: "list_all (\<lambda>key. key \<in> set (Names df)) keys"
    and b: "list_all (\<lambda>key. key \<in> set (Names b)) keys"
    and na: "ncols df = int (length (columns df))" and nb: "ncols b = int (length (columns b))"
    by (auto simp: joinable_def well_formed_def list_all_iff)
  show "\<forall>k\<in>set (key_cols df keys). 0 \<le> k \<and> k < int (length (columns df))"
    using a by (rule key_cols_range)
  then show "\<forall>k\<in>set (key_cols df keys @ nonkey_cols df keys). 0 \<le> k \<and> k < int (length (columns df))"
    using nonkey_cols_range[OF na, of keys] by auto
  show "\<forall>k\<in>set (key_cols b keys). 0 \<le> k \<and> k < int (length (columns b))"
    using b by (rule key_cols_range)
  show "\<forall>k\<in>set (nonkey_cols b keys). 0 \<le> k \<and> k < int (length (columns b))"
    using nb by (rule nonkey_cols_range)
qed

lemma joinable_lengths:
  assumes "joinable df b keys"
  shows "list_all (\<lambda>c. int (Series_Len c) = nrows df) (columns df)"
    and "list_all (\<lambda>c. int (Series_Len c) = nrows b) (columns b)"
  using assms by (simp_all add: joinable_def well_formed_def)

lemma row_match_ok:
  assumes j: "joinable df b keys" and i: "0 \<le> i" "i < nrows df" and jj: "0 \<le> j" "j < nrows b"
  shows "row_match L (join_context df b keys) i j = Some (rows_match L df b keys i j)"
proof -
  have a: "read_cells (columns df) (key_cols df keys) i =
             Some (map (\<lambda>k. cell (columns df) k i) (key_cols df keys))"
    using joinable_ranges(4)[OF j] joinable_lengths(1)[OF j] i by (rule read_cells_ok)
  have b: "read_cells (columns b) (key_cols b keys) j =
             Some (map (\<lambda>k. cell (columns b) k j) (key_cols b keys))"
    using joinable_ranges(2)[OF j] joinable_lengths(2)[OF j] jj by (rule read_cells_ok)
  have m: "list_all (\<lambda>(x, y). Eq L x y)
          (zip (map (\<lambda>key. cell (columns df) (colIndex df key) i) keys)
               (map (\<lambda>key. cell (columns b) (colIndex b key) j) keys)) =
        rows_match L df b keys i j"
    unfolding rows_match_def by (rule list_all_zip_map)
  have ka: "map (\<lambda>k. cell (columns df) k i) (key_cols df keys) =
            map (\<lambda>key. cell (columns df) (colIndex df key) i) keys"
    by (simp add: key_cols_def)
  have kb: "map (\<lambda>k. cell (columns b) k j) (key_cols b keys) =
            map (\<lambda>key. cell (columns b) (colIndex b key) j) keys"
    by (simp add: key_cols_def)
  have "row_match L (join_context df b keys) i j =
        Some (list_all (\<lambda>(x, y). Eq L x y)
          (zip (map (\<lambda>k. cell (columns df) k i) (key_cols df keys))
               (map (\<lambda>k. cell (columns b) k j) (key_cols b keys))))"
    by (simp add: row_match_def join_context_fields a b)
  then show ?thesis
    by (simp only: ka kb m)
qed

lemma left_read_ok:
  assumes j: "joinable df b keys" and i: "0 \<le> i" "i < nrows df"
  shows "read_cells (columns df) (key_cols df keys @ nonkey_cols df keys) i = Some (left_cells df keys i)"
  unfolding left_cells_def
  using joinable_ranges(1)[OF j] joinable_lengths(1)[OF j] i by (rule read_cells_ok)

lemma right_read_ok:
  assumes j: "joinable df b keys" and jj: "0 \<le> j" "j < nrows b"
  shows "read_cells (columns b) (nonkey_cols b keys) j = Some (right_cells b keys j)"
  unfolding right_cells_def
  using joinable_ranges(3)[OF j] joinable_lengths(2)[OF j] jj by (rule read_cells_ok)

lemma matched_row_ok:
  assumes "joinable df b keys" "0 \<le> i" "i < nrows df" "0 \<le> j" "j < nrows b"
  shows "matched_row (join_context df b keys) i j =
           Some (cells (left_cells df keys i) @ cells (right_cells b keys j))"
  using left_read_ok[OF assms(1,2,3)] right_read_ok[OF assms(1,4,5)]
  by (simp add: matched_row_def join_context_fields)

lemma left_only_row_ok:
  assumes "joinable df b keys" "0 \<le> i" "i < nrows df"
  shows "left_only_row (join_context df b keys) i =
           Some (cells (left_cells df keys i) @ replicate (length (nonkey_cols b keys)) NilValues)"
  using left_read_ok[OF assms]
  by (simp add: left_only_row_def join_context_fields)

lemma join_scan_spec:
  assumes "\<forall>j\<in>set js. row_match L ctx i j = Some (M j) \<and> matched_row ctx i j = Some (R j)"
  shows "join_scan L ctx i js (cols, m) =
           Some (foldl (append_cells L) cols (map R (filter M js)), m \<or> filter M js \<noteq> [])"
  using assms
proof (induction js arbitrary: cols m)
  case Nil
  then show ?case by simp
next
  case (Cons j js)
  then show ?case by (cases "M j") simp_all
qed

lemma for_each_spec:
  assumes "\<And>x st. x \<in> set xs \<Longrightarrow> body x st = Some (foldl g st (f x))"
  shows "for_each body xs st = Some (foldl g st (concat (map f xs)))"
  using assms
proof (induction xs arbitrary: st)
  case Nil
  then show ?case by simp
next
  case (Cons x xs)
  then show ?case by simp
qed

lemma in_upto: "x \<in> set [0 .. n - 1] \<longleftrightarrow> 0 \<le> x \<and> x < n"
  by auto

lemma LeftJoin_row_spec:
  assumes j: "joinable df b keys" and i: "0 \<le> i" "i < nrows df"
  shows "LeftJoin_row L (join_context df b keys) (nrows b) i cols =
           Some (foldl (append_cells L) cols (LeftJoin_rows L df b keys i))"
proof -
  let ?ctx = "join_context df b keys"
  let ?M = "rows_match L df b keys i"
  let ?R = "\<lambda>j. cells (left_cells df keys i) @ cells (right_cells b keys j)"
  let ?js = "[0 .. nrows b - 1]"
  have "\<forall>j\<in>set ?js. row_match L ?ctx i j = Some (?M j) \<and> matched_row ?ctx i j = Some (?R j)"
    using row_match_ok[OF j i] matched_row_ok[OF j i] by (simp add: in_upto)
  then have scan: "join_scan L ?ctx i ?js (cols, False) =
      Some (foldl (append_cells L) cols (map ?R (filter ?M ?js)), False \<or> filter ?M ?js \<noteq> [])"
    by (rule join_scan_spec)
  show ?thesis
  proof (cases "filter ?M ?js = []")
    case True
    with scan left_only_row_ok[OF j i] show ?thesis
      by (simp add: LeftJoin_row_def LeftJoin_rows_def matching_rows_def)
  next
    case False
    with scan show ?thesis
      by (simp add: LeftJoin_row_def LeftJoin_rows_def matching_rows_def)
  qed
qed

lemma new_columns_ok:
  assumes j: "joinable df b keys"
  shows "new_columns L (join_context df b keys) = Some (join_columns L df b keys)"
  using empties_ok[OF joinable_ranges(1)[OF j], of L] empties_ok[OF joinable_ranges(3)[OF j], of L]
  by (simp add: new_columns_def join_context_fields join_columns_def)

lemma LeftJoin_refines:
  assumes j: "joinable df b keys"
  shows "LeftJoin L df b keys = Some (LeftJoin_spec L df b keys)"
proof -
  from j have keys: "keys \<noteq> []" and found: "key_errors df b keys = []"
    by (simp_all add: joinable_def key_errors_none)
  have "for_each (LeftJoin_row L (join_context df b keys) (nrows b)) [0 .. nrows df - 1]
          (join_columns L df b keys) =
        Some (foldl (append_cells L) (join_columns L df b keys)
                (concat (map (LeftJoin_rows L df b keys) [0 .. nrows df - 1])))"
    by (rule for_each_spec) (simp add: LeftJoin_row_spec[OF j] in_upto)
  with keys found new_columns_ok[OF j, of L] show ?thesis
    by (simp add: LeftJoin_def LeftJoin_spec_def)
qed

lemma Err_Append: "Err (Append L c v) = Err c"
  by (simp add: Append_def Let_def)

lemma length_append_cells: "length row = length cols \<Longrightarrow> length (append_cells L cols row) = length cols"
  by (induction row cols rule: list_induct2) simp_all

lemma even_append_cells:
  assumes "length row = length cols" "list_all (\<lambda>v. length (values_list v) = 1) row"
    and "list_all (\<lambda>c. Err c = None \<and> Series_Len c = n) cols"
  shows "list_all (\<lambda>c. Err c = None \<and> Series_Len c = Suc n) (append_cells L cols row)"
  using assms
proof (induction row cols rule: list_induct2)
  case Nil
  then show ?case by simp
next
  case (Cons v row c cols)
  then show ?case by (simp add: Series_Len_Append Err_Append)
qed

lemma even_foldl_append_cells:
  assumes "\<forall>row\<in>set rows. length row = length cols \<and> list_all (\<lambda>v. length (values_list v) = 1) row"
    and "list_all (\<lambda>c. Err c = None \<and> Series_Len c = n) cols"
  shows "list_all (\<lambda>c. Err c = None \<and> Series_Len c = n + length rows) (foldl (append_cells L) cols rows) \<and>
         length (foldl (append_cells L) cols rows) = length cols"
  using assms
proof (induction rows arbitrary: cols n)
  case Nil
  then show ?case by simp
next
  case (Cons row rows)
  have l: "length (append_cells L cols row) = length cols"
    using Cons.prems(1) by (simp add: length_append_cells)
  have e: "list_all (\<lambda>c. Err c = None \<and> Series_Len c = Suc n) (append_cells L cols row)"
    using Cons.prems by (intro even_append_cells) simp_all
  have "\<forall>r\<in>set rows. length r = length (append_cells L cols row) \<and>
          list_all (\<lambda>v. length (values_list v) = 1) r"
    using Cons.prems(1) l by simp
  from Cons.IH[OF this e] l show ?case by simp
qed

lemma Series_Copy_id: "Series_Copy s = s"
  by (simp add: Series_Copy_def)

lemma check_rows_even:
  "list_all (\<lambda>c. Err c = None \<and> Series_Len c = n) se \<Longrightarrow> check_rows i (int n) se = Inr (int n)"
  by (induction se arbitrary: i) simp_all

lemma check_rows_first:
  "se \<noteq> [] \<Longrightarrow> list_all (\<lambda>c. Err c = None \<and> Series_Len c = n) se \<Longrightarrow>
     check_rows i (- 1) se = Inr (int n)"
  by (cases se) (simp_all add: check_rows_even)

lemma DataFrame_New_even:
  assumes "se \<noteq> []" "list_all (\<lambda>c. Err c = None \<and> Series_Len c = n) se"
  shows "dfErr (DataFrame_New se) = None \<and> nrows (DataFrame_New se) = int n \<and>
         ncols (DataFrame_New se) = int (length se)"
proof -
  have "map Series_Copy se = se" by (simp add: Series_Copy_id map_idI)
  with assms show ?thesis
    by (simp add: DataFrame_New_def checkColumnsDimensions_def check_rows_first Let_def)
qed

lemma Empty_even: "Err (Empty L c) = None \<and> Series_Len (Empty L c) = 0"
  by (cases "Series_Type c") (simp_all add: Empty_def Series_New_def Series_Len_def)

lemma join_columns_even:
  "list_all (\<lambda>c. Err c = None \<and> Series_Len c = 0) (join_columns L df b keys)"
  by (auto simp: join_columns_def list_all_iff Empty_even)

lemma length_join_columns:
  "length (join_columns L df b keys) =
     length (key_cols df keys) + length (nonkey_cols df keys) + length (nonkey_cols b keys)"
  by (simp add: join_columns_def)

lemma LeftJoin_rows_shape:
  assumes "row \<in> set (LeftJoin_rows L df b keys i)"
  shows "length row = length (join_columns L df b keys) \<and>
         list_all (\<lambda>v. length (values_list v) = 1) row"
  using assms
  by (auto simp: LeftJoin_rows_def Let_def length_join_columns cells_def left_cells_def
      right_cells_def list_all_iff split: if_splits)

lemma length_LeftJoin_rows:
  "length (LeftJoin_rows L df b keys i) = max 1 (length (matching_rows L df b keys i))"
  by (cases "matching_rows L df b keys i") (simp_all add: LeftJoin_rows_def Let_def)

lemma length_rows_before:
  "length (concat (map (LeftJoin_rows L df b keys) [0 .. i - 1])) = rows_before L df b keys i"
  by (simp add: length_concat comp_def length_LeftJoin_rows rows_before_def)

lemma LeftJoin_spec_even:
  "list_all (\<lambda>c. Err c = None \<and> Series_Len c = rows_before L df b keys (nrows df))
     (foldl (append_cells L) (join_columns L df b keys)
        (concat (map (LeftJoin_rows L df b keys) [0 .. nrows df - 1]))) \<and>
   length (foldl (append_cells L) (join_columns L df b keys)
        (concat (map (LeftJoin_rows L df b keys) [0 .. nrows df - 1]))) =
     length (join_columns L df b keys)"
proof -
  let ?rows = "concat (map (LeftJoin_rows L df b keys) [0 .. nrows df - 1])"
  let ?cols = "join_columns L df b keys"
  have sh: "\<forall>row\<in>set ?rows. length row = length ?cols \<and> list_all (\<lambda>v. length (values_list v) = 1) row"
    using LeftJoin_rows_shape by auto
  have e: "list_all (\<lambda>c. Err c = None \<and> Series_Len c = 0 + length ?rows) (foldl (append_cells L) ?cols ?rows) \<and>
        length (foldl (append_cells L) ?cols ?rows) = length ?cols"
    using sh join_columns_even by (rule even_foldl_append_cells)
  then show ?thesis by (simp only: length_rows_before add_0)
qed

lemma join_columns_nonempty: "keys \<noteq> [] \<Longrightarrow> join_columns L df b keys \<noteq> []"
  by (simp add: join_columns_def key_cols_def)

lemma LeftJoin_spec_rows:
  assumes "keys \<noteq> []"
  shows "dfErr (LeftJoin_spec L df b keys) = None \<and>
         nrows (LeftJoin_spec L df b keys) = int (rows_before L df b keys (nrows df))"
proof -
  let ?rows = "concat (map (LeftJoin_rows L df b keys) [0 .. nrows df - 1])"
  let ?cols = "join_columns L df b keys"
  from join_columns_nonempty[OF assms] LeftJoin_spec_even[of L df b keys]
  have ne: "foldl (append_cells L) ?cols ?rows \<noteq> []" by auto
  from DataFrame_New_even[OF ne LeftJoin_spec_even[THEN conjunct1]] show ?thesis
    by (simp only: LeftJoin_spec_def)
qed

lemma Append_elems:
  assumes "Err c = None"
  shows "\<exists>ys. elems (elements (Append L c v)) = elems (elements c) @ ys"
proof (cases "elements c")
  case (stringElements xs)
  with assms show ?thesis
    by (simp add: Append_def Series_New_def Series_Type_def)
next
  case (intElements xs)
  with assms show ?thesis
    by (simp add: Append_def Series_New_def Series_Type_def)
next
  case (floatElements xs)
  with assms show ?thesis
    by (simp add: Append_def Series_New_def Series_Type_def)
next
  case (boolElements xs)
  with assms show ?thesis
    by (simp add: Append_def Series_New_def Series_Type_def)
qed

lemma append_cells_nth:
  "length row = length cols \<Longrightarrow> k < length cols \<Longrightarrow>
     append_cells L cols row ! k = Append L (cols ! k) (row ! k)"
proof (induction row cols arbitrary: k rule: list_induct2)
  case Nil
  then show ?case by simp
next
  case (Cons v row c cols)
  then show ?case by (cases k) simp_all
qed

lemma Series_Len_elems: "Series_Len c = length (elems (elements c))"
  by (simp add: Series_Len_def length_elems)

lemma foldl_append_cells_keeps:
  assumes "\<forall>row\<in>set rows. length row = length cols \<and> list_all (\<lambda>v. length (values_list v) = 1) row"
    and "list_all (\<lambda>c. Err c = None \<and> Series_Len c = n) cols" "k < length cols" "j < n"
  shows "elems (elements (foldl (append_cells L) cols rows ! k)) ! j = elems (elements (cols ! k)) ! j"
  using assms
proof (induction rows arbitrary: cols n)
  case Nil
  then show ?case by simp
next
  case (Cons row rows)
  have l: "length (append_cells L cols row) = length cols"
    using Cons.prems(1) by (simp add: length_append_cells)
  have e: "list_all (\<lambda>c. Err c = None \<and> Series_Len c = Suc n) (append_cells L cols row)"
    using Cons.prems by (intro even_append_cells) simp_all
  have sh: "\<forall>r\<in>set rows. length r = length (append_cells L cols row) \<and>
          list_all (\<lambda>v. length (values_list v) = 1) r"
    using Cons.prems(1) l by simp
  have k: "k < length (append_cells L cols row)" using Cons.prems(3) l by simp
  have "elems (elements (foldl (append_cells L) (append_cells L cols row) rows ! k)) ! j =
        elems (elements (append_cells L cols row ! k)) ! j"
    using sh e k by (rule Cons.IH) (use Cons.prems(4) in simp)
  also have "append_cells L cols row ! k = Append L (cols ! k) (row ! k)"
    using Cons.prems(1,3) by (simp add: append_cells_nth)
  also have "elems (elements (Append L (cols ! k) (row ! k))) ! j = elems (elements (cols ! k)) ! j"
  proof -
    have c: "Err (cols ! k) = None" "Series_Len (cols ! k) = n"
      using Cons.prems(2,3) by (simp_all add: list_all_length)
    from Append_elems[OF c(1), of L "row ! k"] obtain ys where
      "elems (elements (Append L (cols ! k) (row ! k))) = elems (elements (cols ! k)) @ ys" by blast
    with c(2) Cons.prems(4) show ?thesis by (simp add: nth_append Series_Len_elems)
  qed
  finally show ?case by simp
qed

lemma foldl_append_cells_nil:
  assumes "\<forall>row\<in>set rows. length row = length cols \<and> list_all (\<lambda>v. length (values_list v) = 1) row"
    and "list_all (\<lambda>c. Err c = None \<and> Series_Len c = n) cols" "k < length cols"
    and "r < length rows" "rows ! r ! k = NilValues"
  shows "IsNA (elems (elements (foldl (append_cells L) cols rows ! k)) ! (n + r))"
  using assms
proof (induction rows arbitrary: cols n r)
  case Nil
  then show ?case by simp
next
  case (Cons row rows)
  have l: "length (append_cells L cols row) = length cols"
    using Cons.prems(1) by (simp add: length_append_cells)
  have e: "list_all (\<lambda>c. Err c = None \<and> Series_Len c = Suc n) (append_cells L cols row)"
    using Cons.prems by (intro even_append_cells) simp_all
  have sh: "\<forall>r\<in>set rows. length r = length (append_cells L cols row) \<and>
          list_all (\<lambda>v. length (values_list v) = 1) r"
    using Cons.prems(1) l by simp
  have k: "k < length (append_cells L cols row)" using Cons.prems(3) l by simp
  show ?case
  proof (cases r)
    case 0
    have c: "Err (cols ! k) = None" "Series_Len (cols ! k) = n"
      using Cons.prems(2,3) by (simp_all add: list_all_length)
    have ak: "append_cells L cols row ! k = Append L (cols ! k) NilValues"
      using Cons.prems(1,3,5) 0 by (simp add: append_cells_nth)
    have "elems (elements (foldl (append_cells L) (append_cells L cols row) rows ! k)) ! n =
          elems (elements (append_cells L cols row ! k)) ! n"
      using sh e k by (rule foldl_append_cells_keeps) simp
    also have "\<dots> = elems (elements (Append L (cols ! k) NilValues)) ! n" by (simp only: ak)
    also have "\<dots> = last (elems (elements (Append L (cols ! k) NilValues)))"
    proof -
      have len: "length (elems (elements (Append L (cols ! k) NilValues))) = Suc n"
        using Series_Len_Append[OF c(1), of L NilValues] c(2) by (simp add: Series_Len_elems)
      then have "elems (elements (Append L (cols ! k) NilValues)) \<noteq> []" by auto
      from last_conv_nth[OF this] len show ?thesis by simp
    qed
    finally show ?thesis using Append_nil_missing[OF c(1), of L] 0 by simp
  next
    case (Suc r')
    have "IsNA (elems (elements (foldl (append_cells L) (append_cells L cols row) rows ! k)) ! (Suc n + r'))"
      using sh e k by (rule Cons.IH) (use Cons.prems(4,5) Suc in simp_all)
    with Suc show ?thesis by simp
  qed
qed

lemma elements_rename_columns:
  "length names = length cols \<Longrightarrow> k < length cols \<Longrightarrow>
     elements (rename_columns cols names ! k) = elements (cols ! k)"
  by (simp add: rename_columns_def)

lemma columns_DataFrame_New_even:
  assumes "se \<noteq> []" "list_all (\<lambda>c. Err c = None \<and> Series_Len c = n) se" "k < length se"
  shows "elements (columns (DataFrame_New se) ! k) = elements (se ! k)"
proof -
  have m: "map Series_Copy se = se" by (simp add: Series_Copy_id map_idI)
  have "columns (DataFrame_New se) = rename_columns se (fixColnames (map Name se))"
    using assms(1,2) by (simp add: DataFrame_New_def checkColumnsDimensions_def check_rows_first Let_def m Names_def)
  then show ?thesis using assms(3) by (simp add: elements_rename_columns length_fixColnames)
qed

lemma upto_split_at: "0 \<le> i \<Longrightarrow> i < n \<Longrightarrow> [0 .. n - 1] = [0 .. i - 1] @ i # [i + 1 .. n - 1]"
  by (rule upto_split3) simp_all

lemma LeftJoin_spec_padded:
  assumes keys: "keys \<noteq> []" and i: "0 \<le> i" "i < nrows df"
    and none: "matching_rows L df b keys i = []"
    and k: "k < length (nonkey_cols b keys)"
  shows "IsNA (cell (columns (LeftJoin_spec L df b keys))
                 (int (length keys + length (nonkey_cols df keys) + k))
                 (int (rows_before L df b keys i)))"
proof -
  let ?f = "LeftJoin_rows L df b keys"
  let ?rows = "concat (map ?f [0 .. nrows df - 1])"
  let ?cols = "join_columns L df b keys"
  let ?K = "length keys + length (nonkey_cols df keys) + k"
  let ?R = "rows_before L df b keys i"
  let ?row = "cells (left_cells df keys i) @ replicate (length (nonkey_cols b keys)) NilValues"
  have fi: "?f i = [?row]" using none by (simp add: LeftJoin_rows_def)
  have split: "?rows = concat (map ?f [0 .. i - 1]) @ ?row # concat (map ?f [i + 1 .. nrows df - 1])"
    by (simp add: upto_split_at[OF i] fi)
  have R: "length (concat (map ?f [0 .. i - 1])) = ?R" by (rule length_rows_before)
  have row: "?rows ! ?R = ?row" unfolding split R[symmetric] by (simp add: nth_append)
  have Rlt: "?R < length ?rows" unfolding split R[symmetric] by simp
  have K: "?K < length ?cols" using k by (simp add: length_join_columns key_cols_def)
  have nil: "?rows ! ?R ! ?K = NilValues"
    unfolding row using k by (simp add: nth_append cells_def left_cells_def key_cols_def)
  have sh: "\<forall>row\<in>set ?rows. length row = length ?cols \<and> list_all (\<lambda>v. length (values_list v) = 1) row"
    using LeftJoin_rows_shape by auto
  have "IsNA (elems (elements (foldl (append_cells L) ?cols ?rows ! ?K)) ! (0 + ?R))"
    using sh join_columns_even K Rlt nil by (rule foldl_append_cells_nil)
  moreover have "elements (columns (LeftJoin_spec L df b keys) ! ?K) =
                 elements (foldl (append_cells L) ?cols ?rows ! ?K)"
    unfolding LeftJoin_spec_def
  proof (rule columns_DataFrame_New_even)
    from join_columns_nonempty[OF keys] LeftJoin_spec_even[of L df b keys]
    show "foldl (append_cells L) ?cols ?rows \<noteq> []" by auto
    show "list_all (\<lambda>c. Err c = None \<and> Series_Len c = rows_before L df b keys (nrows df))
            (foldl (append_cells L) ?cols ?rows)"
      by (rule LeftJoin_spec_even[THEN conjunct1])
    show "?K < length (foldl (append_cells L) ?cols ?rows)"
      using K LeftJoin_spec_even[of L df b keys] by simp
  qed
  ultimately show ?thesis by (simp only: cell_def nat_int add_0)
qed

lemma rows_before_Suc:
  "0 \<le> i \<Longrightarrow> rows_before L df b keys (i + 1) =
     rows_before L df b keys i + max 1 (length (matching_rows L df b keys i))"
  by (simp add: rows_before_def upto_rec2)

text \<open>
  Claim C6. On two tables that can be joined on the keys, \<open>LeftJoin\<close> returns the table of
  its description: the output rows of the left rows in order, where a left row that no
  right row matches has exactly one output row. The table carries no error, it has as
  many rows as the left rows have output rows, and in the output row of a left row
  without match every right non-key column holds a missing element. The step of the row
  loop for such a row appends one element to every new column (the cells of the row to
  the left columns, \<open>nil\<close> to each right non-key column), and the element appended to a
  right non-key column is missing. And on the left table
  \<open>{id: [1, 2], v: ["a", "b"]}\<close> and the right table \<open>{id: [2, 3], w: ["x", "y"]}\<close>
  joined on \<open>id\<close>: \<open>InnerJoin\<close> gives the one row \<open>(2, "b", "x")\<close>; \<open>LeftJoin\<close> the two
  rows \<open>(1, "a", missing)\<close> and \<open>(2, "b", "x")\<close>; \<open>OuterJoin\<close> these two and the row
  \<open>(3, missing, "y")\<close>.
\<close>

theorem LeftJoin_pads_unmatched_rows:
  "(\<forall>df b keys.
      joinable df b keys \<longrightarrow>
        LeftJoin L df b keys = Some (LeftJoin_spec L df b keys) \<and>
        dfErr (LeftJoin_spec L df b keys) = None \<and>
        nrows (LeftJoin_spec L df b keys) = int (rows_before L df b keys (nrows df)) \<and>
        (\<forall>i. 0 \<le> i \<and> i < nrows df \<and> matching_rows L df b keys i = [] \<longrightarrow>
           LeftJoin_rows L df b keys i =
             [cells (left_cells df keys i) @ replicate (length (nonkey_cols b keys)) NilValues] \<and>
           rows_before L df b keys (i + 1) = rows_before L df b keys i + 1 \<and>
           (\<forall>k<length (nonkey_cols b keys).
              IsNA (cell (columns (LeftJoin_spec L df b keys))
                      (int (length keys + length (nonkey_cols df keys) + k))
                      (int (rows_before L df b keys i)))))) \<and>
   (\<forall>ctx i nrowsB (cols :: Series list) xs.
      list_all (\<lambda>j. row_match L ctx i j = Some False) [0 .. nrowsB - 1] \<and>
      read_cells (aCols ctx) (iKeysA ctx @ iNotKeysA ctx) i = Some xs \<and>
      length cols = length xs + length (iNotKeysB ctx) \<and>
      list_all (\<lambda>c. Err c = None) cols \<longrightarrow>
        LeftJoin_row L ctx nrowsB i cols =
          Some (append_cells L cols (cells xs @ replicate (length (iNotKeysB ctx)) NilValues)) \<and>
        map Series_Len (append_cells L cols (cells xs @ replicate (length (iNotKeysB ctx)) NilValues)) =
          map (\<lambda>c. Series_Len c + 1) cols \<and>
        list_all (\<lambda>c. IsNA (last (elems (elements c))))
          (drop (length xs) (append_cells L cols (cells xs @ replicate (length (iNotKeysB ctx)) NilValues)))) \<and>
   InnerJoin L (left_df L) (right_df L) [''id''] =
     Some \<lparr>columns = [\<lparr>Name = ''id'', elements = intElements [intElement 2 False], Err = None\<rparr>,
                      \<lparr>Name = ''v'', elements = stringElements [stringElement ''b'' False], Err = None\<rparr>,
                      \<lparr>Name = ''w'', elements = stringElements [stringElement ''x'' False], Err = None\<rparr>],
           ncols = 3, nrows = 1, dfErr = None\<rparr> \<and>
   LeftJoin L (left_df L) (right_df L) [''id''] =
     Some \<lparr>columns = [\<lparr>Name = ''id'', elements = intElements [intElement 1 False, intElement 2 False], Err = None\<rparr>,
                      \<lparr>Name = ''v'', elements = stringElements [stringElement ''a'' False, stringElement ''b'' False], Err = None\<rparr>,
                      \<lparr>Name = ''w'', elements = stringElements [stringElement [] True, stringElement ''x'' False], Err = None\<rparr>],
           ncols = 3, nrows = 2, dfErr = None\<rparr> \<and>
   OuterJoin L (left_df L) (right_df L) [''id''] =
     Some \<lparr>columns = [\<lparr>Name = ''id'', elements = intElements [intElement 1 False, intElement 2 False, intElement 3 False], Err = None\<rparr>,
                      \<lparr>Name = ''v'', elements = stringElements [stringElement ''a'' False, stringElement ''b'' False, stringElement [] True], Err = None\<rparr>,
                      \<lparr>Name = ''w'', elements = stringElements [stringElement [] True, stringElement ''x'' False, stringElement ''y'' False], Err = None\<rparr>],
           ncols = 3, nrows = 3, dfErr = None\<rparr>"
proof -
  have whole: "\<forall>df b keys.
      joinable df b keys \<longrightarrow>
        LeftJoin L df b keys = Some (LeftJoin_spec L df b keys) \<and>
        dfErr (LeftJoin_spec L df b keys) = None \<and>
        nrows (LeftJoin_spec L df b keys) = int (rows_before L df b keys (nrows df)) \<and>
        (\<forall>i. 0 \<le> i \<and> i < nrows df \<and> matching_rows L df b keys i = [] \<longrightarrow>
           LeftJoin_rows L df b keys i =
             [cells (left_cells df keys i) @ replicate (length (nonkey_cols b keys)) NilValues] \<and>
           rows_before L df b keys (i + 1) = rows_before L df b keys i + 1 \<and>
           (\<forall>k<length (nonkey_cols b keys).
              IsNA (cell (columns (LeftJoin_spec L df b keys))
                      (int (length keys + length (nonkey_cols df keys) + k))
                      (int (rows_before L df b keys i)))))"
  proof (intro allI impI conjI)
    fix df b :: DataFrame and keys :: "string list"
    assume j: "joinable df b keys"
    then have keys: "keys \<noteq> []" by (simp add: joinable_def)
    show "LeftJoin L df b keys = Some (LeftJoin_spec L df b keys)"
      using j by (rule LeftJoin_refines)
    show "dfErr (LeftJoin_spec L df b keys) = None"
      using LeftJoin_spec_rows[OF keys] by (rule conjunct1)
    show "nrows (LeftJoin_spec L df b keys) = int (rows_before L df b keys (nrows df))"
      using LeftJoin_spec_rows[OF keys] by (rule conjunct2)
    fix i assume i: "0 \<le> i \<and> i < nrows df \<and> matching_rows L df b keys i = []"
    then show "LeftJoin_rows L df b keys i =
             [cells (left_cells df keys i) @ replicate (length (nonkey_cols b keys)) NilValues]"
      by (simp add: LeftJoin_rows_def)
    from i show "rows_before L df b keys (i + 1) = rows_before L df b keys i + 1"
      by (simp add: rows_before_Suc)
    fix k assume "k < length (nonkey_cols b keys)"
    with keys i show "IsNA (cell (columns (LeftJoin_spec L df b keys))
                      (int (length keys + length (nonkey_cols df keys) + k))
                      (int (rows_before L df b keys i)))"
      by (intro LeftJoin_spec_padded) simp_all
  qed
  have step: "\<forall>ctx i nrowsB (cols :: Series list) xs.
      list_all (\<lambda>j. row_match L ctx i j = Some False) [0 .. nrowsB - 1] \<and>
      read_cells (aCols ctx) (iKeysA ctx @ iNotKeysA ctx) i = Some xs \<and>
      length cols = length xs + length (iNotKeysB ctx) \<and>
      list_all (\<lambda>c. Err c = None) cols \<longrightarrow>
        LeftJoin_row L ctx nrowsB i cols =
          Some (append_cells L cols (cells xs @ replicate (length (iNotKeysB ctx)) NilValues)) \<and>
        map Series_Len (append_cells L cols (cells xs @ replicate (length (iNotKeysB ctx)) NilValues)) =
          map (\<lambda>c. Series_Len c + 1) cols \<and>
        list_all (\<lambda>c. IsNA (last (elems (elements c))))
          (drop (length xs) (append_cells L cols (cells xs @ replicate (length (iNotKeysB ctx)) NilValues)))"
  proof (intro allI impI)
    fix ctx :: join_ctx and i nrowsB :: int and cols :: "Series list" and xs :: "Element list"
    assume h: "list_all (\<lambda>j. row_match L ctx i j = Some False) [0 .. nrowsB - 1] \<and>
      read_cells (aCols ctx) (iKeysA ctx @ iNotKeysA ctx) i = Some xs \<and>
      length cols = length xs + length (iNotKeysB ctx) \<and>
      list_all (\<lambda>c. Err c = None) cols"
    then show "LeftJoin_row L ctx nrowsB i cols =
           Some (append_cells L cols (cells xs @ replicate (length (iNotKeysB ctx)) NilValues)) \<and>
         map Series_Len (append_cells L cols (cells xs @ replicate (length (iNotKeysB ctx)) NilValues)) =
           map (\<lambda>c. Series_Len c + 1) cols \<and>
         list_all (\<lambda>c. IsNA (last (elems (elements c))))
           (drop (length xs) (append_cells L cols (cells xs @ replicate (length (iNotKeysB ctx)) NilValues)))"
      by (intro LeftJoin_row_unmatched) simp_all
  qed
  have inner: "InnerJoin L (left_df L) (right_df L) [''id''] =
     Some \<lparr>columns = [\<lparr>Name = ''id'', elements = intElements [intElement 2 False], Err = None\<rparr>,
                      \<lparr>Name = ''v'', elements = stringElements [stringElement ''b'' False], Err = None\<rparr>,
                      \<lparr>Name = ''w'', elements = stringElements [stringElement ''x'' False], Err = None\<rparr>],
           ncols = 3, nrows = 1, dfErr = None\<rparr>"
    by code_simp
  have left: "LeftJoin L (left_df L) (right_df L) [''id''] =
     Some \<lparr>columns = [\<lparr>Name = ''id'', elements = intElements [intElement 1 False, intElement 2 False], Err = None\<rparr>,
                      \<lparr>Name = ''v'', elements = stringElements [stringElement ''a'' False, stringElement ''b'' False], Err = None\<rparr>,
                      \<lparr>Name = ''w'', elements = stringElements [stringElement [] True, stringElement ''x'' False], Err = None\<rparr>],
           ncols = 3, nrows = 2, dfErr = None\<rparr>"
    by code_simp
  have outer: "OuterJoin L (left_df L) (right_df L) [''id''] =
     Some \<lparr>columns = [\<lparr>Name = ''id'', elements = intElements [intElement 1 False, intElement 2 False, intElement 3 False], Err = None\<rparr>,
                      \<lparr>Name = ''v'', elements = stringElements [stringElement ''a'' False, stringElement ''b'' False, stringElement [] True], Err = None\<rparr>,
                      \<lparr>Name = ''w'', elements = stringElements [stringElement [] True, stringElement ''x'' False, stringElement ''y'' False], Err = None\<rparr>],
           ncols = 3, nrows = 3, dfErr = None\<rparr>"
    by code_simp
  show ?thesis
    by (rule conjI[OF whole conjI[OF step conjI[OF inner conjI[OF left outer]]]])
qed

theorem LeftJoin_pads_unmatched_rows_witness:
  "joinable (left_df lib0) (right_df lib0) [''id''] \<and>
   matching_rows lib0 (left_df lib0) (right_df lib0) [''id''] 0 = [] \<and>
   LeftJoin lib0 (left_df lib0) (right_df lib0) [''id''] =
     Some (LeftJoin_spec lib0 (left_df lib0) (right_df lib0) [''id'']) \<and>
   nrows (LeftJoin_spec lib0 (left_df lib0) (right_df lib0) [''id'']) = 2 \<and>
   rows_before lib0 (left_df lib0) (right_df lib0) [''id''] 0 = 0 \<and>
   rows_before lib0 (left_df lib0) (right_df lib0) [''id''] 1 = 1 \<and>
   IsNA (cell (columns (LeftJoin_spec lib0 (left_df lib0) (right_df lib0) [''id''])) 2 0) \<and>
   row_match lib0 (join_context (left_df lib0) (right_df lib0) [''id'']) 0 0 = Some False \<and>
   row_match lib0 (join_context (left_df lib0) (right_df lib0) [''id'']) 0 1 = Some False \<and>
   read_cells (aCols (join_context (left_df lib0) (right_df lib0) [''id'']))
      (iKeysA (join_context (left_df lib0) (right_df lib0) [''id'']) @
       iNotKeysA (join_context (left_df lib0) (right_df lib0) [''id''])) 0 =
     Some [IntE (intElement 1 False), StringE (stringElement ''a'' False)] \<and>
   LeftJoin_row lib0 (join_context (left_df lib0) (right_df lib0) [''id'']) 2 0
      [\<lparr>Name = ''id'', elements = intElements [], Err = None\<rparr>,
       \<lparr>Name = ''v'', elements = stringElements [], Err = None\<rparr>,
       \<lparr>Name = ''w'', elements = stringElements [], Err = None\<rparr>] =
     Some [\<lparr>Name = ''id'', elements = intElements [intElement 1 False], Err = None\<rparr>,
           \<lparr>Name = ''v'', elements = stringElements [stringElement ''a'' False], Err = None\<rparr>,
           \<lparr>Name = ''w'', elements = stringElements [stringElement [] True], Err = None\<rparr>]"
proof -
  let ?df = "left_df lib0"
  let ?b = "right_df lib0"
  let ?ctx = "join_context (left_df lib0) (right_df lib0) [''id'']"
  let ?cols = "[\<lparr>Name = ''id'', elements = intElements [], Err = None\<rparr>,
       \<lparr>Name = ''v'', elements = stringElements [], Err = None\<rparr>,
       \<lparr>Name = ''w'', elements = stringElements [], Err = None\<rparr>]"
  let ?xs = "[IntE (intElement 1 False), StringE (stringElement ''a'' False)]"
  have j: "joinable ?df ?b [''id'']" by code_simp
  have none: "matching_rows lib0 ?df ?b [''id''] 0 = []" by code_simp
  have i0: "(0::int) \<le> 0 \<and> 0 < nrows ?df \<and> matching_rows lib0 ?df ?b [''id''] 0 = []"
    using none by code_simp
  have k0: "0 < length (nonkey_cols ?b [''id''])" by code_simp
  note w = LeftJoin_pads_unmatched_rows[of lib0, THEN conjunct1, rule_format, OF j]
  from w have r: "LeftJoin lib0 ?df ?b [''id''] = Some (LeftJoin_spec lib0 ?df ?b [''id''])"
    by (rule conjunct1)
  from w have "nrows (LeftJoin_spec lib0 ?df ?b [''id'']) = int (rows_before lib0 ?df ?b [''id''] (nrows ?df))"
    by (rule conjunct2[THEN conjunct2, THEN conjunct1])
  also have "\<dots> = 2" by code_simp
  finally have n: "nrows (LeftJoin_spec lib0 ?df ?b [''id'']) = 2" .
  have b0: "rows_before lib0 ?df ?b [''id''] 0 = 0" by code_simp
  from w i0 have "rows_before lib0 ?df ?b [''id''] (0 + 1) = rows_before lib0 ?df ?b [''id''] 0 + 1"
    by blast
  with b0 have b1: "rows_before lib0 ?df ?b [''id''] 1 = 1" by simp
  from w i0 k0 have "IsNA (cell (columns (LeftJoin_spec lib0 ?df ?b [''id'']))
        (int (length [''id''] + length (nonkey_cols ?df [''id'']) + 0))
        (int (rows_before lib0 ?df ?b [''id''] 0)))"
    by blast
  moreover have "int (length [''id''] + length (nonkey_cols ?df [''id'']) + 0) = 2" by code_simp
  ultimately have na: "IsNA (cell (columns (LeftJoin_spec lib0 ?df ?b [''id''])) 2 0)"
    using b0 by simp
  have m0: "row_match lib0 ?ctx 0 0 = Some False" by code_simp
  have m1: "row_match lib0 ?ctx 0 1 = Some False" by code_simp
  have h1: "list_all (\<lambda>j. row_match lib0 ?ctx 0 j = Some False) [0 .. 2 - 1]"
    using m0 m1 by (simp add: upto.simps)
  have h2: "read_cells (aCols ?ctx) (iKeysA ?ctx @ iNotKeysA ?ctx) 0 = Some ?xs" by code_simp
  have h3: "length ?cols = length ?xs + length (iNotKeysB ?ctx)" by code_simp
  have h4: "list_all (\<lambda>c. Err c = None) ?cols" by simp
  have "LeftJoin_row lib0 ?ctx 2 0 ?cols =
      Some (append_cells lib0 ?cols (cells ?xs @ replicate (length (iNotKeysB ?ctx)) NilValues))"
    using LeftJoin_pads_unmatched_rows[of lib0, THEN conjunct2, THEN conjunct1, rule_format, of ?ctx 0 2 ?xs ?cols]
      h1 h2 h3 h4 by blast
  also have "append_cells lib0 ?cols (cells ?xs @ replicate (length (iNotKeysB ?ctx)) NilValues) =
      [\<lparr>Name = ''id'', elements = intElements [intElement 1 False], Err = None\<rparr>,
           \<lparr>Name = ''v'', elements = stringElements [stringElement ''a'' False], Err = None\<rparr>,
           \<lparr>Name = ''w'', elements = stringElements [stringElement [] True], Err = None\<rparr>]"
    by code_simp
  finally have step: "LeftJoin_row lib0 ?ctx 2 0 ?cols =
      Some [\<lparr>Name = ''id'', elements = intElements [intElement 1 False], Err = None\<rparr>,
           \<lparr>Name = ''v'', elements = stringElements [stringElement ''a'' False], Err = None\<rparr>,
           \<lparr>Name = ''w'', elements = stringElements [stringElement [] True], Err = None\<rparr>]" .
  show ?thesis
    by (rule conjI[OF j conjI[OF none conjI[OF r conjI[OF n conjI[OF b0 conjI[OF b1 conjI[OF na
          conjI[OF m0 conjI[OF m1 conjI[OF h2 step]]]]]]]]]])
qed

section \<open>Names set by hand\<close>

text \<open>On a table without error and with as many names as columns, \<open>SetNames\<close> makes the
  given names the names of the table, whatever they are.\<close>

lemma SetNames_verbatim:
  "dfErr df = None \<Longrightarrow> int (length colnames) = ncols df \<Longrightarrow>
     length (columns df) = length colnames \<Longrightarrow>
     fst (SetNames df colnames) = None \<and> Names (snd (SetNames df colnames)) = colnames"
  by (simp add: SetNames_def Names_def Names_rename_columns)

end
